theory Spec2Isabelle
  imports Main
begin

section \<open>HTTP front-end: authorization and routing (proxy-server.ts)\<close>

text \<open>
  The part of an incoming request that the router of \<open>startKiroProxyServer\<close> reads:
  the method, the path name of the URL, the \<open>authorization\<close> and \<open>x-api-key\<close> headers
  (absent headers are \<open>None\<close>) and the \<open>id\<close> query parameter.
\<close>

record request =
  req_method :: string
  pathname :: string
  authorization :: "string option"
  x_api_key :: "string option"
  query_id :: "string option"

text \<open>The optional callbacks of \<open>ProxyOptions\<close> that the router tests for presence.\<close>

record proxy_callbacks =
  has_refreshUsage :: bool
  has_addAccount :: bool
  has_deleteAccount :: bool

text \<open>JavaScript \<open>s.startsWith(p)\<close> and \<open>x || ''\<close> on an optional string.\<close>

definition startsWith :: "string \<Rightarrow> string \<Rightarrow> bool" where
  "startsWith p s = (take (length p) s = p)"

definition orEmpty :: "string option \<Rightarrow> string" where
  "orEmpty h = (case h of None \<Rightarrow> [] | Some s \<Rightarrow> s)"

text \<open>
  \<open>isAuthorized(req, apiKey)\<close>: with no key (undefined or the empty string, both falsy)
  every request is authorized; otherwise the bearer token or the \<open>x-api-key\<close> header
  has to equal the key.
\<close>

definition isAuthorized :: "request \<Rightarrow> string option \<Rightarrow> bool" where
  "isAuthorized req apiKey =
     (case apiKey of
        None \<Rightarrow> True
      | Some k \<Rightarrow>
          if k = [] then True
          else
            let authHeader = orEmpty (authorization req);
                token = (if startsWith ''Bearer '' authHeader then drop 7 authHeader else []);
                headerKey = orEmpty (x_api_key req)
            in token = k \<or> headerKey = k)"

text \<open>
  What the request handler does with a request, up to the point where a route's own work
  starts: either it answers at once with a status (\<open>Respond\<close>), or it serves the static
  admin page, or it enters the body of one of the routes.
\<close>

datatype route_outcome =
    Respond nat string
  | ServeAdminPage
  | RunAdminData
  | RunAdminProxy
  | RunUsageRefresh
  | RunAccountImport
  | RunAccountDelete string
  | RunModels
  | RunChat

text \<open>
  The chain of \<open>if\<close>s at the head of the handler of \<open>http.createServer\<close>, in the order of
  the source. \<open>bodyOk\<close> says whether \<open>parseBody\<close> could parse the request body.
\<close>

definition unauthorized :: route_outcome where
  "unauthorized = Respond 401 ''Unauthorized''"

definition route :: "proxy_callbacks \<Rightarrow> string option \<Rightarrow> bool \<Rightarrow> request \<Rightarrow> route_outcome" where
  "route cb apiKey bodyOk req =
    (let m = req_method req; p = pathname req in
     if m = ''OPTIONS'' then Respond 204 []
     else if m = ''GET'' \<and> p = ''/health'' then Respond 200 ''ok''
     else if m = ''GET'' \<and> p = ''/admin'' then ServeAdminPage
     else if m = ''GET'' \<and> p = ''/admin/data'' then
       (if \<not> isAuthorized req apiKey then unauthorized else RunAdminData)
     else if m = ''POST'' \<and> p = ''/admin/proxy'' then
       (if \<not> isAuthorized req apiKey then unauthorized else RunAdminProxy)
     else if m = ''POST'' \<and> p = ''/admin/usage/refresh'' then
       (if \<not> isAuthorized req apiKey then unauthorized
        else if \<not> has_refreshUsage cb then Respond 400 ''Refresh usage not supported''
        else RunUsageRefresh)
     else if m = ''POST'' \<and> p = ''/admin/account'' then
       (if \<not> isAuthorized req apiKey then unauthorized
        else if \<not> has_addAccount cb then Respond 400 ''Import not supported''
        else RunAccountImport)
     else if m = ''DELETE'' \<and> p = ''/admin/account'' then
       (if \<not> isAuthorized req apiKey then unauthorized
        else if \<not> has_deleteAccount cb then Respond 400 ''Delete not supported''
        else (case query_id req of
                None \<Rightarrow> Respond 400 ''Missing id''
              | Some i \<Rightarrow> if i = [] then Respond 400 ''Missing id'' else RunAccountDelete i))
     else if m = ''GET'' \<and> p = ''/v1/models'' then
       (if \<not> isAuthorized req apiKey then unauthorized else RunModels)
     else if m \<noteq> ''POST'' then Respond 404 ''Not found''
     else if \<not> isAuthorized req apiKey then unauthorized
     else if \<not> bodyOk then Respond 400 ''Invalid JSON body''
     else if p \<noteq> ''/v1/chat/completions'' \<and> p \<noteq> ''/v1/messages''
       then Respond 404 ''Unsupported endpoint''
     else RunChat)"

text \<open>
  A request presents the configured key when the bearer token of its \<open>authorization\<close>
  header or its \<open>x-api-key\<close> header equals it.
\<close>

definition presentsKey :: "request \<Rightarrow> string \<Rightarrow> bool" where
  "presentsKey req k =
     (authorization req = Some (''Bearer '' @ k) \<or> x_api_key req = Some k)"

definition reqAdminNoKey :: request where
  "reqAdminNoKey = \<lparr> req_method = ''GET'', pathname = ''/admin'', authorization = None,
     x_api_key = None, query_id = None \<rparr>"

definition reqChatNoKey :: request where
  "reqChatNoKey = \<lparr> req_method = ''POST'', pathname = ''/v1/messages'', authorization = None,
     x_api_key = Some ''wrong'', query_id = None \<rparr>"

definition allCallbacks :: proxy_callbacks where
  "allCallbacks = \<lparr> has_refreshUsage = True, has_addAccount = True, has_deleteAccount = True \<rparr>"

section \<open>Kiro adapter: retry policy (claude-kiro.ts)\<close>

text \<open>
  A thrown JavaScript error, as far as the adapter and the dispatcher look at it: its
  message and \<open>error.response?.status\<close>, which is absent for local and network errors.
\<close>

datatype js_error = JsError (message: string) (response_status: "nat option")

text \<open>What the adapter does besides returning: requests, forced refreshes and waits.\<close>

datatype action = Send nat | ForceRefresh | Sleep nat

text \<open>
  The world of one adapter call. \<open>upstream n\<close> is the reply to the \<open>n\<close>-th request that
  the call sends; \<open>refresh n\<close> is the outcome of \<open>initializeAuth(true)\<close> after \<open>n\<close>
  requests, \<open>Some msg\<close> when it throws (the refresher wraps every failure in a plain
  \<open>Error\<close>, which has no response status).
\<close>

datatype 'a reply = Ok 'a | Failed js_error

record 'a adapter_env =
  upstream :: "nat \<Rightarrow> 'a reply"
  refresh :: "nat \<Rightarrow> string option"

definition retryable_unary :: "nat option \<Rightarrow> bool" where
  "retryable_unary st = (case st of None \<Rightarrow> False | Some c \<Rightarrow> c = 429 \<or> c \<ge> 500)"

text \<open>
  \<open>callApi(method, model, body, isRetry, retryCount)\<close>. Every call, the first and each
  retry, begins with \<open>buildCodewhispererRequest(body.messages, \<dots>)\<close>, which runs before the
  \<open>try\<close> and rewrites the array \<open>body.messages\<close> in place: \<open>build\<close> gives its result
  for the array as it finds it (\<open>Inl\<close> the message of the error thrown, which leaves
  \<open>callApi\<close> at once) and the array as it leaves it. \<open>n\<close> counts the requests sent so far.
  Returned are what was done, the outcome, and the array afterwards. The service is
  taken as initialized: the dispatcher creates it with an access token, with which
  \<open>initialize\<close> does not refresh and does not throw.
\<close>

function callApi ::
  "'a adapter_env \<Rightarrow> ('m \<Rightarrow> (string + 'r) \<times> 'm) \<Rightarrow> 'm \<Rightarrow> nat \<Rightarrow> bool \<Rightarrow> nat
     \<Rightarrow> action list \<times> (js_error + 'a) \<times> 'm" where
  "callApi env build messages n isRetry retryCount =
     (case build messages of
        (Inl msg, messages1) \<Rightarrow> ([], Inl (JsError msg None), messages1)
      | (Inr requestData, messages1) \<Rightarrow>
          (case upstream env n of
             Ok d \<Rightarrow> ([Send n], Inr d, messages1)
           | Failed e \<Rightarrow>
               if response_status e = Some 403 \<and> \<not> isRetry then
                 (case refresh env (Suc n) of
                    Some msg \<Rightarrow> ([Send n, ForceRefresh], Inl (JsError msg None), messages1)
                  | None \<Rightarrow>
                      (let (acts, r) = callApi env build messages1 (Suc n) True retryCount
                       in (Send n # ForceRefresh # acts, r)))
               else if retryable_unary (response_status e) \<and> retryCount < 3 then
                 (let (acts, r) = callApi env build messages1 (Suc n) isRetry (Suc retryCount)
                  in (Send n # Sleep (1000 * 2 ^ retryCount) # acts, r))
               else ([Send n], Inl e, messages1)))"
  by pat_completeness auto
termination
  by (relation "measure (\<lambda>(env, build, messages, n, isRetry, retryCount).
        (if isRetry then 0 else 1) + (3 - retryCount))") auto

declare callApi.simps [simp del]

text \<open>
  The events that \<open>parseAwsEventStreamBuffer\<close> extracts from the upstream frames, and the
  events that \<open>streamApiReal\<close> yields.
\<close>

datatype parsed_event =
    PContent string
  | PToolUse string string string bool
  | PToolUseInput string
  | PToolUseStop bool

datatype stream_event =
    EContent string
  | EToolUse string string string bool
  | EToolUseInput string
  | EToolUseStop bool

text \<open>
  The inner loop of \<open>streamApiReal\<close> over the events of one network read. The state is
  \<open>lastContentEvent\<close>; a content event with an empty payload is not yielded, and neither
  is one whose payload equals the last yielded content.
\<close>

fun yield_events :: "string option \<Rightarrow> parsed_event list \<Rightarrow> stream_event list \<times> string option" where
  "yield_events lastContentEvent [] = ([], lastContentEvent)"
| "yield_events lastContentEvent (PContent d # es) =
     (if d \<noteq> [] then
        (if lastContentEvent = Some d then yield_events lastContentEvent es
         else (let (ys, l) = yield_events (Some d) es in (EContent d # ys, l)))
      else yield_events lastContentEvent es)"
| "yield_events lastContentEvent (PToolUse nm i inp st # es) =
     (let (ys, l) = yield_events lastContentEvent es in (EToolUse nm i inp st # ys, l))"
| "yield_events lastContentEvent (PToolUseInput inp # es) =
     (let (ys, l) = yield_events lastContentEvent es in (EToolUseInput inp # ys, l))"
| "yield_events lastContentEvent (PToolUseStop st # es) =
     (let (ys, l) = yield_events lastContentEvent es in (EToolUseStop st # ys, l))"

text \<open>The outer loop over the network reads; \<open>lastContentEvent\<close> lives across reads.\<close>

fun yield_reads :: "string option \<Rightarrow> parsed_event list list \<Rightarrow> stream_event list" where
  "yield_reads lastContentEvent [] = []"
| "yield_reads lastContentEvent (r # rs) =
     (let (ys, l) = yield_events lastContentEvent r in ys @ yield_reads l rs)"

text \<open>
  A streamed upstream reply: the parsed events of each network read, and the error that
  ends the reply, if any (with no reads when the request itself is refused).
\<close>

record stream_reply =
  reads :: "parsed_event list list"
  failure :: "js_error option"

record stream_env =
  s_upstream :: "nat \<Rightarrow> stream_reply"
  s_refresh :: "nat \<Rightarrow> string option"
  REQUEST_MAX_RETRIES :: "nat option"
  REQUEST_BASE_DELAY :: "nat option"

text \<open>JavaScript \<open>x || d\<close> on an optional number: absent and 0 give the default.\<close>

definition orDefault :: "nat option \<Rightarrow> nat \<Rightarrow> nat" where
  "orDefault x d = (case x of None \<Rightarrow> d | Some v \<Rightarrow> if v = 0 then d else v)"

text \<open>
  \<open>streamApiReal(method, model, body, isRetry, retryCount)\<close>: the yielded events, what was
  done, the error the generator throws in the end, if any, and the array \<open>body.messages\<close>
  afterwards. As in \<open>callApi\<close>, every call begins with \<open>buildCodewhispererRequest\<close>.
\<close>

function streamApiReal ::
  "stream_env \<Rightarrow> ('m \<Rightarrow> (string + 'r) \<times> 'm) \<Rightarrow> 'm \<Rightarrow> nat \<Rightarrow> bool \<Rightarrow> nat
     \<Rightarrow> stream_event list \<times> action list \<times> js_error option \<times> 'm" where
  "streamApiReal env build messages n isRetry retryCount =
     (let maxRetries = orDefault (REQUEST_MAX_RETRIES env) 3;
          baseDelay = orDefault (REQUEST_BASE_DELAY env) 1000
      in case build messages of
        (Inl msg, messages1) \<Rightarrow> ([], [], Some (JsError msg None), messages1)
      | (Inr requestData, messages1) \<Rightarrow>
          (let ys = yield_reads None (reads (s_upstream env n)) in
           case failure (s_upstream env n) of
             None \<Rightarrow> (ys, [Send n], None, messages1)
           | Some e \<Rightarrow>
               if response_status e = Some 403 \<and> \<not> isRetry then
                 (case s_refresh env (Suc n) of
                    Some msg \<Rightarrow> (ys, [Send n, ForceRefresh], Some (JsError msg None), messages1)
                  | None \<Rightarrow>
                      (let (zs, acts, r) =
                             streamApiReal env build messages1 (Suc n) True retryCount
                       in (ys @ zs, Send n # ForceRefresh # acts, r)))
               else if response_status e = Some 429 \<and> retryCount < maxRetries then
                 (let (zs, acts, r) =
                        streamApiReal env build messages1 (Suc n) isRetry (Suc retryCount)
                  in (ys @ zs, Send n # Sleep (baseDelay * 2 ^ retryCount) # acts, r))
               else (ys, [Send n], Some e, messages1)))"
  by pat_completeness auto
termination
  by (relation "measure (\<lambda>(env, build, messages, n, isRetry, retryCount).
        (if isRetry then 0 else 1) + (orDefault (REQUEST_MAX_RETRIES env) 3 - retryCount))")
     auto

declare streamApiReal.simps [simp del]

text \<open>A request that is built the same at every call and leaves its input as it is.\<close>

definition fixedRequest :: "'r \<Rightarrow> unit \<Rightarrow> (string + 'r) \<times> unit" where
  "fixedRequest requestData messages = (Inr requestData, messages)"

text \<open>An upstream that answers every request with the same HTTP error status.\<close>

definition always_status :: "nat \<Rightarrow> string adapter_env" where
  "always_status c =
     \<lparr> upstream = (\<lambda>n. Failed (JsError ''upstream error'' (Some c))),
       refresh = (\<lambda>n. None) \<rparr>"

definition s_always_status :: "nat \<Rightarrow> stream_env" where
  "s_always_status c =
     \<lparr> s_upstream = (\<lambda>n. \<lparr> reads = [], failure = Some (JsError ''upstream error'' (Some c)) \<rparr>),
       s_refresh = (\<lambda>n. None),
       REQUEST_MAX_RETRIES = None,
       REQUEST_BASE_DELAY = None \<rparr>"

definition sleeps :: "action list \<Rightarrow> nat list" where
  "sleeps acts = concat (map (\<lambda>a. case a of Sleep d \<Rightarrow> [d] | _ \<Rightarrow> []) acts)"

definition refreshes :: "action list \<Rightarrow> nat" where
  "refreshes acts = length (filter (\<lambda>a. a = ForceRefresh) acts)"

definition sends :: "action list \<Rightarrow> nat" where
  "sends acts = length (filter (\<lambda>a. case a of Send _ \<Rightarrow> True | _ \<Rightarrow> False) acts)"

section \<open>Bracketed tool calls and deduplication (claude-kiro.ts)\<close>

text \<open>
  JSON values, and the functions of the JavaScript runtime and of npm packages that the
  adapter calls: they are parameters of the model. \<open>JSON_parse\<close> is \<open>None\<close> where
  \<open>JSON.parse\<close> throws, and \<open>parseFrame\<close> is \<open>JSON.parse\<close> on the text of an upstream
  frame; \<open>matchCalledName\<close> is the first capture group of
  \<open>/\[Called\s+(\w+)\s+with\s+args:/i\<close>; \<open>repairJson\<close> stands for the three regular
  expression replacements of the function of that name; \<open>uuidv4\<close> is indexed by the place
  that draws the identifier; \<open>countTokens\<close> is \<open>countTextTokens\<close>.
\<close>

datatype json =
    JNull
  | JBool bool
  | JNum int
  | JStr string
  | JArr "json list"
  | JObj "(string \<times> json) list"

datatype uuid_site = MessageId | ConversationId | BracketCall nat | ToolFallback nat

text \<open>
  The payload of an upstream frame after \<open>JSON.parse\<close>, as far as the frame parser reads
  it, with the field types of the protocol: absent fields are \<open>None\<close>, and
  \<open>followupPrompt\<close> is kept as its truthiness.
\<close>

record frame =
  f_content :: "string option"
  f_followupPrompt :: bool
  f_name :: "string option"
  f_toolUseId :: "string option"
  f_input :: "string option"
  f_stop :: "bool option"

record js_lib =
  JSON_parse :: "string \<Rightarrow> json option"
  parseFrame :: "string \<Rightarrow> frame option"
  JSON_stringify :: "json \<Rightarrow> string"
  matchCalledName :: "string \<Rightarrow> string option"
  repairJson :: "string \<Rightarrow> string"
  uuidv4 :: "uuid_site \<Rightarrow> string"
  countTokens :: "string \<Rightarrow> nat"

text \<open>JavaScript truthiness of a JSON value, and \<open>typeof v === 'object' && v !== null\<close>.\<close>

fun truthy :: "json \<Rightarrow> bool" where
  "truthy JNull = False"
| "truthy (JBool b) = b"
| "truthy (JNum n) = (n \<noteq> 0)"
| "truthy (JStr s) = (s \<noteq> [])"
| "truthy (JArr xs) = True"
| "truthy (JObj kvs) = True"

fun isObject :: "json \<Rightarrow> bool" where
  "isObject (JArr xs) = True"
| "isObject (JObj kvs) = True"
| "isObject j = False"

text \<open>String functions of JavaScript on (ASCII) strings.\<close>

definition indexOf :: "string \<Rightarrow> string \<Rightarrow> nat \<Rightarrow> nat option" where
  "indexOf text pat start = List.find (\<lambda>i. startsWith pat (drop i text)) [start..<length text]"

definition lastIndexOfChar :: "string \<Rightarrow> char \<Rightarrow> nat option" where
  "lastIndexOfChar text c = List.find (\<lambda>i. text ! i = c) (rev [0..<length text])"

definition substring :: "string \<Rightarrow> nat \<Rightarrow> nat \<Rightarrow> string" where
  "substring text a b = take (b - a) (drop a text)"

definition isSpace :: "char \<Rightarrow> bool" where
  "isSpace c = (c = CHR '' '' \<or> c = CHR 0x09 \<or> c = CHR 0x0A \<or> c = CHR 0x0B
                \<or> c = CHR 0x0C \<or> c = CHR 0x0D)"

definition trim :: "string \<Rightarrow> string" where
  "trim s = rev (dropWhile isSpace (rev (dropWhile isSpace s)))"

definition toLowerCase :: "string \<Rightarrow> string" where
  "toLowerCase s =
     map (\<lambda>c. let n = (of_char c :: nat) in if 65 \<le> n \<and> n \<le> 90 then char_of (n + 32) else c) s"

text \<open>
  The loop of \<open>findMatchingBracket\<close> from index \<open>i\<close> on, over the rest of the text, with
  its three variables.
\<close>

fun scanBracket :: "string \<Rightarrow> nat \<Rightarrow> nat \<Rightarrow> bool \<Rightarrow> bool \<Rightarrow> nat option" where
  "scanBracket [] i bracketCount inString escapeNext = None"
| "scanBracket (c # cs) i bracketCount inString escapeNext =
     (if escapeNext then scanBracket cs (Suc i) bracketCount inString False
      else if c = CHR 0x5C \<and> inString then scanBracket cs (Suc i) bracketCount inString True
      else if c = CHR 0x22 then scanBracket cs (Suc i) bracketCount (\<not> inString) escapeNext
      else if \<not> inString then
        (if c = CHR ''['' then scanBracket cs (Suc i) (Suc bracketCount) inString escapeNext
         else if c = CHR '']'' then
           (if bracketCount - 1 = 0 then Some i
            else scanBracket cs (Suc i) (bracketCount - 1) inString escapeNext)
         else scanBracket cs (Suc i) bracketCount inString escapeNext)
      else scanBracket cs (Suc i) bracketCount inString escapeNext)"

definition findMatchingBracket :: "string \<Rightarrow> nat \<Rightarrow> nat option" where
  "findMatchingBracket text startPos =
     (if text = [] \<or> startPos \<ge> length text \<or> text ! startPos \<noteq> CHR ''['' then None
      else scanBracket (drop (Suc startPos) text) (Suc startPos) 1 False False)"

text \<open>A tool call in the OpenAI shape that the parsers of the unary path produce.\<close>

record fn_call =
  fc_id :: string
  fc_name :: string
  fc_arguments :: string

definition parseSingleToolCall :: "js_lib \<Rightarrow> nat \<Rightarrow> string \<Rightarrow> fn_call option" where
  "parseSingleToolCall lib pos toolCallText =
     (case matchCalledName lib toolCallText of
        None \<Rightarrow> None
      | Some nm \<Rightarrow>
          (case indexOf (toLowerCase toolCallText) ''with args:'' 0 of
             None \<Rightarrow> None
           | Some argsStartPos \<Rightarrow>
               (let argsStart = argsStartPos + length ''with args:'' in
                case lastIndexOfChar toolCallText (CHR '']'') of
                  None \<Rightarrow> None
                | Some argsEnd \<Rightarrow>
                    if argsEnd \<le> argsStart then None
                    else
                      (let jsonCandidate = trim (substring toolCallText argsStart argsEnd) in
                       case JSON_parse lib (repairJson lib jsonCandidate) of
                         None \<Rightarrow> None
                       | Some argumentsObj \<Rightarrow>
                           if \<not> isObject argumentsObj then None
                           else Some \<lparr> fc_id = ''call_'' @ take 8 (filter (\<lambda>c. c \<noteq> CHR ''-'')
                                                 (uuidv4 lib (BracketCall pos))),
                                       fc_name = trim nm,
                                       fc_arguments = JSON_stringify lib argumentsObj \<rparr>))))"

text \<open>The positions of all occurrences of \<open>[Called\<close>, by the first loop of \<open>parseBracketToolCalls\<close>.\<close>

definition callPositions :: "string \<Rightarrow> nat list" where
  "callPositions text = filter (\<lambda>i. startsWith ''[Called'' (drop i text)) [0..<length text]"

definition parseBracketToolCalls :: "js_lib \<Rightarrow> string \<Rightarrow> fn_call list option" where
  "parseBracketToolCalls lib responseText =
     (if responseText = [] \<or> callPositions responseText = [] then None
      else
        (let toolCalls =
               List.map_filter
                 (\<lambda>pos. case findMatchingBracket responseText pos of
                          None \<Rightarrow> None
                        | Some endPos \<Rightarrow>
                            parseSingleToolCall lib pos (substring responseText pos (Suc endPos)))
                 (callPositions responseText)
         in if toolCalls \<noteq> [] then Some toolCalls else None))"

text \<open>\<open>deduplicateToolCalls\<close>: the key is the name, a dash and the arguments.\<close>

definition dedupKey :: "fn_call \<Rightarrow> string" where
  "dedupKey tc = fc_name tc @ ''-'' @ fc_arguments tc"

fun dedupLoop :: "string set \<Rightarrow> fn_call list \<Rightarrow> fn_call list" where
  "dedupLoop seen [] = []"
| "dedupLoop seen (tc # tcs) =
     (if dedupKey tc \<notin> seen then tc # dedupLoop (insert (dedupKey tc) seen) tcs
      else dedupLoop seen tcs)"

definition deduplicateToolCalls :: "fn_call list \<Rightarrow> fn_call list" where
  "deduplicateToolCalls toolCalls = dedupLoop {} toolCalls"

section \<open>Event-stream framing (claude-kiro.ts)\<close>

text \<open>The five prefixes at which \<open>parseAwsEventStreamBuffer\<close> looks for a JSON payload.\<close>

definition framePrefixes :: "string list" where
  "framePrefixes =
     [''{'' @ [CHR 0x22] @ ''content'' @ [CHR 0x22] @ '':'',
      ''{'' @ [CHR 0x22] @ ''name'' @ [CHR 0x22] @ '':'',
      ''{'' @ [CHR 0x22] @ ''followupPrompt'' @ [CHR 0x22] @ '':'',
      ''{'' @ [CHR 0x22] @ ''input'' @ [CHR 0x22] @ '':'',
      ''{'' @ [CHR 0x22] @ ''stop'' @ [CHR 0x22] @ '':'']"

text \<open>The smallest position from \<open>searchStart\<close> on at which one of the prefixes begins.\<close>

definition jsonStartOf :: "string \<Rightarrow> nat \<Rightarrow> nat option" where
  "jsonStartOf remaining searchStart =
     (let candidates = List.map_filter (\<lambda>p. indexOf remaining p searchStart) framePrefixes
      in case candidates of [] \<Rightarrow> None | c # cs \<Rightarrow> Some (fold min cs c))"

text \<open>
  The brace-counting loop from index \<open>i\<close> on, over the rest of the buffer: the index of
  the brace that closes the payload.
\<close>

fun scanBrace :: "string \<Rightarrow> nat \<Rightarrow> nat \<Rightarrow> bool \<Rightarrow> bool \<Rightarrow> nat option" where
  "scanBrace [] i braceCount inString escapeNext = None"
| "scanBrace (c # cs) i braceCount inString escapeNext =
     (if escapeNext then scanBrace cs (Suc i) braceCount inString False
      else if c = CHR 0x5C then scanBrace cs (Suc i) braceCount inString True
      else if c = CHR 0x22 then scanBrace cs (Suc i) braceCount (\<not> inString) escapeNext
      else if \<not> inString then
        (if c = CHR ''{'' then scanBrace cs (Suc i) (Suc braceCount) inString escapeNext
         else if c = CHR ''}'' then
           (if braceCount - 1 = 0 then Some i
            else scanBrace cs (Suc i) (braceCount - 1) inString escapeNext)
         else scanBrace cs (Suc i) braceCount inString escapeNext)
      else scanBrace cs (Suc i) braceCount inString escapeNext)"

text \<open>The event of a parsed payload, if any; a payload that does not parse gives none.\<close>

definition nonEmpty :: "string option \<Rightarrow> bool" where
  "nonEmpty x = (case x of None \<Rightarrow> False | Some s \<Rightarrow> s \<noteq> [])"

definition frameEvents :: "frame option \<Rightarrow> parsed_event list" where
  "frameEvents p =
     (case p of
        None \<Rightarrow> []
      | Some parsed \<Rightarrow>
          if f_content parsed \<noteq> None \<and> \<not> f_followupPrompt parsed
          then [PContent (orEmpty (f_content parsed))]
          else if nonEmpty (f_name parsed) \<and> nonEmpty (f_toolUseId parsed)
          then [PToolUse (orEmpty (f_name parsed)) (orEmpty (f_toolUseId parsed))
                  (orEmpty (f_input parsed))
                  (case f_stop parsed of None \<Rightarrow> False | Some b \<Rightarrow> b)]
          else if f_input parsed \<noteq> None \<and> \<not> nonEmpty (f_name parsed)
          then [PToolUseInput (orEmpty (f_input parsed))]
          else if f_stop parsed \<noteq> None
          then [PToolUseStop (case f_stop parsed of None \<Rightarrow> False | Some b \<Rightarrow> b)]
          else [])"

text \<open>
  The \<open>while (true)\<close> loop of \<open>parseAwsEventStreamBuffer\<close>: the events, and \<open>remaining\<close> and
  \<open>searchStart\<close> when the loop is left.
\<close>

function parseLoop :: "js_lib \<Rightarrow> string \<Rightarrow> nat \<Rightarrow> parsed_event list \<times> string \<times> nat" where
  "parseLoop lib remaining searchStart =
     (case jsonStartOf remaining searchStart of
        None \<Rightarrow> ([], remaining, searchStart)
      | Some jsonStart \<Rightarrow>
          (case scanBrace (drop jsonStart remaining) jsonStart 0 False False of
             None \<Rightarrow> ([], drop jsonStart remaining, searchStart)
           | Some jsonEnd \<Rightarrow>
               (let evs = frameEvents
                            (parseFrame lib (substring remaining jsonStart (Suc jsonEnd)))
                in if Suc jsonEnd \<ge> length remaining then (evs, [], Suc jsonEnd)
                   else (let (more, r, s) = parseLoop lib remaining (Suc jsonEnd)
                         in (evs @ more, r, s)))))"
  by pat_completeness auto
termination
proof (relation "measure (\<lambda>(lib, remaining, searchStart). length remaining - searchStart)")
  show "wf (measure (\<lambda>(lib, remaining, searchStart). length remaining - searchStart))" by simp
next
  fix lib :: js_lib and remaining :: string and searchStart jsonStart jsonEnd :: nat
  assume a: "jsonStartOf remaining searchStart = Some jsonStart"
    and b: "scanBrace (drop jsonStart remaining) jsonStart 0 False False = Some jsonEnd"
    and c: "\<not> length remaining \<le> Suc jsonEnd"
  have fm: "(\<forall>x \<in> set xs. s \<le> x) \<Longrightarrow> s \<le> c \<Longrightarrow> s \<le> fold min xs c"
    for xs :: "nat list" and s c
    by (induction xs arbitrary: c) auto
  have sb: "scanBrace cs i n s e = Some j \<Longrightarrow> i \<le> j" for cs i n s e j
    by (induction cs i n s e rule: scanBrace.induct) (auto split: if_splits dest: Suc_leD)
  let ?cands = "List.map_filter (\<lambda>p. indexOf remaining p searchStart) framePrefixes"
  have fu: "List.find P [a..<b] = Some j \<Longrightarrow> a \<le> j" for P and a b j :: nat
    by (auto simp: find_Some_iff)
  have ge: "\<forall>x \<in> set ?cands. searchStart \<le> x"
  proof
    fix x assume "x \<in> set ?cands"
    then obtain p where "indexOf remaining p searchStart = Some x"
      by (auto simp: List.map_filter_def)
    then show "searchStart \<le> x" unfolding indexOf_def by (rule fu)
  qed
  from a obtain c0 cs where cs: "?cands = c0 # cs" and j: "jsonStart = fold min cs c0"
    by (auto simp: jsonStartOf_def Let_def split: list.splits)
  from ge cs have "\<forall>x \<in> set cs. searchStart \<le> x" "searchStart \<le> c0" by auto
  then have "searchStart \<le> jsonStart" using j fm by blast
  moreover have "jsonStart \<le> jsonEnd" using sb[OF b] .
  ultimately show "((lib, remaining, Suc jsonEnd), (lib, remaining, searchStart))
      \<in> measure (\<lambda>(lib, remaining, searchStart). length remaining - searchStart)"
    using c by simp
qed

declare parseLoop.simps [simp del]

text \<open>
  \<open>parseAwsEventStreamBuffer(buffer)\<close>: after the loop, a positive \<open>searchStart\<close> is cut off
  from a non-empty \<open>remaining\<close>.
\<close>

definition parseAwsEventStreamBuffer :: "js_lib \<Rightarrow> string \<Rightarrow> parsed_event list \<times> string" where
  "parseAwsEventStreamBuffer lib buffer =
     (let (events, remaining, searchStart) = parseLoop lib buffer 0
      in (events, if searchStart > 0 \<and> remaining \<noteq> [] then drop searchStart remaining
                  else remaining))"

text \<open>
  The events of each network read, as \<open>streamApiReal\<close> gets them: the chunk is appended to
  the buffer, the buffer is parsed, and what remains is the buffer of the next read.
\<close>

fun parseReads :: "js_lib \<Rightarrow> string \<Rightarrow> string list \<Rightarrow> parsed_event list list" where
  "parseReads lib buffer [] = []"
| "parseReads lib buffer (chunk # chunks) =
     (let (events, remaining) = parseAwsEventStreamBuffer lib (buffer @ chunk)
      in events # parseReads lib remaining chunks)"

section \<open>Streaming response translation (claude-kiro.ts)\<close>

text \<open>The chunks that \<open>generateContentStream\<close> yields (Anthropic stream events).\<close>

datatype sse =
    MessageStart string string nat
  | ContentBlockStartText nat
  | ContentBlockStartToolUse nat string string
  | ContentBlockDeltaText nat string
  | ContentBlockDeltaJson nat string
  | ContentBlockStop nat
  | MessageDelta string nat
  | MessageStop

text \<open>
  A tool call of the streaming path. While it is open its input is the string gathered so
  far; when it is closed the input becomes the parsed JSON value, or stays the raw string
  when \<open>JSON.parse\<close> throws.
\<close>

datatype tc_input = Raw string | Parsed json

record open_call =
  oc_toolUseId :: string
  oc_name :: string
  oc_input :: string

record tool_call =
  toolUseId :: string
  tc_name :: string
  tc_input :: tc_input

definition closeCall :: "js_lib \<Rightarrow> open_call \<Rightarrow> tool_call" where
  "closeCall lib c =
     \<lparr> toolUseId = oc_toolUseId c, tc_name = oc_name c,
       tc_input = (case JSON_parse lib (oc_input c) of
                     None \<Rightarrow> Raw (oc_input c)
                   | Some j \<Rightarrow> Parsed j) \<rparr>"

record gcs_state =
  totalContent :: string
  toolCalls :: "tool_call list"
  currentToolCall :: "open_call option"
  streamStarted :: bool

definition gcs_init :: gcs_state where
  "gcs_init = \<lparr> totalContent = [], toolCalls = [], currentToolCall = None,
                streamStarted = False \<rparr>"

text \<open>The chunks yielded at the first event of the upstream stream, and only then.\<close>

definition startChunks :: "js_lib \<Rightarrow> string \<Rightarrow> nat \<Rightarrow> gcs_state \<Rightarrow> sse list" where
  "startChunks lib model inputTokens st =
     (if \<not> streamStarted st
      then [MessageStart (uuidv4 lib MessageId) model inputTokens, ContentBlockStartText 0]
      else [])"

text \<open>The body of the \<open>for await\<close> loop after the start chunks, for one event.\<close>

fun handleEvent :: "js_lib \<Rightarrow> stream_event \<Rightarrow> gcs_state \<Rightarrow> gcs_state \<times> sse list" where
  "handleEvent lib (EContent d) st =
     (if d \<noteq> [] then (st\<lparr>totalContent := totalContent st @ d\<rparr>, [ContentBlockDeltaText 0 d])
      else (st, []))"
| "handleEvent lib (EToolUse nm i inp stop) st =
     (if nm \<noteq> [] \<and> i \<noteq> [] then
        (let st1 =
           (case currentToolCall st of
              None \<Rightarrow>
                st\<lparr>currentToolCall :=
                     Some \<lparr> oc_toolUseId = i, oc_name = nm, oc_input = inp \<rparr>\<rparr>
            | Some c \<Rightarrow>
                if oc_toolUseId c = i
                then st\<lparr>currentToolCall := Some (c\<lparr>oc_input := oc_input c @ inp\<rparr>)\<rparr>
                else st\<lparr>toolCalls := toolCalls st @ [closeCall lib c],
                        currentToolCall :=
                          Some \<lparr> oc_toolUseId = i, oc_name = nm, oc_input = inp \<rparr>\<rparr>)
         in if stop then
              (case currentToolCall st1 of
                 None \<Rightarrow> (st1, [])
               | Some c \<Rightarrow>
                   (st1\<lparr>toolCalls := toolCalls st1 @ [closeCall lib c],
                        currentToolCall := None\<rparr>, []))
            else (st1, []))
      else (st, []))"
| "handleEvent lib (EToolUseInput inp) st =
     (case currentToolCall st of
        None \<Rightarrow> (st, [])
      | Some c \<Rightarrow> (st\<lparr>currentToolCall := Some (c\<lparr>oc_input := oc_input c @ inp\<rparr>)\<rparr>, []))"
| "handleEvent lib (EToolUseStop stop) st =
     (case currentToolCall st of
        None \<Rightarrow> (st, [])
      | Some c \<Rightarrow>
          if stop then (st\<lparr>toolCalls := toolCalls st @ [closeCall lib c],
                           currentToolCall := None\<rparr>, [])
          else (st, []))"

fun eventLoop ::
  "js_lib \<Rightarrow> string \<Rightarrow> nat \<Rightarrow> stream_event list \<Rightarrow> gcs_state \<Rightarrow> gcs_state \<times> sse list" where
  "eventLoop lib model inputTokens [] st = (st, [])"
| "eventLoop lib model inputTokens (e # es) st =
     (let first = startChunks lib model inputTokens st;
          (st1, out1) = handleEvent lib e (st\<lparr>streamStarted := True\<rparr>);
          (st2, out2) = eventLoop lib model inputTokens es st1
      in (st2, first @ out1 @ out2))"

text \<open>After the loop: a tool call that is still open is closed.\<close>

definition closeOpenCall :: "js_lib \<Rightarrow> gcs_state \<Rightarrow> gcs_state" where
  "closeOpenCall lib st =
     (case currentToolCall st of
        None \<Rightarrow> st
      | Some c \<Rightarrow> st\<lparr>toolCalls := toolCalls st @ [closeCall lib c], currentToolCall := None\<rparr>)"

text \<open>
  The bracketed tool calls of the whole text are appended to the tool calls of the
  stream; \<open>JSON.parse\<close> of the arguments may throw, which ends the generator.
\<close>

fun bracketCalls :: "js_lib \<Rightarrow> fn_call list \<Rightarrow> js_error + tool_call list" where
  "bracketCalls lib [] = Inr []"
| "bracketCalls lib (btc # btcs) =
     (case JSON_parse lib (if fc_arguments btc = [] then ''{}'' else fc_arguments btc) of
        None \<Rightarrow> Inl (JsError ''Unexpected token in JSON'' None)
      | Some j \<Rightarrow>
          (case bracketCalls lib btcs of
             Inl e \<Rightarrow> Inl e
           | Inr tcs \<Rightarrow>
               Inr (\<lparr> toolUseId = (if fc_id btc = [] then ''tool_'' @ uuidv4 lib (ToolFallback 0)
                                     else fc_id btc),
                       tc_name = fc_name btc, tc_input = Parsed j \<rparr> # tcs)))"

text \<open>\<open>tc.input || {}\<close>, and the \<open>partial_json\<close> of a tool call.\<close>

definition inputOrEmpty :: "tc_input \<Rightarrow> json" where
  "inputOrEmpty inp =
     (case inp of
        Raw s \<Rightarrow> (if s = [] then JObj [] else JStr s)
      | Parsed j \<Rightarrow> (if truthy j then j else JObj []))"

definition partialJson :: "js_lib \<Rightarrow> tool_call \<Rightarrow> string" where
  "partialJson lib tc =
     (case tc_input tc of
        Raw s \<Rightarrow> s
      | Parsed (JStr s) \<Rightarrow> s
      | Parsed j \<Rightarrow> JSON_stringify lib (if truthy j then j else JObj []))"

text \<open>The three chunks of the tool call with index \<open>i\<close> in \<open>toolCalls\<close>.\<close>

definition toolChunks :: "js_lib \<Rightarrow> nat \<Rightarrow> tool_call \<Rightarrow> sse list" where
  "toolChunks lib i tc =
     [ContentBlockStartToolUse (i + 1)
        (if toolUseId tc = [] then ''tool_'' @ uuidv4 lib (ToolFallback (i + 1)) else toolUseId tc)
        (tc_name tc),
      ContentBlockDeltaJson (i + 1) (partialJson lib tc),
      ContentBlockStop (i + 1)]"

definition allToolChunks :: "js_lib \<Rightarrow> tool_call list \<Rightarrow> sse list" where
  "allToolChunks lib tcs = concat (map (\<lambda>(i, tc). toolChunks lib i tc) (enumerate 0 tcs))"

definition outputTokens :: "js_lib \<Rightarrow> string \<Rightarrow> tool_call list \<Rightarrow> nat" where
  "outputTokens lib content tcs =
     countTokens lib content
       + sum_list (map (\<lambda>tc. countTokens lib (JSON_stringify lib (inputOrEmpty (tc_input tc)))) tcs)"

definition stopReason :: "tool_call list \<Rightarrow> string" where
  "stopReason tcs = (if tcs \<noteq> [] then ''tool_use'' else ''end_turn'')"

text \<open>
  \<open>generateContentStream(model, requestBody)\<close> over the events that \<open>streamApiReal\<close>
  yields, when that generator ends without throwing: the chunks yielded, and the error
  thrown, if any.
\<close>

definition generateContentStream ::
  "js_lib \<Rightarrow> string \<Rightarrow> nat \<Rightarrow> stream_event list \<Rightarrow> sse list \<times> js_error option" where
  "generateContentStream lib model inputTokens events =
     (let (st, out) = eventLoop lib model inputTokens events gcs_init;
          st1 = closeOpenCall lib st;
          btcs = (case parseBracketToolCalls lib (totalContent st1) of
                    None \<Rightarrow> [] | Some cs \<Rightarrow> cs)
      in case bracketCalls lib btcs of
           Inl e \<Rightarrow> (out, Some e)
         | Inr bs \<Rightarrow>
             (let tcs = toolCalls st1 @ bs
              in (out @ [ContentBlockStop 0] @ allToolChunks lib tcs
                    @ [MessageDelta (stopReason tcs) (outputTokens lib (totalContent st1) tcs),
                       MessageStop],
                  None)))"

text \<open>The text of the text deltas among the chunks, in order.\<close>

definition textDeltas :: "sse list \<Rightarrow> string list" where
  "textDeltas out = concat (map (\<lambda>c. case c of ContentBlockDeltaText i t \<Rightarrow> [t] | _ \<Rightarrow> []) out)"

text \<open>The payloads of the content events that the parser found upstream, in order.\<close>

definition contentPayloads :: "parsed_event list \<Rightarrow> string list" where
  "contentPayloads es = concat (map (\<lambda>e. case e of PContent d \<Rightarrow> [d] | _ \<Rightarrow> []) es)"

text \<open>
  The newline-escape handling, as the unary path does it in \<open>parseEventStreamChunk\<close>:
  \<open>decodedContent.replace(/(?<!\\)\\n/g, '\n')\<close> puts a line feed for every backslash
  followed by \<open>n\<close> that no backslash precedes. The flag says whether the character before
  is a backslash.
\<close>

fun unescapeFrom :: "bool \<Rightarrow> string \<Rightarrow> string" where
  "unescapeFrom afterBackslash (c # d # cs) =
     (if c = CHR 0x5C \<and> d = CHR ''n'' \<and> \<not> afterBackslash
      then CHR 0x0A # unescapeFrom False cs
      else c # unescapeFrom (c = CHR 0x5C) (d # cs))"
| "unescapeFrom afterBackslash cs = cs"

definition unescapeNewlines :: "string \<Rightarrow> string" where
  "unescapeNewlines s = unescapeFrom False s"

text \<open>
  The text that the reply to request \<open>i\<close> carries: its content payloads after the
  newline-escape handling, without the empty ones, every run of equal consecutive payloads
  reduced to its first.
\<close>

definition replyTexts :: "stream_env \<Rightarrow> nat \<Rightarrow> string list" where
  "replyTexts env i =
     remdups_adj (filter (\<lambda>d. d \<noteq> [])
       (map unescapeNewlines (contentPayloads (concat (reads (s_upstream env i))))))"

text \<open>The tool-use blocks among the chunks: the name and the JSON of each.\<close>

fun toolUseBlocks :: "sse list \<Rightarrow> (string \<times> string) list" where
  "toolUseBlocks (ContentBlockStartToolUse i tid nm # ContentBlockDeltaJson j pj # out) =
     (nm, pj) # toolUseBlocks out"
| "toolUseBlocks (c # out) = toolUseBlocks out"
| "toolUseBlocks [] = []"

text \<open>The texts of the content events among the events that \<open>streamApiReal\<close> yields.\<close>

definition eventTexts :: "stream_event list \<Rightarrow> string list" where
  "eventTexts es = concat (map (\<lambda>e. case e of EContent d \<Rightarrow> [d] | _ \<Rightarrow> []) es)"

text \<open>
  What the guard on \<open>lastContentEvent\<close> of \<open>streamApiReal\<close> lets through, as a function on
  the list of payloads: a payload equal to the last one let through is dropped.
\<close>

fun dropRepeats :: "string option \<Rightarrow> string list \<Rightarrow> string list" where
  "dropRepeats l [] = []"
| "dropRepeats l (d # ds) =
     (if l = Some d then dropRepeats l ds else d # dropRepeats (Some d) ds)"

text \<open>
  The tool calls of the unary path: \<open>_processApiResponse\<close> appends the bracketed calls of
  the raw response to the calls that \<open>parseEventStreamChunk\<close> found and deduplicates.
\<close>

definition processToolCalls :: "js_lib \<Rightarrow> fn_call list \<Rightarrow> string \<Rightarrow> fn_call list" where
  "processToolCalls lib parsedToolCalls rawResponseText =
     deduplicateToolCalls
       (parsedToolCalls @ (case parseBracketToolCalls lib rawResponseText of
                             None \<Rightarrow> [] | Some cs \<Rightarrow> cs))"

subsection \<open>A concrete stream: one tool call, structured and bracketed\<close>

definition dq :: char where
  "dq = CHR 0x22"

definition argsJson :: string where
  "argsJson = ''{'' @ [dq] @ ''q'' @ [dq] @ '':'' @ [dq] @ ''foo'' @ [dq] @ ''}''"

definition bracketText :: string where
  "bracketText = ''[Called search with args: '' @ argsJson @ '']''"

definition dupEvents :: "stream_event list" where
  "dupEvents = [EToolUse ''search'' ''t1'' argsJson True, EContent bracketText]"

text \<open>The runtime functions, as far as this stream needs them.\<close>

text \<open>Two upstream frames with a text delta each.\<close>

definition contentFrame :: "string \<Rightarrow> string" where
  "contentFrame t = ''{'' @ [dq] @ ''content'' @ [dq] @ '':'' @ [dq] @ t @ [dq] @ ''}''"

definition textFrame :: "string \<Rightarrow> frame" where
  "textFrame t = \<lparr> f_content = Some t, f_followupPrompt = False, f_name = None,
                    f_toolUseId = None, f_input = None, f_stop = None \<rparr>"

definition testLib :: js_lib where
  "testLib =
     \<lparr> JSON_parse = (\<lambda>s. if s = argsJson then Some (JObj [(''q'', JStr ''foo'')]) else None),
       parseFrame =
         (\<lambda>s. if s = contentFrame ''Hello '' then Some (textFrame ''Hello '')
              else if s = contentFrame ''world'' then Some (textFrame ''world'')
              else None),
       JSON_stringify = (\<lambda>j. if j = JObj [(''q'', JStr ''foo'')] then argsJson else ''{}''),
       matchCalledName =
         (\<lambda>s. if startsWith ''[Called search with args:'' s then Some ''search'' else None),
       repairJson = (\<lambda>s. s),
       uuidv4 = (\<lambda>k. ''1b9d6bcd-bbfd-4b2d-9b5d-ab8dfbbd4bed''),
       countTokens = (\<lambda>s. (length s + 3) div 4) \<rparr>"

section \<open>Request translation (claude-kiro.ts)\<close>

text \<open>
  A message of the request body. Its role is any string; its content is a string, an
  array of parts, absent (\<open>CNull\<close>) or some other value (\<open>CObject\<close>). The content of a
  \<open>tool_result\<close> part has the same shapes.
\<close>

datatype content =
    CNull
  | CString string
  | CParts "part list"
  | CObject
and part =
    TextPart string
  | ToolResultPart string content
  | ToolUsePart string string json
  | ImagePart string string
  | OtherPart

record message =
  role :: string
  content :: content

text \<open>The text of the text parts with a non-empty text, joined.\<close>

fun joinText :: "part list \<Rightarrow> string" where
  "joinText [] = []"
| "joinText (TextPart t # ps) = t @ joinText ps"
| "joinText (p # ps) = joinText ps"

text \<open>
  \<open>safeGetTextContent\<close>, applied to a value (the system prompt, the content of a tool
  result) and applied to a message, where it reads the message's content; a value that is
  neither a string nor an array ends in \<open>String(...)\<close> of an object.
\<close>

fun safeGetTextContent :: "content \<Rightarrow> string" where
  "safeGetTextContent CNull = []"
| "safeGetTextContent (CString s) = s"
| "safeGetTextContent (CParts ps) = joinText ps"
| "safeGetTextContent CObject = ''[object Object]''"

fun messageText :: "message \<Rightarrow> string" where
  "messageText m =
     (case content m of
        CString s \<Rightarrow> s
      | CParts ps \<Rightarrow> joinText ps
      | _ \<Rightarrow> ''[object Object]'')"

text \<open>The entries of the Kiro request.\<close>

record tool_result =
  tr_text :: string
  tr_status :: string
  tr_toolUseId :: string

record image =
  img_format :: "string option"
  img_bytes :: string

record tool_use =
  tu_input :: json
  tu_name :: string
  tu_toolUseId :: string

record tool_spec =
  ts_name :: "string option"
  ts_description :: string
  ts_inputSchema :: json

text \<open>
  The value of \<open>MODEL_MAPPING[key]\<close>: the id of a listed model, or, for a key that names a
  property of \<open>Object.prototype\<close>, that inherited property (a function or an object).
\<close>

datatype model_value = ModelId string | InheritedProperty string

record user_input =
  ui_content :: string
  ui_modelId :: "model_value option"
  ui_origin :: string
  ui_images :: "image list"
  ui_toolResults :: "tool_result list"
  ui_tools :: "tool_spec list"

record assistant_response =
  ar_content :: string
  ar_toolUses :: "tool_use list"

datatype history_entry =
    UserInputMessage user_input
  | AssistantResponseMessage assistant_response

record kiro_request =
  conversationId :: string
  chatTriggerType :: string
  history :: "history_entry list"
  currentMessage :: user_input
  req_profileArn :: "string option"

text \<open>A tool of the request body, in the Anthropic or in the OpenAI shape.\<close>

record tool_def =
  td_name :: "string option"
  td_description :: "string option"
  td_input_schema :: "json option"
  td_fn_name :: "string option"
  td_fn_description :: "string option"
  td_fn_parameters :: "json option"

text \<open>The fields of the service that the translator reads.\<close>

record kiro_service =
  modelName :: string
  authMethod :: "string option"
  profileArn :: "string option"

definition MODEL_MAPPING :: "(string \<times> string) list" where
  "MODEL_MAPPING =
     [(''claude-opus-4-5'', ''claude-opus-4.5''),
      (''claude-opus-4-5-20251101'', ''claude-opus-4.5''),
      (''claude-haiku-4-5'', ''claude-haiku-4.5''),
      (''claude-sonnet-4-5'', ''CLAUDE_SONNET_4_5_20250929_V1_0''),
      (''claude-sonnet-4-5-20250929'', ''CLAUDE_SONNET_4_5_20250929_V1_0''),
      (''claude-sonnet-4-20250514'', ''CLAUDE_SONNET_4_20250514_V1_0''),
      (''claude-3-7-sonnet-20250219'', ''CLAUDE_3_7_SONNET_20250219_V1_0'')]"

text \<open>
  \<open>MODEL_MAPPING\<close> is a plain object, so a lookup also finds the properties that every
  object inherits. All of these are truthy.
\<close>

definition objectPrototypeKeys :: "string list" where
  "objectPrototypeKeys =
     [''constructor'', ''__proto__'', ''hasOwnProperty'', ''isPrototypeOf'',
      ''propertyIsEnumerable'', ''toLocaleString'', ''toString'', ''valueOf'',
      ''__defineGetter__'', ''__defineSetter__'', ''__lookupGetter__'', ''__lookupSetter__'']"

definition lookupModel :: "string \<Rightarrow> model_value option" where
  "lookupModel key =
     (case map_of MODEL_MAPPING key of
        Some m \<Rightarrow> Some (ModelId m)
      | None \<Rightarrow> if key \<in> set objectPrototypeKeys then Some (InheritedProperty key) else None)"

text \<open>\<open>a || b\<close> on optional strings and on optional JSON values.\<close>

definition orElseStr :: "string option \<Rightarrow> string option \<Rightarrow> string option" where
  "orElseStr a b = (case a of None \<Rightarrow> b | Some s \<Rightarrow> if s = [] then b else Some s)"

definition orElseJson :: "json option \<Rightarrow> json option \<Rightarrow> json option" where
  "orElseJson a b = (case a of None \<Rightarrow> b | Some j \<Rightarrow> if truthy j then Some j else b)"

definition toolSpecification :: "tool_def \<Rightarrow> tool_spec" where
  "toolSpecification t =
     \<lparr> ts_name = orElseStr (td_name t) (td_fn_name t),
       ts_description =
         (case orElseStr (td_description t) (td_fn_description t) of
            None \<Rightarrow> [] | Some d \<Rightarrow> d),
       ts_inputSchema =
         (case orElseJson (td_input_schema t) (td_fn_parameters t) of
            None \<Rightarrow> JObj [] | Some j \<Rightarrow> j) \<rparr>"

text \<open>\<open>media_type.split('/')[1]\<close>.\<close>

definition mediaFormat :: "string \<Rightarrow> string option" where
  "mediaFormat mt =
     (if CHR ''/'' \<in> set mt
      then Some (takeWhile (\<lambda>c. c \<noteq> CHR ''/'') (tl (dropWhile (\<lambda>c. c \<noteq> CHR ''/'') mt)))
      else None)"

text \<open>What the loops over the parts of a message collect.\<close>

fun partsText :: "part list \<Rightarrow> string" where
  "partsText [] = []"
| "partsText (TextPart t # ps) = t @ partsText ps"
| "partsText (p # ps) = partsText ps"

fun partsToolResults :: "part list \<Rightarrow> tool_result list" where
  "partsToolResults [] = []"
| "partsToolResults (ToolResultPart i c # ps) =
     \<lparr> tr_text = safeGetTextContent c, tr_status = ''success'', tr_toolUseId = i \<rparr>
       # partsToolResults ps"
| "partsToolResults (p # ps) = partsToolResults ps"

fun partsImages :: "part list \<Rightarrow> image list" where
  "partsImages [] = []"
| "partsImages (ImagePart mt d # ps) =
     \<lparr> img_format = mediaFormat mt, img_bytes = d \<rparr> # partsImages ps"
| "partsImages (p # ps) = partsImages ps"

fun partsToolUses :: "part list \<Rightarrow> tool_use list" where
  "partsToolUses [] = []"
| "partsToolUses (ToolUsePart i nm inp # ps) =
     \<lparr> tu_input = inp, tu_name = nm, tu_toolUseId = i \<rparr> # partsToolUses ps"
| "partsToolUses (p # ps) = partsToolUses ps"

text \<open>Tool results are deduplicated by \<open>toolUseId\<close>; the first occurrence stays.\<close>

fun uniqueToolResults :: "string set \<Rightarrow> tool_result list \<Rightarrow> tool_result list" where
  "uniqueToolResults seenIds [] = []"
| "uniqueToolResults seenIds (tr # trs) =
     (if tr_toolUseId tr \<notin> seenIds
      then tr # uniqueToolResults (insert (tr_toolUseId tr) seenIds) trs
      else uniqueToolResults seenIds trs)"

text \<open>The history entries of a user turn and of an assistant turn.\<close>

definition userEntry :: "model_value option \<Rightarrow> message \<Rightarrow> user_input" where
  "userEntry modelId m =
     (case content m of
        CParts ps \<Rightarrow>
          \<lparr> ui_content = partsText ps, ui_modelId = modelId, ui_origin = ''AI_EDITOR'',
            ui_images = partsImages ps,
            ui_toolResults = uniqueToolResults {} (partsToolResults ps),
            ui_tools = [] \<rparr>
      | _ \<Rightarrow>
          \<lparr> ui_content = messageText m, ui_modelId = modelId, ui_origin = ''AI_EDITOR'',
            ui_images = [], ui_toolResults = [], ui_tools = [] \<rparr>)"

definition assistantEntry :: "message \<Rightarrow> assistant_response" where
  "assistantEntry m =
     (case content m of
        CParts ps \<Rightarrow> \<lparr> ar_content = partsText ps, ar_toolUses = partsToolUses ps \<rparr>
      | _ \<Rightarrow> \<lparr> ar_content = messageText m, ar_toolUses = [] \<rparr>)"

text \<open>The body of the history loop: a message that is neither of the two roles adds nothing.\<close>

definition historyEntry :: "model_value option \<Rightarrow> message \<Rightarrow> history_entry option" where
  "historyEntry modelId m =
     (if role m = ''user'' then Some (UserInputMessage (userEntry modelId m))
      else if role m = ''assistant'' then Some (AssistantResponseMessage (assistantEntry m))
      else None)"

text \<open>The merge of adjacent messages of the same role.\<close>

fun mergeContent :: "content \<Rightarrow> content \<Rightarrow> content" where
  "mergeContent (CParts a) (CParts b) = CParts (a @ b)"
| "mergeContent (CString a) (CString b) = CString (a @ [CHR 0x0A] @ b)"
| "mergeContent (CParts a) (CString b) = CParts (a @ [TextPart b])"
| "mergeContent (CString a) (CParts b) = CParts (TextPart a # b)"
| "mergeContent a b = a"

fun mergeMessages :: "message list \<Rightarrow> message list \<Rightarrow> message list" where
  "mergeMessages mergedMessages [] = mergedMessages"
| "mergeMessages mergedMessages (currentMsg # rest) =
     (if mergedMessages = [] then mergeMessages [currentMsg] rest
      else
        (let lastMsg = last mergedMessages in
         if role currentMsg = role lastMsg
         then mergeMessages
                (butlast mergedMessages
                   @ [lastMsg\<lparr>content := mergeContent (content lastMsg) (content currentMsg)\<rparr>])
                rest
         else mergeMessages (mergedMessages @ [currentMsg]) rest))"

text \<open>The trailing assistant turn whose first part is the text \<open>{\<close> is dropped.\<close>

definition isBraceStub :: "message \<Rightarrow> bool" where
  "isBraceStub m =
     (role m = ''assistant'' \<and>
      (case content m of CParts (TextPart t # ps) \<Rightarrow> t = ''{'' | _ \<Rightarrow> False))"

definition isAssistantEntry :: "history_entry \<Rightarrow> bool" where
  "isAssistantEntry h = (case h of AssistantResponseMessage a \<Rightarrow> True | _ \<Rightarrow> False)"

text \<open>
  The parts of \<open>buildCodewhispererRequest\<close>, in the order of the source. First the model
  id and the entry that carries the system prompt, with the index at which the history
  loop starts: the system prompt is put before the text of a first user message, or
  stands alone as a user entry.
\<close>

definition codewhispererModel :: "kiro_service \<Rightarrow> string \<Rightarrow> model_value option" where
  "codewhispererModel svc model =
     (case lookupModel model of
        Some m \<Rightarrow> Some m
      | None \<Rightarrow> lookupModel (modelName svc))"

definition plainUserInput :: "model_value option \<Rightarrow> string \<Rightarrow> user_input" where
  "plainUserInput modelId txt =
     \<lparr> ui_content = txt, ui_modelId = modelId, ui_origin = ''AI_EDITOR'', ui_images = [],
       ui_toolResults = [], ui_tools = [] \<rparr>"

definition systemHistory :: "model_value option \<Rightarrow> string \<Rightarrow> message \<Rightarrow> history_entry list \<times> nat" where
  "systemHistory modelId systemPrompt first =
     (if systemPrompt \<noteq> [] then
        (if role first = ''user''
         then ([UserInputMessage
                  (plainUserInput modelId
                     (systemPrompt @ [CHR 0x0A, CHR 0x0A] @ messageText first))], 1)
         else ([UserInputMessage (plainUserInput modelId systemPrompt)], 0))
      else ([], 0))"

text \<open>The history loop, over the messages from \<open>startIndex\<close> up to the last but one.\<close>

definition historyLoop ::
  "model_value option \<Rightarrow> history_entry list \<times> nat \<Rightarrow> message list \<Rightarrow> history_entry list" where
  "historyLoop modelId h0 processedMessages =
     fst h0 @ List.map_filter (historyEntry modelId) (butlast (drop (snd h0) processedMessages))"

text \<open>
  The last message: an assistant turn goes to the history; before any other turn a
  synthetic assistant entry is pushed when the history is not empty and does not end with
  an assistant entry.
\<close>

definition closeHistory :: "history_entry list \<Rightarrow> message \<Rightarrow> history_entry list" where
  "closeHistory h cur =
     (if role cur = ''assistant'' then h @ [AssistantResponseMessage (assistantEntry cur)]
      else if h \<noteq> [] \<and> \<not> isAssistantEntry (last h)
      then h @ [AssistantResponseMessage \<lparr> ar_content = ''Continue'', ar_toolUses = [] \<rparr>]
      else h)"

definition currentUserInput :: "model_value option \<Rightarrow> tool_spec list \<Rightarrow> message \<Rightarrow> user_input" where
  "currentUserInput modelId toolSpecs cur =
     (if role cur = ''assistant''
      then \<lparr> ui_content = ''Continue'', ui_modelId = modelId, ui_origin = ''AI_EDITOR'',
             ui_images = [], ui_toolResults = [], ui_tools = toolSpecs \<rparr>
      else
        (let (txt0, trs, imgs) =
               (case content cur of
                  CParts ps \<Rightarrow> (partsText ps, partsToolResults ps, partsImages ps)
                | _ \<Rightarrow> (messageText cur, [], []));
             currentContent =
               (if txt0 = []
                then (if trs \<noteq> [] then ''Tool results provided.'' else ''Continue'')
                else txt0)
         in \<lparr> ui_content = currentContent, ui_modelId = modelId, ui_origin = ''AI_EDITOR'',
              ui_images = imgs, ui_toolResults = uniqueToolResults {} trs,
              ui_tools = toolSpecs \<rparr>))"

text \<open>The messages after the stub is dropped and adjacent turns are merged.\<close>

definition processMessages :: "message list \<Rightarrow> message list" where
  "processMessages messages =
     mergeMessages [] (if isBraceStub (last messages) then butlast messages else messages)"

text \<open>
  \<open>buildCodewhispererRequest(messages, model, tools, inSystemPrompt)\<close>. \<open>Inl\<close> is the
  message of the error thrown: the \<open>Error\<close> for an empty list, and the \<open>TypeError\<close> of
  reading \<open>role\<close> of \<open>undefined\<close> when dropping the stub has left no message.
\<close>

definition buildCodewhispererRequest ::
  "js_lib \<Rightarrow> kiro_service \<Rightarrow> message list \<Rightarrow> string \<Rightarrow> tool_def list \<Rightarrow> content
     \<Rightarrow> string + kiro_request" where
  "buildCodewhispererRequest lib svc messages model tools inSystemPrompt =
     (let systemPrompt = safeGetTextContent inSystemPrompt in
      if messages = [] then Inl ''No user messages found''
      else
        (let processedMessages = processMessages messages;
             modelId = codewhispererModel svc model
         in case processedMessages of
              [] \<Rightarrow> Inl ''Cannot read properties of undefined (reading 'role')''
            | first # others \<Rightarrow>
                (let h = historyLoop modelId (systemHistory modelId systemPrompt first)
                           processedMessages;
                     cur = last processedMessages
                 in Inr \<lparr> conversationId = uuidv4 lib ConversationId,
                          chatTriggerType = ''MANUAL'',
                          history = closeHistory h cur,
                          currentMessage =
                            currentUserInput modelId (map toolSpecification tools) cur,
                          req_profileArn =
                            (if authMethod svc = Some ''social'' then profileArn svc
                             else None) \<rparr>)))"

text \<open>
  \<open>processedMessages\<close> is the array \<open>messages\<close> of the caller itself: \<open>pop\<close> removes the stub
  from it, the merge changes the merged messages in place, and
  \<open>processedMessages.length = 0\<close> followed by \<open>push(...mergedMessages)\<close> leaves the merged
  messages in it. So after the call, also when it throws later on, the caller's array
  holds the processed messages; the error for an empty array is thrown before any change.
\<close>

definition messagesAfterBuild :: "message list \<Rightarrow> message list" where
  "messagesAfterBuild messages = (if messages = [] then [] else processMessages messages)"

text \<open>
  History alternation: no two consecutive entries are of the same kind. The history of a
  result, with the empty history for an error.
\<close>

fun alternates :: "history_entry list \<Rightarrow> bool" where
  "alternates (a # b # hs) = (isAssistantEntry a \<noteq> isAssistantEntry b \<and> alternates (b # hs))"
| "alternates hs = True"

definition historyOf :: "string + kiro_request \<Rightarrow> history_entry list" where
  "historyOf r = (case r of Inl e \<Rightarrow> [] | Inr q \<Rightarrow> history q)"

definition kindOf :: "history_entry \<Rightarrow> string" where
  "kindOf h = (if isAssistantEntry h then ''assistantResponseMessage'' else ''userInputMessage'')"

subsection \<open>A conversation in the OpenAI shape, with a tool message\<close>

definition defaultService :: kiro_service where
  "defaultService = \<lparr> modelName = ''claude-opus-4-5'', authMethod = Some ''IdC'',
                       profileArn = None \<rparr>"

definition toolConversation :: "message list" where
  "toolConversation =
     [\<lparr> role = ''user'', content = CString ''What is the weather?'' \<rparr>,
      \<lparr> role = ''assistant'', content = CString ''Let me check.'' \<rparr>,
      \<lparr> role = ''tool'', content = CString ''sunny'' \<rparr>,
      \<lparr> role = ''assistant'', content = CString ''It is sunny.'' \<rparr>,
      \<lparr> role = ''user'', content = CString ''Thanks. And tomorrow?'' \<rparr>]"

definition plainConversation :: "message list" where
  "plainConversation =
     [\<lparr> role = ''user'', content = CString ''Hello'' \<rparr>,
      \<lparr> role = ''user'', content = CParts [TextPart ''again''] \<rparr>,
      \<lparr> role = ''assistant'', content = CString ''Hi'' \<rparr>,
      \<lparr> role = ''user'', content = CString ''How are you?'' \<rparr>]"

text \<open>A message list in the Anthropic shape: every role is \<open>user\<close> or \<open>assistant\<close>.\<close>

definition userOrAssistant :: "message \<Rightarrow> bool" where
  "userOrAssistant m = (role m = ''user'' \<or> role m = ''assistant'')"

definition isAssistantTurn :: "message \<Rightarrow> bool" where
  "isAssistantTurn m = (role m = ''assistant'')"

section \<open>Account pool dispatcher (proxy-server.ts)\<close>

subsection \<open>Calendar arithmetic of \<open>Date\<close>\<close>

text \<open>
  JavaScript's \<open>Date\<close>, by the abstract operations of the language specification. A time
  value is a number of milliseconds since 1970-01-01 00:00 UTC; a day has 86400000 of
  them. The calendar is the proleptic Gregorian one; months are counted from 0. Time
  values are taken to lie within the range of \<open>Date\<close>, where \<open>TimeClip\<close> changes nothing; the
  one place where the dispatcher meets a value from outside, the expiry of an account, is
  modelled with \<open>isTimeValue\<close> below.
\<close>

definition msPerDay :: int where
  "msPerDay = 86400000"

definition Day :: "int \<Rightarrow> int" where
  "Day t = t div msPerDay"

definition DaysInYear :: "int \<Rightarrow> int" where
  "DaysInYear y =
     (if y mod 4 \<noteq> 0 then 365 else if y mod 100 \<noteq> 0 then 366
      else if y mod 400 \<noteq> 0 then 365 else 366)"

definition DayFromYear :: "int \<Rightarrow> int" where
  "DayFromYear y = 365 * (y - 1970) + (y - 1969) div 4 - (y - 1901) div 100 + (y - 1601) div 400"

text \<open>
  \<open>YearFromTime(t)\<close> is the largest year that begins at or before \<open>t\<close>. Here it is computed
  from the mean length of a year, which gives the year itself or one of its neighbours.
\<close>

definition YearFromDay :: "int \<Rightarrow> int" where
  "YearFromDay d =
     (let y = 1970 + (400 * d) div 146097
      in if DayFromYear (y + 1) \<le> d then y + 1 else if DayFromYear y \<le> d then y else y - 1)"

definition YearFromTime :: "int \<Rightarrow> int" where
  "YearFromTime t = YearFromDay (Day t)"

definition InLeapYear :: "int \<Rightarrow> int" where
  "InLeapYear t = (if DaysInYear (YearFromTime t) = 366 then 1 else 0)"

definition DayWithinYear :: "int \<Rightarrow> int" where
  "DayWithinYear t = Day t - DayFromYear (YearFromTime t)"

text \<open>The month of a day within the year, and the first day of a month within the year.\<close>

definition monthOfYearDay :: "int \<Rightarrow> int \<Rightarrow> int" where
  "monthOfYearDay leap d =
     (if d < 31 then 0 else if d < 59 + leap then 1 else if d < 90 + leap then 2
      else if d < 120 + leap then 3 else if d < 151 + leap then 4
      else if d < 181 + leap then 5 else if d < 212 + leap then 6
      else if d < 243 + leap then 7 else if d < 273 + leap then 8
      else if d < 304 + leap then 9 else if d < 334 + leap then 10 else 11)"

definition monthStartDay :: "int \<Rightarrow> int \<Rightarrow> int" where
  "monthStartDay leap m =
     (if m = 0 then 0 else if m = 1 then 31 else if m = 2 then 59 + leap
      else if m = 3 then 90 + leap else if m = 4 then 120 + leap
      else if m = 5 then 151 + leap else if m = 6 then 181 + leap
      else if m = 7 then 212 + leap else if m = 8 then 243 + leap
      else if m = 9 then 273 + leap else if m = 10 then 304 + leap else 334 + leap)"

definition monthEndDay :: "int \<Rightarrow> int \<Rightarrow> int" where
  "monthEndDay leap m = (if m = 11 then 365 + leap else monthStartDay leap (m + 1))"

definition MonthFromTime :: "int \<Rightarrow> int" where
  "MonthFromTime t = monthOfYearDay (InLeapYear t) (DayWithinYear t)"

definition DateFromTime :: "int \<Rightarrow> int" where
  "DateFromTime t = DayWithinYear t - monthStartDay (InLeapYear t) (MonthFromTime t) + 1"

text \<open>
  \<open>MakeDay(year, month, date)\<close>: a month index outside 0 to 11 carries into the year.
  \<open>MakeDate(day, time)\<close>.
\<close>

definition MakeDay :: "int \<Rightarrow> int \<Rightarrow> int \<Rightarrow> int" where
  "MakeDay year month date =
     (let ym = year + month div 12;
          mn = month mod 12
      in DayFromYear ym + monthStartDay (if DaysInYear ym = 366 then 1 else 0) mn + date - 1)"

definition MakeDate :: "int \<Rightarrow> int \<Rightarrow> int" where
  "MakeDate day time = day * msPerDay + time"

text \<open>
  The time zone of the host, with its daylight saving rules: the offset of local time
  from UTC in milliseconds, as \<open>LocalTZA(t, true)\<close> for a UTC time value and as
  \<open>LocalTZA(t, false)\<close> for a local time value. \<open>LocalTime\<close> and \<open>UTC\<close> convert between the
  two.
\<close>

record zone =
  offsetAtUTC :: "int \<Rightarrow> int"
  offsetAtLocal :: "int \<Rightarrow> int"

definition LocalTime :: "zone \<Rightarrow> int \<Rightarrow> int" where
  "LocalTime z t = t + offsetAtUTC z t"

definition UTC :: "zone \<Rightarrow> int \<Rightarrow> int" where
  "UTC z t = t - offsetAtLocal z t"

definition getFullYear :: "zone \<Rightarrow> int \<Rightarrow> int" where
  "getFullYear z t = YearFromTime (LocalTime z t)"

definition getMonth :: "zone \<Rightarrow> int \<Rightarrow> int" where
  "getMonth z t = MonthFromTime (LocalTime z t)"

text \<open>
  \<open>new Date(year, monthIndex, day, 0, 0, 0, 0).getTime()\<close>: the fields are read as local
  time, and a year from 0 to 99 stands for 1900 plus that year.
\<close>

definition dateAtMidnight :: "zone \<Rightarrow> int \<Rightarrow> int \<Rightarrow> int \<Rightarrow> int" where
  "dateAtMidnight z year monthIndex day =
     (let yr = (if 0 \<le> year \<and> year \<le> 99 then 1900 + year else year)
      in UTC z (MakeDate (MakeDay yr monthIndex day) 0))"

definition getNextMonthStartMs :: "zone \<Rightarrow> int \<Rightarrow> int" where
  "getNextMonthStartMs z now = dateAtMidnight z (getFullYear z now) (getMonth z now + 1) 1"

text \<open>
  Whether a number is a time value: \<open>new Date(x).toISOString()\<close> throws a \<open>RangeError\<close> for
  a number beyond 8,640,000,000,000,000 milliseconds on either side of 1970.
\<close>

definition isTimeValue :: "int \<Rightarrow> bool" where
  "isTimeValue x = (\<bar>x\<bar> \<le> 8640000000000000)"

text \<open>
  Two zones: UTC, and New York in 2026, with daylight saving time from 8 March 07:00 UTC
  to 1 November 06:00 UTC; a local time that the clocks skip counts with the offset before
  the change, and one that they show twice with the earlier of the two.
\<close>

definition utcZone :: zone where
  "utcZone = \<lparr> offsetAtUTC = (\<lambda>t. 0), offsetAtLocal = (\<lambda>t. 0) \<rparr>"

definition newYork2026 :: zone where
  "newYork2026 =
     \<lparr> offsetAtUTC = (\<lambda>t. if 1772953200000 \<le> t \<and> t < 1793512800000
                            then - 14400000 else - 18000000),
       offsetAtLocal = (\<lambda>t. if 1772938800000 \<le> t \<and> t < 1793498400000
                              then - 14400000 else - 18000000) \<rparr>"

subsection \<open>Accounts, the store and the response\<close>

record credentials =
  accessToken :: string
  refreshToken :: "string option"
  expiresAt :: int
  cred_authMethod :: "string option"

record account =
  acc_id :: string
  email :: string
  creds :: credentials
  status :: "string option"
  lastError :: "string option"
  quotaExhaustedUntil :: "int option"

record refresh_result =
  rr_accessToken :: string
  rr_refreshToken :: "string option"
  rr_expiresIn :: "int option"

text \<open>The updates that the dispatcher sends to the account store.\<close>

record credentials_update =
  cu_accessToken :: string
  cu_refreshToken :: "string option"
  cu_expiresAt :: int

record status_update =
  su_status :: string
  su_quotaExhaustedUntil :: "int option"
  su_lastError :: string

datatype store_update =
    UpdateAccountCredentials string credentials_update
  | UpdateAccountStatus string status_update

text \<open>
  The chunks of an OpenAI stream: the \<open>delta\<close> of the one choice in the shapes that the
  proxy builds, the finish reason and the usage.
\<close>

datatype openai_delta =
    DeltaRole
  | DeltaRoleContent string
  | DeltaContent string
  | DeltaToolCall nat string string
  | DeltaToolArguments nat string
  | DeltaEmpty

record openai_usage =
  prompt_tokens :: nat
  completion_tokens :: nat
  total_tokens :: nat
  cached_tokens :: nat

record openai_chunk =
  oc_id :: string
  oc_created :: int
  oc_model :: string
  oc_delta :: openai_delta
  oc_finish_reason :: "string option"
  oc_usage :: "openai_usage option"

text \<open>A reading of the clock: \<open>Date.now()\<close> and its decimal text.\<close>

record js_clock =
  now_ms :: int
  now_text :: string

definition buildOpenAIStreamChunk ::
  "string \<Rightarrow> string \<Rightarrow> int \<Rightarrow> openai_delta \<Rightarrow> string option \<Rightarrow> openai_usage option
     \<Rightarrow> openai_chunk" where
  "buildOpenAIStreamChunk chunkId model created delta finishReason usage =
     \<lparr> oc_id = chunkId, oc_created = created, oc_model = model, oc_delta = delta,
       oc_finish_reason = finishReason, oc_usage = usage \<rparr>"

text \<open>
  \<open>convertClaudeStreamChunkToOpenAIChunks(claudeChunk, model, openaiId, created)\<close>, on the
  chunks that \<open>generateContentStream\<close> yields. \<open>clock\<close> is the clock at the call, read when
  an id or \<open>created\<close> is missing.
\<close>

definition finishReasonOf :: "string \<Rightarrow> string" where
  "finishReasonOf stop_reason =
     (if stop_reason = ''end_turn'' then ''stop''
      else if stop_reason = ''max_tokens'' then ''length''
      else if stop_reason = ''tool_use'' then ''tool_calls''
      else if stop_reason = [] then ''stop'' else stop_reason)"

definition convertClaudeStreamChunkToOpenAIChunks ::
  "js_clock \<Rightarrow> sse \<Rightarrow> string \<Rightarrow> string \<Rightarrow> int \<Rightarrow> openai_chunk list" where
  "convertClaudeStreamChunkToOpenAIChunks clock claudeChunk model openaiId created =
     (let chunkId = (if openaiId = [] then ''chatcmpl_'' @ now_text clock else openaiId);
          timestamp = (if created = 0 then now_ms clock div 1000 else created);
          buildChunk = buildOpenAIStreamChunk chunkId model timestamp
      in case claudeChunk of
           MessageStart mid m input_tokens \<Rightarrow>
             [buildChunk (DeltaRoleContent []) None
                (Some \<lparr> prompt_tokens = input_tokens, completion_tokens = 0,
                         total_tokens = input_tokens, cached_tokens = 0 \<rparr>)]
         | ContentBlockStartText i \<Rightarrow> [buildChunk (DeltaContent []) None None]
         | ContentBlockStartToolUse i blockId blockName \<Rightarrow>
             [buildChunk
                (DeltaToolCall i
                   (if startsWith ''call_'' blockId then blockId
                    else ''call_'' @ (if blockId = [] then blockName @ ''_'' @ now_text clock
                                      else blockId))
                   blockName)
                None None]
         | ContentBlockDeltaText i t \<Rightarrow> [buildChunk (DeltaContent t) None None]
         | ContentBlockDeltaJson i partial_json \<Rightarrow>
             [buildChunk (DeltaToolArguments i partial_json) None None]
         | ContentBlockStop i \<Rightarrow> [buildChunk DeltaEmpty None None]
         | MessageDelta stop_reason output_tokens \<Rightarrow>
             [buildChunk DeltaEmpty (Some (finishReasonOf stop_reason))
                (Some \<lparr> prompt_tokens = 0, completion_tokens = output_tokens,
                         total_tokens = output_tokens, cached_tokens = 0 \<rparr>)]
         | MessageStop \<Rightarrow> [buildChunk DeltaEmpty (Some ''stop'') None])"

text \<open>What is written to the response, and the state of the response.\<close>

datatype written =
    JsonBody string
  | WarningEvent string
  | ClaudeEvent sse
  | OpenAIChunk openai_chunk
  | DoneLine

record response =
  headersSent :: bool
  statusCode :: "nat option"
  writes :: "written list"
  writableEnded :: bool

definition freshResponse :: response where
  "freshResponse = \<lparr> headersSent = False, statusCode = None, writes = [], writableEnded = False \<rparr>"

definition sendJson :: "response \<Rightarrow> nat \<Rightarrow> string \<Rightarrow> response" where
  "sendJson res code payload =
     res\<lparr> headersSent := True, statusCode := Some code,
          writes := writes res @ [JsonBody payload], writableEnded := True \<rparr>"

definition endResponse :: "response \<Rightarrow> response" where
  "endResponse res = res\<lparr> writableEnded := True \<rparr>"

text \<open>
  The request body of a chat request as it is passed to the adapter (for the Claude
  endpoint, after \<open>sanitizeClaudeCodeTools\<close>), as far as the dispatcher and the adapter
  read it.
\<close>

record chat_body =
  b_model :: "string option"
  b_messages :: "message list"
  b_tools :: "tool_def list"
  b_system :: content
  b_stream :: bool

text \<open>
  The world of one chat request. The times are the values of \<open>Date.now()\<close> where the
  handler reads the clock: before the selection of the eligible accounts, and at three
  places of attempt \<open>k\<close>, the expiry check, the computation of the new expiry after a
  refresh, and the \<open>catch\<close> block. \<open>streamClock k\<close> is the clock when attempt \<open>k\<close> begins an
  OpenAI stream, and \<open>convertClock k j\<close> the clock when its chunk \<open>j\<close> is converted.
  \<open>d_zone\<close> is the time zone of the host. \<open>refreshAccountToken\<close> is the injected
  refresher. \<open>unaryEnv\<close> and \<open>streamEnv\<close> are the upstream as the service created for an
  account meets it; the data of a unary reply stands for the response after
  \<open>_processApiResponse\<close> and \<open>buildClaudeResponse\<close>.
\<close>

record dispatch_env =
  d_lib :: js_lib
  d_zone :: zone
  cooldownMs :: int
  refreshBeforeExpiryMs :: int
  has_updateAccountStatus :: bool
  refreshAccountToken :: "account \<Rightarrow> js_error + refresh_result"
  unaryEnv :: "account \<Rightarrow> string adapter_env"
  streamEnv :: "account \<Rightarrow> stream_env"
  inputTokens :: nat
  contextWarning :: "string option"
  isClaude :: bool
  timeStart :: int
  timeCheck :: "nat \<Rightarrow> int"
  timeRefreshed :: "nat \<Rightarrow> int"
  timeCatch :: "nat \<Rightarrow> int"
  streamClock :: "nat \<Rightarrow> js_clock"
  convertClock :: "nat \<Rightarrow> nat \<Rightarrow> js_clock"

text \<open>
  The state that the handler of one request reads and writes. \<open>bodyMessages\<close> is the array
  \<open>requestBody.messages\<close>, which every call of \<open>buildCodewhispererRequest\<close> rewrites in place
  and which all attempts share.
\<close>

record dispatch_state =
  eligible :: "account list"
  rrIndex :: nat
  disabledUntil :: "string \<rightharpoonup> int"
  res :: response
  streamWritten :: bool
  lastErrorText :: "string option"
  storeLog :: "store_update list"
  attempted :: "string list"
  chosen :: nat
  bodyMessages :: "message list"

subsection \<open>Selection of the eligible accounts\<close>

definition hasRefreshToken :: "account \<Rightarrow> bool" where
  "hasRefreshToken a = (case refreshToken (creds a) of None \<Rightarrow> False | Some t \<Rightarrow> t \<noteq> [])"

text \<open>
  The loop that fills \<open>eligible\<close>: an account in cooldown is skipped, an expired cooldown
  is deleted, and an account whose quota window is over becomes active again.
\<close>

fun selectEligible ::
  "dispatch_env \<Rightarrow> account list \<Rightarrow> (string \<rightharpoonup> int)
     \<Rightarrow> account list \<times> (string \<rightharpoonup> int) \<times> store_update list" where
  "selectEligible env [] m = ([], m, [])"
| "selectEligible env (a # as) m =
     (let now = timeStart env; disabled = m (acc_id a) in
      if (case disabled of None \<Rightarrow> False | Some d \<Rightarrow> d \<noteq> 0 \<and> d > now)
      then selectEligible env as m
      else
        (let m1 = (case disabled of
                     None \<Rightarrow> m
                   | Some d \<Rightarrow> if d \<noteq> 0 \<and> d \<le> now then m(acc_id a := None) else m)
         in case (if status a = Some ''quota_exhausted'' then quotaExhaustedUntil a else None) of
              None \<Rightarrow>
                (let (es, m2, ups) = selectEligible env as m1 in (a # es, m2, ups))
            | Some q \<Rightarrow>
                if q = 0 then
                  (let (es, m2, ups) = selectEligible env as m1 in (a # es, m2, ups))
                else if q > now then selectEligible env as m1
                else
                  (let a1 = a\<lparr> status := Some ''active'', quotaExhaustedUntil := None \<rparr>;
                       up = (if has_updateAccountStatus env
                             then [UpdateAccountStatus (acc_id a)
                                     \<lparr> su_status = ''active'', su_quotaExhaustedUntil = None,
                                       su_lastError = [] \<rparr>]
                             else []);
                       (es, m2, ups) = selectEligible env as m1
                   in (a1 # es, m2, up @ ups))))"

subsection \<open>One attempt\<close>

definition isTokenNearExpiry :: "int \<Rightarrow> int \<Rightarrow> int \<Rightarrow> bool" where
  "isTokenNearExpiry now expAt rbe = (expAt \<noteq> 0 \<and> now + rbe \<ge> expAt)"

text \<open>
  The refresh at the head of the \<open>try\<close> block: the account after \<open>Object.assign\<close> and the
  update sent to the store, or the error thrown. The callbacks that write to the store
  (\<open>updateAccountCredentials\<close>, \<open>updateAccountStatus\<close>) are taken not to throw.
\<close>

definition ensureFresh ::
  "dispatch_env \<Rightarrow> nat \<Rightarrow> account \<Rightarrow> js_error + (account \<times> store_update list)" where
  "ensureFresh env k a =
     (let c = creds a in
      if accessToken c = []
         \<or> isTokenNearExpiry (timeCheck env k) (expiresAt c) (refreshBeforeExpiryMs env)
      then
        (case refreshAccountToken env a of
           Inl e \<Rightarrow> Inl e
         | Inr refreshed \<Rightarrow>
             if rr_accessToken refreshed = []
             then Inl (JsError ''Refresh returned no access token'' None)
             else
               (let updated =
                      \<lparr> cu_accessToken = rr_accessToken refreshed,
                        cu_refreshToken =
                          (case rr_refreshToken refreshed of
                             Some t \<Rightarrow> Some t
                           | None \<Rightarrow> refreshToken c),
                        cu_expiresAt =
                          timeRefreshed env k
                            + (case rr_expiresIn refreshed of Some x \<Rightarrow> x | None \<Rightarrow> 3600) * 1000 \<rparr>
                in Inr (a\<lparr> creds := c\<lparr> accessToken := cu_accessToken updated,
                                        refreshToken := cu_refreshToken updated,
                                        expiresAt := cu_expiresAt updated \<rparr> \<rparr>,
                        [UpdateAccountCredentials (acc_id a) updated])))
      else Inr (a, []))"

text \<open>The service that the dispatcher creates for an account, and the model names.\<close>

definition serviceFor :: "account \<Rightarrow> kiro_service" where
  "serviceFor a =
     \<lparr> modelName = ''claude-opus-4-5'', authMethod = cred_authMethod (creds a),
       profileArn = None \<rparr>"

definition requestedModel :: "chat_body \<Rightarrow> string" where
  "requestedModel body =
     (case b_model body of None \<Rightarrow> ''claude-opus-4-5''
      | Some m \<Rightarrow> if m = [] then ''claude-opus-4-5'' else m)"

definition finalModel :: "string \<Rightarrow> string" where
  "finalModel model = (case lookupModel model of None \<Rightarrow> ''claude-opus-4-5'' | Some m \<Rightarrow> model)"

text \<open>
  The call of \<open>buildCodewhispererRequest\<close> by the service of an account, on the array
  \<open>requestBody.messages\<close> as it stands: the result and the array afterwards.
\<close>

definition buildRequest ::
  "dispatch_env \<Rightarrow> chat_body \<Rightarrow> account \<Rightarrow> message list
     \<Rightarrow> (string + kiro_request) \<times> message list" where
  "buildRequest env body a ms =
     (buildCodewhispererRequest (d_lib env) (serviceFor a) ms
        (finalModel (requestedModel body)) (b_tools body) (b_system body),
      messagesAfterBuild ms)"

text \<open>
  \<open>generateContentStream\<close> over the outcome of \<open>streamApiReal\<close>: when that generator throws,
  the chunks of the events yielded so far have been yielded and the error passes through.
\<close>

definition generateContentStreamOf ::
  "js_lib \<Rightarrow> string \<Rightarrow> nat \<Rightarrow> stream_event list \<times> action list \<times> js_error option \<times> 'm
     \<Rightarrow> sse list \<times> js_error option" where
  "generateContentStreamOf lib model n r =
     (case r of
        (events, acts, None, ms) \<Rightarrow> generateContentStream lib model n events
      | (events, acts, Some e, ms) \<Rightarrow> (snd (eventLoop lib model n events gcs_init), Some e))"

text \<open>
  The two calls of the adapter by the dispatcher, on the array \<open>ms\<close>: the chunks and the
  error of the stream, or the outcome of the unary call, and the array afterwards.
\<close>

definition streamOutcome ::
  "dispatch_env \<Rightarrow> chat_body \<Rightarrow> account \<Rightarrow> message list
     \<Rightarrow> (sse list \<times> js_error option) \<times> message list" where
  "streamOutcome env body a ms =
     (let r = streamApiReal (streamEnv env a) (buildRequest env body a) ms 0 False 0
      in (generateContentStreamOf (d_lib env) (requestedModel body) (inputTokens env) r,
          snd (snd (snd r))))"

definition unaryOutcome ::
  "dispatch_env \<Rightarrow> chat_body \<Rightarrow> account \<Rightarrow> message list
     \<Rightarrow> (js_error + string) \<times> message list" where
  "unaryOutcome env body a ms =
     snd (callApi (unaryEnv env a) (buildRequest env body a) ms 0 False 0)"

text \<open>
  Writing the chunks of a stream. Before the first chunk the head goes out, with status
  200, and the context warning, if there is one: as an event of its own on the Claude
  endpoint, as a role chunk and a content chunk on the OpenAI endpoint.
\<close>

definition claudeWarning :: "dispatch_env \<Rightarrow> written list" where
  "claudeWarning env =
     (case contextWarning env of
        None \<Rightarrow> []
      | Some w \<Rightarrow> if w = [] then [] else [WarningEvent w])"

definition warningText :: "dispatch_env \<Rightarrow> string" where
  "warningText env =
     (case contextWarning env of
        None \<Rightarrow> []
      | Some w \<Rightarrow> if w = [] then [] else ''[Warning] '' @ w)"

definition openaiWarning :: "dispatch_env \<Rightarrow> string \<Rightarrow> string \<Rightarrow> int \<Rightarrow> written list" where
  "openaiWarning env model openaiId created =
     (if warningText env = [] then []
      else [OpenAIChunk (buildOpenAIStreamChunk openaiId model created DeltaRole None None),
            OpenAIChunk (buildOpenAIStreamChunk openaiId model created
                           (DeltaContent (warningText env)) None None)])"

definition beginStream :: "written list \<Rightarrow> dispatch_state \<Rightarrow> dispatch_state" where
  "beginStream warning st =
     (if streamWritten st then st
      else st\<lparr> res := (res st)\<lparr> headersSent := True, statusCode := Some 200,
                                 writes := writes (res st) @ warning \<rparr>,
               streamWritten := True \<rparr>)"

definition writeOut :: "written list \<Rightarrow> dispatch_state \<Rightarrow> dispatch_state" where
  "writeOut ws st = st\<lparr> res := (res st)\<lparr> writes := writes (res st) @ ws \<rparr> \<rparr>"

fun writeClaudeChunks :: "dispatch_env \<Rightarrow> sse list \<Rightarrow> dispatch_state \<Rightarrow> dispatch_state" where
  "writeClaudeChunks env [] st = st"
| "writeClaudeChunks env (c # cs) st =
     writeClaudeChunks env cs (writeOut [ClaudeEvent c] (beginStream (claudeWarning env) st))"

text \<open>
  The loop of the OpenAI endpoint: chunk \<open>j\<close> of attempt \<open>k\<close>. The id of the chunks becomes
  the id of the message when \<open>message_start\<close> arrives with one.
\<close>

fun writeOpenAIChunks ::
  "dispatch_env \<Rightarrow> string \<Rightarrow> int \<Rightarrow> nat \<Rightarrow> nat \<Rightarrow> string \<Rightarrow> sse list \<Rightarrow> dispatch_state
     \<Rightarrow> dispatch_state" where
  "writeOpenAIChunks env model created k j openaiId [] st = st"
| "writeOpenAIChunks env model created k j openaiId (c # cs) st =
     (let st1 = beginStream (openaiWarning env model openaiId created) st;
          openaiId1 = (case c of
                         MessageStart mid m n \<Rightarrow>
                           if mid \<noteq> [] then mid else openaiId
                       | _ \<Rightarrow> openaiId);
          openaiChunks = convertClaudeStreamChunkToOpenAIChunks (convertClock env k j) c model
                           openaiId1 created
      in writeOpenAIChunks env model created k (Suc j) openaiId1 cs
           (writeOut (map OpenAIChunk openaiChunks) st1))"

definition writeChunks ::
  "dispatch_env \<Rightarrow> chat_body \<Rightarrow> nat \<Rightarrow> sse list \<Rightarrow> dispatch_state \<Rightarrow> dispatch_state" where
  "writeChunks env body k chunks st =
     (if isClaude env then writeClaudeChunks env chunks st
      else writeOpenAIChunks env (requestedModel body) (now_ms (streamClock env k) div 1000) k 0
             (''chatcmpl_'' @ now_text (streamClock env k)) chunks st)"

definition finishStream :: "dispatch_env \<Rightarrow> dispatch_state \<Rightarrow> dispatch_state" where
  "finishStream env st =
     (if streamWritten st
      then st\<lparr> res := endResponse
                 ((res st)\<lparr> writes := writes (res st) @ (if isClaude env then [] else [DoneLine]) \<rparr>) \<rparr>
      else st)"

text \<open>
  The texts that a client finds in what was written: the texts of the text deltas of an
  Anthropic stream, and the \<open>content\<close> of the deltas of an OpenAI stream.
\<close>

definition claudeTextOf :: "written \<Rightarrow> string list" where
  "claudeTextOf w = (case w of ClaudeEvent (ContentBlockDeltaText i t) \<Rightarrow> [t] | _ \<Rightarrow> [])"

definition claudeTextDeltas :: "written list \<Rightarrow> string list" where
  "claudeTextDeltas ws = concat (map claudeTextOf ws)"

definition openaiContentOf :: "written \<Rightarrow> string list" where
  "openaiContentOf w =
     (case w of
        OpenAIChunk c \<Rightarrow>
          (case oc_delta c of
             DeltaContent t \<Rightarrow> [t]
           | DeltaRoleContent t \<Rightarrow> [t]
           | _ \<Rightarrow> [])
      | _ \<Rightarrow> [])"

definition openaiContents :: "written list \<Rightarrow> string list" where
  "openaiContents ws = concat (map openaiContentOf ws)"

text \<open>
  The \<open>try\<close> block of attempt \<open>k\<close>: the state when the block is left, and the error when it
  is left by a throw. Without an error the handler returns. After the refresh the
  configuration of the service is built, with \<open>new Date(creds.expiresAt).toISOString()\<close>,
  which throws a \<open>RangeError\<close> when the expiry is not a time value.
\<close>

definition tryAttempt :: "dispatch_env \<Rightarrow> chat_body \<Rightarrow> nat \<Rightarrow> dispatch_state
     \<Rightarrow> dispatch_state \<times> js_error option" where
  "tryAttempt env body k st =
     (let i = rrIndex st mod length (eligible st);
          a = eligible st ! i;
          st1 = st\<lparr> rrIndex := (rrIndex st + 1) mod length (eligible st),
                    attempted := attempted st @ [acc_id a], chosen := i \<rparr>
      in case ensureFresh env k a of
           Inl e \<Rightarrow> (st1, Some e)
         | Inr (a1, ups) \<Rightarrow>
             (let st2 = st1\<lparr> eligible := (eligible st1)[i := a1],
                             storeLog := storeLog st1 @ ups \<rparr>
              in if \<not> isTimeValue (expiresAt (creds a1))
                 then (st2, Some (JsError ''Invalid time value'' None))
                 else if b_stream body then
                   (case streamOutcome env body a1 (bodyMessages st2) of
                      ((chunks, None), ms) \<Rightarrow>
                        (finishStream env (writeChunks env body k chunks (st2\<lparr> bodyMessages := ms \<rparr>)),
                         None)
                    | ((chunks, Some e), ms) \<Rightarrow>
                        (writeChunks env body k chunks (st2\<lparr> bodyMessages := ms \<rparr>), Some e))
                 else
                   (case unaryOutcome env body a1 (bodyMessages st2) of
                      (Inr payload, ms) \<Rightarrow>
                        (st2\<lparr> bodyMessages := ms, res := sendJson (res st2) 200 payload \<rparr>, None)
                    | (Inl e, ms) \<Rightarrow> (st2\<lparr> bodyMessages := ms \<rparr>, Some e))))"

text \<open>The \<open>catch\<close> block. The flag says whether the handler returns.\<close>

definition errorText :: "js_error \<Rightarrow> string" where
  "errorText e = (if message e = [] then ''Error'' else message e)"

definition closeIfStarted :: "dispatch_state \<Rightarrow> dispatch_state" where
  "closeIfStarted st =
     (if \<not> writableEnded (res st) then st\<lparr> res := endResponse (res st) \<rparr> else st)"

definition responseStarted :: "dispatch_state \<Rightarrow> bool" where
  "responseStarted st = (streamWritten st \<or> headersSent (res st))"

definition markQuotaExhausted :: "dispatch_env \<Rightarrow> nat \<Rightarrow> dispatch_state \<Rightarrow> dispatch_state" where
  "markQuotaExhausted env k st =
     (let i = chosen st;
          a = eligible st ! i;
          resetAt = getNextMonthStartMs (d_zone env) (timeCatch env k)
      in st\<lparr> disabledUntil := (disabledUntil st)(acc_id a \<mapsto> resetAt),
              eligible := (eligible st)
                 [i := a\<lparr> status := Some ''quota_exhausted'', quotaExhaustedUntil := Some resetAt \<rparr>],
              storeLog := storeLog st
                 @ (if has_updateAccountStatus env
                    then [UpdateAccountStatus (acc_id a)
                            \<lparr> su_status = ''quota_exhausted'',
                              su_quotaExhaustedUntil = Some resetAt,
                              su_lastError = (case lastErrorText st of None \<Rightarrow> [] | Some t \<Rightarrow> t) \<rparr>]
                    else []) \<rparr>)"

definition setCooldown :: "dispatch_env \<Rightarrow> nat \<Rightarrow> dispatch_state \<Rightarrow> dispatch_state" where
  "setCooldown env k st =
     st\<lparr> disabledUntil :=
           (disabledUntil st)(acc_id (eligible st ! chosen st) \<mapsto> timeCatch env k + cooldownMs env) \<rparr>"

definition handleFailure :: "dispatch_env \<Rightarrow> nat \<Rightarrow> js_error \<Rightarrow> dispatch_state
     \<Rightarrow> dispatch_state \<times> bool" where
  "handleFailure env k e st0 =
     (let st = st0\<lparr> lastErrorText := Some (errorText e) \<rparr> in
      case response_status e of
        None \<Rightarrow>
          if responseStarted st then (closeIfStarted st, True)
          else (st\<lparr> res := sendJson (res st) 502 (errorText e) \<rparr>, True)
      | Some c \<Rightarrow>
          if c = 400 then
            (if responseStarted st then (closeIfStarted st, True)
             else (st\<lparr> res := sendJson (res st) 400 (errorText e) \<rparr>, True))
          else
            (let st1 = (if c = 402 then markQuotaExhausted env k st else setCooldown env k st)
             in if responseStarted st1 then (closeIfStarted st1, True) else (st1, False)))"

definition attempt :: "dispatch_env \<Rightarrow> chat_body \<Rightarrow> nat \<Rightarrow> dispatch_state \<Rightarrow> dispatch_state \<times> bool" where
  "attempt env body k st =
     (case tryAttempt env body k st of
        (st1, None) \<Rightarrow> (st1, True)
      | (st1, Some e) \<Rightarrow> handleFailure env k e st1)"

subsection \<open>The loop over the eligible accounts and the whole handler\<close>

text \<open>
  \<open>for (let attempt = 0; attempt < eligible.length; attempt++)\<close>: \<open>n\<close> attempts are left and
  \<open>k\<close> attempts are done. The flag says whether the handler returned inside the loop.
\<close>

fun attemptLoop :: "dispatch_env \<Rightarrow> chat_body \<Rightarrow> nat \<Rightarrow> nat \<Rightarrow> dispatch_state
     \<Rightarrow> dispatch_state \<times> bool" where
  "attemptLoop env body 0 k st = (st, False)"
| "attemptLoop env body (Suc n) k st =
     (case attempt env body k st of
        (st1, True) \<Rightarrow> (st1, True)
      | (st1, False) \<Rightarrow> attemptLoop env body n (Suc k) st1)"

text \<open>
  The handler of a chat request from the read of the account data on: the response, the
  cooldown map and the cursor afterwards, the updates sent to the store and the accounts
  tried, in order.
\<close>

definition initialState :: "chat_body \<Rightarrow> nat \<Rightarrow> (string \<rightharpoonup> int) \<Rightarrow> dispatch_state" where
  "initialState body rr m =
     \<lparr> eligible = [], rrIndex = rr, disabledUntil = m, res = freshResponse,
       streamWritten = False, lastErrorText = None, storeLog = [], attempted = [],
       chosen = 0, bodyMessages = b_messages body \<rparr>"

definition dispatch :: "dispatch_env \<Rightarrow> chat_body \<Rightarrow> account list \<Rightarrow> nat \<Rightarrow> (string \<rightharpoonup> int)
     \<Rightarrow> dispatch_state" where
  "dispatch env body allAccounts rr m =
     (let st0 = initialState body rr m;
          accounts = filter hasRefreshToken allAccounts
      in if accounts = [] then st0\<lparr> res := sendJson (res st0) 503 ''No accounts available'' \<rparr>
         else
           (let (es, m1, ups) = selectEligible env accounts m;
                st1 = st0\<lparr> eligible := es, disabledUntil := m1, storeLog := ups \<rparr>
            in if es = []
               then st1\<lparr> res := sendJson (res st1) 503 ''No healthy accounts available'' \<rparr>
               else
                 (let (st2, returned) = attemptLoop env body (length es) 0 st1
                  in if \<not> returned \<and> \<not> headersSent (res st2)
                     then st2\<lparr> res := sendJson (res st2) 502
                                  (case lastErrorText st2 of
                                     None \<Rightarrow> ''Upstream failure''
                                   | Some t \<Rightarrow> if t = [] then ''Upstream failure'' else t) \<rparr>
                     else st2)))"

text \<open>The account that an attempt starting in state \<open>st\<close> takes: \<open>eligible[rrIndex % eligible.length]\<close>.\<close>

definition chosenIndex :: "dispatch_state \<Rightarrow> nat" where
  "chosenIndex st = rrIndex st mod length (eligible st)"

definition chosenAccount :: "dispatch_state \<Rightarrow> account" where
  "chosenAccount st = eligible st ! chosenIndex st"

subsection \<open>Streams of two text frames\<close>

text \<open>
  The two frames arrive in one read each; and the same bytes arrive with the second frame
  split after its first 15 characters, the first part in the read of the first frame.
\<close>

definition wholeFrames :: "string list" where
  "wholeFrames = [contentFrame ''Hello '', contentFrame ''world'']"

definition splitFrames :: "string list" where
  "splitFrames = [contentFrame ''Hello '' @ take 15 (contentFrame ''world''),
                  drop 15 (contentFrame ''world'')]"

definition helloStream :: stream_env where
  "helloStream =
     \<lparr> s_upstream = (\<lambda>n. \<lparr> reads = parseReads testLib [] wholeFrames, failure = None \<rparr>),
       s_refresh = (\<lambda>n. None), REQUEST_MAX_RETRIES = None, REQUEST_BASE_DELAY = None \<rparr>"

subsection \<open>A pool of two accounts\<close>

definition acctA :: account where
  "acctA = \<lparr> acc_id = ''a'', email = ''a@example.com'',
       creds = \<lparr> accessToken = ''token-a'', refreshToken = Some ''refresh-a'',
                 expiresAt = 1767200000000, cred_authMethod = Some ''IdC'' \<rparr>,
       status = Some ''active'', lastError = None, quotaExhaustedUntil = None \<rparr>"

definition acctB :: account where
  "acctB = \<lparr> acc_id = ''b'', email = ''b@example.com'',
       creds = \<lparr> accessToken = ''token-b'', refreshToken = Some ''refresh-b'',
                 expiresAt = 1767200000000, cred_authMethod = Some ''IdC'' \<rparr>,
       status = Some ''active'', lastError = None, quotaExhaustedUntil = None \<rparr>"

text \<open>An account whose access token has to be refreshed first.\<close>

definition acctStale :: account where
  "acctStale = acctA\<lparr> creds := (creds acctA)\<lparr> accessToken := [] \<rparr> \<rparr>"

text \<open>
  A request at 2025-12-31 00:00:00 UTC, in the zone UTC, with a cooldown of one minute;
  the refresher returns a new access token and no refresh token.
\<close>

definition poolClock :: js_clock where
  "poolClock = \<lparr> now_ms = 1767139200200, now_text = ''1767139200200'' \<rparr>"

definition poolEnv :: "(account \<Rightarrow> string adapter_env) \<Rightarrow> (account \<Rightarrow> stream_env) \<Rightarrow> dispatch_env" where
  "poolEnv ue se =
     \<lparr> d_lib = testLib, d_zone = utcZone, cooldownMs = 60000, refreshBeforeExpiryMs = 300000,
       has_updateAccountStatus = True,
       refreshAccountToken =
         (\<lambda>a. Inr \<lparr> rr_accessToken = ''token-new'', rr_refreshToken = None,
                     rr_expiresIn = None \<rparr>),
       unaryEnv = ue, streamEnv = se, inputTokens = 7, contextWarning = None,
       isClaude = True, timeStart = 1767139200000,
       timeCheck = (\<lambda>k. 1767139200000), timeRefreshed = (\<lambda>k. 1767139200500),
       timeCatch = (\<lambda>k. 1767139201000),
       streamClock = (\<lambda>k. poolClock), convertClock = (\<lambda>k j. poolClock) \<rparr>"

text \<open>
  The same pool behind the OpenAI endpoint, for a request whose estimated size brings the
  context warning; and with a refresher that returns the empty string as refresh token.
\<close>

definition openaiEnv :: "(account \<Rightarrow> string adapter_env) \<Rightarrow> (account \<Rightarrow> stream_env) \<Rightarrow> dispatch_env" where
  "openaiEnv ue se =
     (poolEnv ue se)\<lparr> isClaude := False,
                       contextWarning := Some ''Context is near the limit. Consider compacting or starting a new chat soon.'' \<rparr>"

definition emptyTokenEnv :: "(account \<Rightarrow> string adapter_env) \<Rightarrow> (account \<Rightarrow> stream_env) \<Rightarrow> dispatch_env" where
  "emptyTokenEnv ue se =
     (poolEnv ue se)\<lparr> refreshAccountToken :=
         (\<lambda>a. Inr \<lparr> rr_accessToken = ''token-new'', rr_refreshToken = Some [],
                     rr_expiresIn = None \<rparr>) \<rparr>"

text \<open>Upstreams: account \<open>a\<close> is out of quota and \<open>b\<close> answers; a stream that breaks after
  its first content event, with a network error and with a status 500.\<close>

definition quotaUpstream :: "account \<Rightarrow> string adapter_env" where
  "quotaUpstream a =
     (if acc_id a = ''a'' then always_status 402
      else \<lparr> upstream = (\<lambda>n. Ok ''message''), refresh = (\<lambda>n. None) \<rparr>)"

definition brokenStream :: "nat option \<Rightarrow> account \<Rightarrow> stream_env" where
  "brokenStream st a =
     \<lparr> s_upstream = (\<lambda>n. \<lparr> reads = [[PContent ''Hi'']],
                            failure = Some (JsError ''socket hang up'' st) \<rparr>),
       s_refresh = (\<lambda>n. None), REQUEST_MAX_RETRIES = None, REQUEST_BASE_DELAY = None \<rparr>"

definition quietStream :: "account \<Rightarrow> stream_env" where
  "quietStream a =
     \<lparr> s_upstream = (\<lambda>n. \<lparr> reads = [], failure = None \<rparr>),
       s_refresh = (\<lambda>n. None), REQUEST_MAX_RETRIES = None, REQUEST_BASE_DELAY = None \<rparr>"

definition helloBody :: "bool \<Rightarrow> chat_body" where
  "helloBody streaming =
     \<lparr> b_model = Some ''claude-opus-4-5'',
       b_messages = [\<lparr> role = ''user'', content = CString ''Hello'' \<rparr>],
       b_tools = [], b_system = CNull, b_stream = streaming \<rparr>"

definition emptyBody :: chat_body where
  "emptyBody = \<lparr> b_model = Some ''claude-opus-4-5'', b_messages = [], b_tools = [],
                 b_system = CNull, b_stream = False \<rparr>"

definition poolState :: "chat_body \<Rightarrow> dispatch_state" where
  "poolState body = (initialState body 0 Map.empty)\<lparr> eligible := [acctA, acctB] \<rparr>"

text \<open>An account whose stored expiry is not a time value, alone in the pool.\<close>

definition acctNoDate :: account where
  "acctNoDate = acctA\<lparr> creds := (creds acctA)\<lparr> expiresAt := 9000000000000000 \<rparr> \<rparr>"

text \<open>
  A conversation that ends with two stub turns: each call of the translator drops one.
\<close>

definition stubBody :: chat_body where
  "stubBody =
     \<lparr> b_model = Some ''claude-opus-4-5'',
       b_messages = [\<lparr> role = ''user'', content = CString ''Hello'' \<rparr>,
                     \<lparr> role = ''assistant'', content = CParts [TextPart ''{''] \<rparr>,
                     \<lparr> role = ''user'', content = CString ''Go on'' \<rparr>,
                     \<lparr> role = ''assistant'', content = CParts [TextPart ''{''] \<rparr>,
                     \<lparr> role = ''assistant'', content = CParts [TextPart ''{''] \<rparr>],
       b_tools = [], b_system = CNull, b_stream = False \<rparr>"

section \<open>Properties of the front-end\<close>

lemma isAuthorized_iff_presentsKey:
  assumes "k \<noteq> []"
  shows "isAuthorized req (Some k) = presentsKey req k"
proof -
  have "(if startsWith ''Bearer '' h then drop 7 h else []) = k \<longleftrightarrow> h = ''Bearer '' @ k" for h
  proof
    assume a: "(if startsWith ''Bearer '' h then drop 7 h else []) = k"
    with assms have s: "startsWith ''Bearer '' h" by (auto split: if_splits)
    with a have "drop 7 h = k" by simp
    moreover from s have "take 7 h = ''Bearer ''"
      by (simp add: startsWith_def eval_nat_numeral)
    ultimately show "h = ''Bearer '' @ k" by (metis append_take_drop_id)
  next
    assume "h = ''Bearer '' @ k"
    then show "(if startsWith ''Bearer '' h then drop 7 h else []) = k"
      by (simp add: startsWith_def)
  qed
  then show ?thesis
    using assms
    by (cases "authorization req"; cases "x_api_key req")
       (auto simp: isAuthorized_def presentsKey_def orEmpty_def Let_def)
qed

text \<open>
  C8, as the specification states it, fails: with a key configured, \<open>GET /admin\<close> without
  any key is answered with the admin page, not with 401.
\<close>

theorem C8_admin_page_served_without_key:
  "route allCallbacks (Some ''secret'') True reqAdminNoKey = ServeAdminPage"
  by (simp add: route_def reqAdminNoKey_def)

text \<open>
  C8, amended: with a key configured, a request that does not present it and is neither an
  \<open>OPTIONS\<close> preflight, nor \<open>GET /health\<close>, nor \<open>GET /admin\<close> is answered 401, or 404 when
  its method is not \<open>POST\<close> and it matches no route; it never enters a route's body.
\<close>

theorem C8_unauthorized_requests_rejected:
  assumes "k \<noteq> []"
    and "\<not> presentsKey req k"
    and "req_method req \<noteq> ''OPTIONS''"
    and "\<not> (req_method req = ''GET'' \<and> pathname req = ''/health'')"
    and "\<not> (req_method req = ''GET'' \<and> pathname req = ''/admin'')"
  shows "route cb (Some k) bodyOk req = Respond 401 ''Unauthorized''
         \<or> (req_method req \<noteq> ''POST''
            \<and> route cb (Some k) bodyOk req = Respond 404 ''Not found'')"
proof -
  have na: "\<not> isAuthorized req (Some k)"
    using assms(1,2) by (simp add: isAuthorized_iff_presentsKey)
  show ?thesis
    using na assms(3,4,5)
    by (simp add: route_def unauthorized_def Let_def)
qed

theorem C8_unauthorized_requests_rejected_witness:
  "route allCallbacks (Some ''secret'') True reqChatNoKey = Respond 401 ''Unauthorized''"
proof -
  have "route allCallbacks (Some ''secret'') True reqChatNoKey = Respond 401 ''Unauthorized''
         \<or> (req_method reqChatNoKey \<noteq> ''POST''
            \<and> route allCallbacks (Some ''secret'') True reqChatNoKey = Respond 404 ''Not found'')"
    by (rule C8_unauthorized_requests_rejected)
       (simp_all add: presentsKey_def reqChatNoKey_def)
  then show ?thesis by (simp add: reqChatNoKey_def)
qed

section \<open>Properties of the adapter's retry policy\<close>

lemma sleeps_simps [simp]:
  "sleeps [] = []" "sleeps (Send n # as) = sleeps as"
  "sleeps (ForceRefresh # as) = sleeps as" "sleeps (Sleep d # as) = d # sleeps as"
  by (simp_all add: sleeps_def)

lemma refreshes_simps [simp]:
  "refreshes [] = 0" "refreshes (Send n # as) = refreshes as"
  "refreshes (ForceRefresh # as) = Suc (refreshes as)" "refreshes (Sleep d # as) = refreshes as"
  by (simp_all add: refreshes_def)

lemma sends_simps [simp]:
  "sends [] = 0" "sends (Send n # as) = Suc (sends as)"
  "sends (ForceRefresh # as) = sends as" "sends (Sleep d # as) = sends as"
  by (simp_all add: sends_def)

lemma retryable_unary_403 [simp]: "\<not> retryable_unary (Some 403)"
  by (simp add: retryable_unary_def)

text \<open>The unary path refreshes at most once, and never again after the refresh.\<close>

lemma callApi_refreshes:
  "refreshes (fst (callApi env build ms n isRetry rc)) \<le> (if isRetry then 0 else 1)"
proof (induction env build ms n isRetry rc rule: callApi.induct)
  case (1 env build messages n isRetry retryCount)
  obtain built ms1 where b: "build messages = (built, ms1)" by (cases "build messages")
  show ?case
  proof (cases built)
    case (Inl msg)
    then show ?thesis using b by (subst callApi.simps) simp
  next
    case (Inr rd)
    show ?thesis
    proof (cases "upstream env n")
      case (Ok d)
      with Inr b show ?thesis by (subst callApi.simps) simp
    next
      case (Failed e)
      show ?thesis
      proof (cases "response_status e = Some 403 \<and> \<not> isRetry")
        case True
        show ?thesis
        proof (cases "refresh env (Suc n)")
          case None
          from "1.IH"(1)[OF b[symmetric] Inr Failed True None]
          have "refreshes (fst (callApi env build ms1 (Suc n) True retryCount)) = 0" by simp
          then show ?thesis
            using b Inr Failed True None
            by (subst callApi.simps) (auto split: prod.splits)
        next
          case (Some msg)
          then show ?thesis using b Inr Failed True
            by (subst callApi.simps) simp
        qed
      next
        case F: False
        show ?thesis
        proof (cases "retryable_unary (response_status e) \<and> retryCount < 3")
          case True
          from "1.IH"(2)[OF b[symmetric] Inr Failed F True]
          show ?thesis
            using b Inr Failed F True
            by (subst callApi.simps) (auto split: prod.splits)
        next
          case False
          then show ?thesis using b Inr Failed F
            by (subst callApi.simps) (auto split: prod.splits)
        qed
      qed
    qed
  qed
qed

text \<open>
  The waits of the unary path are \<open>1000 * 2 ^ i\<close> for consecutive \<open>i\<close> from the retry
  count on, and the retry count never passes 3.
\<close>

lemma callApi_sleeps:
  "\<exists>k. rc \<le> k \<and> k \<le> max rc 3 \<and>
     sleeps (fst (callApi env build ms n isRetry rc)) = map (\<lambda>i. 1000 * 2 ^ i) [rc..<k]"
proof (induction env build ms n isRetry rc rule: callApi.induct)
  case (1 env build messages n isRetry retryCount)
  obtain built ms1 where b: "build messages = (built, ms1)" by (cases "build messages")
  show ?case
  proof (cases built)
    case (Inl msg)
    then show ?thesis using b by (subst callApi.simps) (auto intro: exI[of _ retryCount])
  next
    case (Inr rd)
    show ?thesis
    proof (cases "upstream env n")
      case (Ok d)
      with Inr b show ?thesis by (subst callApi.simps) (auto intro: exI[of _ retryCount])
    next
      case (Failed e)
      show ?thesis
      proof (cases "response_status e = Some 403 \<and> \<not> isRetry")
        case True
        show ?thesis
        proof (cases "refresh env (Suc n)")
          case None
          from "1.IH"(1)[OF b[symmetric] Inr Failed True None]
          obtain k where "retryCount \<le> k" "k \<le> max retryCount 3"
            "sleeps (fst (callApi env build ms1 (Suc n) True retryCount))
               = map (\<lambda>i. 1000 * 2 ^ i) [retryCount..<k]"
            by blast
          then show ?thesis
            using b Inr Failed True None
            by (subst callApi.simps) (auto split: prod.splits intro!: exI[of _ k])
        next
          case (Some msg)
          then show ?thesis using b Inr Failed True
            by (subst callApi.simps) (auto intro: exI[of _ retryCount])
        qed
      next
        case F: False
        show ?thesis
        proof (cases "retryable_unary (response_status e) \<and> retryCount < 3")
          case True
          from "1.IH"(2)[OF b[symmetric] Inr Failed F True]
          obtain k where k: "Suc retryCount \<le> k" "k \<le> max (Suc retryCount) 3"
            "sleeps (fst (callApi env build ms1 (Suc n) isRetry (Suc retryCount)))
               = map (\<lambda>i. 1000 * 2 ^ i) [Suc retryCount..<k]"
            by blast
          have "[retryCount..<k] = retryCount # [Suc retryCount..<k]"
            using k(1) by (simp add: upt_conv_Cons)
          then show ?thesis
            using b Inr Failed F True k
            by (subst callApi.simps) (auto split: prod.splits intro!: exI[of _ k])
        next
          case False
          then show ?thesis using b Inr Failed F
            by (subst callApi.simps) (auto intro: exI[of _ retryCount])
        qed
      qed
    qed
  qed
qed

text \<open>
  The unary path sends at most five requests: the first, one after a refresh, three after
  waits.
\<close>

lemma callApi_sends:
  "sends (fst (callApi env build ms n isRetry rc)) \<le> 1 + (if isRetry then 0 else 1) + (3 - rc)"
proof (induction env build ms n isRetry rc rule: callApi.induct)
  case (1 env build messages n isRetry retryCount)
  obtain built ms1 where b: "build messages = (built, ms1)" by (cases "build messages")
  show ?case
  proof (cases built)
    case (Inl msg)
    then show ?thesis using b by (subst callApi.simps) simp
  next
    case (Inr rd)
    show ?thesis
    proof (cases "upstream env n")
      case (Ok d)
      with Inr b show ?thesis by (subst callApi.simps) simp
    next
      case (Failed e)
      show ?thesis
      proof (cases "response_status e = Some 403 \<and> \<not> isRetry")
        case True
        show ?thesis
        proof (cases "refresh env (Suc n)")
          case None
          from "1.IH"(1)[OF b[symmetric] Inr Failed True None]
          show ?thesis
            using b Inr Failed True None
            by (subst callApi.simps) (auto split: prod.splits)
        next
          case (Some msg)
          then show ?thesis using b Inr Failed True
            by (subst callApi.simps) simp
        qed
      next
        case F: False
        show ?thesis
        proof (cases "retryable_unary (response_status e) \<and> retryCount < 3")
          case True
          from "1.IH"(2)[OF b[symmetric] Inr Failed F True]
          show ?thesis
            using b Inr Failed F True
            by (subst callApi.simps) (auto split: prod.splits)
        next
          case False
          then show ?thesis using b Inr Failed F
            by (subst callApi.simps) (auto split: prod.splits)
        qed
      qed
    qed
  qed
qed

text \<open>Any other upstream error leaves the unary path at once.\<close>

lemma callApi_other_error_surfaced:
  assumes "build ms = (Inr rd, ms1)" and "upstream env n = Failed e"
    and "response_status e \<noteq> Some 403" and "\<not> retryable_unary (response_status e)"
  shows "callApi env build ms n isRetry rc = ([Send n], Inl e, ms1)"
  using assms by (subst callApi.simps) simp

text \<open>The unary path at an upstream that always answers 500: three retries, then the error.\<close>

lemma callApi_always_500:
  "callApi (always_status 500) (fixedRequest ()) () 0 False 0 =
     ([Send 0, Sleep 1000, Send 1, Sleep 2000, Send 2, Sleep 4000, Send 3],
      Inl (JsError ''upstream error'' (Some 500)), ())"
  by code_simp

text \<open>Both paths at an upstream that always answers 403, and the streaming path at 429.\<close>

lemma callApi_always_403:
  "callApi (always_status 403) (fixedRequest ()) () 0 False 0 =
     ([Send 0, ForceRefresh, Send 1], Inl (JsError ''upstream error'' (Some 403)), ())"
  by code_simp

lemma streamApiReal_always_403:
  "streamApiReal (s_always_status 403) (fixedRequest ()) () 0 False 0 =
     ([], [Send 0, ForceRefresh, Send 1], Some (JsError ''upstream error'' (Some 403)), ())"
  by code_simp

lemma streamApiReal_always_429:
  "streamApiReal (s_always_status 429) (fixedRequest ()) () 0 False 0 =
     ([], [Send 0, Sleep 1000, Send 1, Sleep 2000, Send 2, Sleep 4000, Send 3],
      Some (JsError ''upstream error'' (Some 429)), ())"
  by code_simp

text \<open>
  C4 holds on the unary path (\<open>callApi\<close>, the lemmas above) and fails on the streaming
  path: \<open>streamApiReal\<close> retries with a backoff on 429 only. A 5xx status of the upstream
  ends the generator at once: one request, no wait, and the error is thrown.
\<close>

theorem C4_stream_5xx_not_retried:
  assumes "build ms = (Inr rd, ms1)"
    and "failure (s_upstream env n) = Some e"
    and "response_status e = Some c" and "c \<ge> 500"
  shows "streamApiReal env build ms n isRetry rc =
           (yield_reads None (reads (s_upstream env n)), [Send n], Some e, ms1)"
  using assms by (subst streamApiReal.simps) (simp add: Let_def)

theorem C4_stream_5xx_not_retried_witness:
  "streamApiReal (s_always_status 500) (fixedRequest ()) () 0 False 0 =
     ([], [Send 0], Some (JsError ''upstream error'' (Some 500)), ())"
  using C4_stream_5xx_not_retried
          [of "fixedRequest ()" "()" "()" "()" "s_always_status 500" 0
              "JsError ''upstream error'' (Some 500)" 500 False 0]
  by (simp add: s_always_status_def fixedRequest_def)

section \<open>Properties of the streaming translation\<close>

lemma eventTexts_simps [simp]:
  "eventTexts [] = []"
  "eventTexts (EContent d # es) = d # eventTexts es"
  "eventTexts (EToolUse a b c f # es) = eventTexts es"
  "eventTexts (EToolUseInput i # es) = eventTexts es"
  "eventTexts (EToolUseStop s # es) = eventTexts es"
  "eventTexts (xs @ ys) = eventTexts xs @ eventTexts ys"
  by (simp_all add: eventTexts_def)

lemma contentPayloads_simps [simp]:
  "contentPayloads [] = []"
  "contentPayloads (PContent d # ps) = d # contentPayloads ps"
  "contentPayloads (PToolUse a b c f # ps) = contentPayloads ps"
  "contentPayloads (PToolUseInput i # ps) = contentPayloads ps"
  "contentPayloads (PToolUseStop s # ps) = contentPayloads ps"
  "contentPayloads (xs @ ys) = contentPayloads xs @ contentPayloads ys"
  by (simp_all add: contentPayloads_def)

lemma dropRepeats_Some: "dropRepeats (Some d) ds = tl (remdups_adj (d # ds))"
  by (induction ds arbitrary: d) auto

lemma dropRepeats_None: "dropRepeats None ds = remdups_adj ds"
  by (cases ds) (auto simp: dropRepeats_Some)

lemma yield_events_texts:
  "eventTexts (fst (yield_events l es)) = dropRepeats l (filter (\<lambda>d. d \<noteq> []) (contentPayloads es))"
  by (induction l es rule: yield_events.induct) (auto split: prod.splits)

lemma yield_events_last:
  "dropRepeats (snd (yield_events l es)) ds =
   drop (length (dropRepeats l (filter (\<lambda>d. d \<noteq> []) (contentPayloads es)))) (dropRepeats l (filter (\<lambda>d. d \<noteq> []) (contentPayloads es) @ ds))"
  by (induction l es rule: yield_events.induct) (auto split: prod.splits)

lemma dropRepeats_append:
  "dropRepeats l (xs @ ys) = dropRepeats l xs @ drop (length (dropRepeats l xs)) (dropRepeats l (xs @ ys))"
  by (induction l xs rule: dropRepeats.induct) auto

lemma yield_reads_texts:
  "eventTexts (yield_reads l rs) = dropRepeats l (filter (\<lambda>d. d \<noteq> []) (contentPayloads (concat rs)))"
proof (induction rs arbitrary: l)
  case Nil
  then show ?case by simp
next
  case (Cons r rs)
  obtain ys l' where y: "yield_events l r = (ys, l')" by (cases "yield_events l r")
  have 1: "eventTexts ys = dropRepeats l (filter (\<lambda>d. d \<noteq> []) (contentPayloads r))"
    using yield_events_texts[of l r] y by simp
  have 2: "dropRepeats l' ds = drop (length (dropRepeats l (filter (\<lambda>d. d \<noteq> []) (contentPayloads r))))
           (dropRepeats l (filter (\<lambda>d. d \<noteq> []) (contentPayloads r) @ ds))" for ds
    using yield_events_last[of l r ds] y by simp
  show ?case
    using y Cons.IH[of l'] 1 2
      dropRepeats_append[of l "filter (\<lambda>d. d \<noteq> []) (contentPayloads r)"
         "filter (\<lambda>d. d \<noteq> []) (contentPayloads (concat rs))"]
    by simp
qed


lemma handleEvent_out:
  "snd (handleEvent lib e st) = map (ContentBlockDeltaText 0) (filter (\<lambda>d. d \<noteq> []) (eventTexts [e]))"
  by (cases e) (auto split: option.splits simp: Let_def)

lemma handleEvent_started:
  "streamStarted (fst (handleEvent lib e st)) = streamStarted st"
  by (cases e) (auto split: option.splits simp: Let_def)

lemma handleEvent_totalContent:
  "totalContent (fst (handleEvent lib e st)) =
     totalContent st @ concat (filter (\<lambda>d. d \<noteq> []) (eventTexts [e]))"
  by (cases e) (auto split: option.splits simp: Let_def)

lemma eventLoop_started_out:
  "streamStarted st \<Longrightarrow>
   snd (eventLoop lib model n es st) =
     map (ContentBlockDeltaText 0) (filter (\<lambda>d. d \<noteq> []) (eventTexts es))"
proof (induction es arbitrary: st)
  case Nil
  then show ?case by simp
next
  case (Cons e es)
  obtain st1 out1 where h: "handleEvent lib e (st\<lparr>streamStarted := True\<rparr>) = (st1, out1)"
    by (cases "handleEvent lib e (st\<lparr>streamStarted := True\<rparr>)")
  have s1: "streamStarted st1"
    using handleEvent_started[of lib e "st\<lparr>streamStarted := True\<rparr>"] h by simp
  have o1: "out1 = map (ContentBlockDeltaText 0) (filter (\<lambda>d. d \<noteq> []) (eventTexts [e]))"
    using handleEvent_out[of lib e "st\<lparr>streamStarted := True\<rparr>"] h by simp
  have "eventTexts (e # es) = eventTexts [e] @ eventTexts es"
    using eventTexts_simps(6)[of "[e]" es] by simp
  then show ?case
    using Cons.IH[OF s1] Cons.prems h o1
    by (auto simp: startChunks_def split: prod.splits)
qed

lemma eventLoop_first_out:
  "\<not> streamStarted st \<Longrightarrow>
   snd (eventLoop lib model n (e # es) st) =
     [MessageStart (uuidv4 lib MessageId) model n, ContentBlockStartText 0]
     @ map (ContentBlockDeltaText 0) (filter (\<lambda>d. d \<noteq> []) (eventTexts (e # es)))"
proof -
  assume ns: "\<not> streamStarted st"
  obtain st1 out1 where h: "handleEvent lib e (st\<lparr>streamStarted := True\<rparr>) = (st1, out1)"
    by (cases "handleEvent lib e (st\<lparr>streamStarted := True\<rparr>)")
  have s1: "streamStarted st1"
    using handleEvent_started[of lib e "st\<lparr>streamStarted := True\<rparr>"] h by simp
  have o1: "out1 = map (ContentBlockDeltaText 0) (filter (\<lambda>d. d \<noteq> []) (eventTexts [e]))"
    using handleEvent_out[of lib e "st\<lparr>streamStarted := True\<rparr>"] h by simp
  have "eventTexts (e # es) = eventTexts [e] @ eventTexts es"
    using eventTexts_simps(6)[of "[e]" es] by simp
  then show ?thesis
    using eventLoop_started_out[OF s1, of lib model n es] ns h o1
    by (auto simp: startChunks_def split: prod.splits)
qed

lemma textDeltas_simps [simp]:
  "textDeltas [] = []"
  "textDeltas (xs @ ys) = textDeltas xs @ textDeltas ys"
  "textDeltas (ContentBlockDeltaText i t # xs) = t # textDeltas xs"
  "textDeltas (MessageStart a b c # xs) = textDeltas xs"
  "textDeltas (ContentBlockStartText i # xs) = textDeltas xs"
  "textDeltas (ContentBlockStartToolUse i a b # xs) = textDeltas xs"
  "textDeltas (ContentBlockDeltaJson i t # xs) = textDeltas xs"
  "textDeltas (ContentBlockStop i # xs) = textDeltas xs"
  "textDeltas (MessageDelta r k # xs) = textDeltas xs"
  "textDeltas (MessageStop # xs) = textDeltas xs"
  by (simp_all add: textDeltas_def)

lemma textDeltas_map_delta [simp]: "textDeltas (map (ContentBlockDeltaText 0) ds) = ds"
  by (induction ds) simp_all

lemma textDeltas_allToolChunks [simp]: "textDeltas (allToolChunks lib tcs) = []"
proof -
  have "textDeltas (concat (map (\<lambda>(i, tc). toolChunks lib i tc) ps)) = []" for ps
    by (induction ps) (auto simp: toolChunks_def)
  then show ?thesis by (simp add: allToolChunks_def)
qed

lemma eventLoop_textDeltas:
  "textDeltas (snd (eventLoop lib model n es gcs_init)) = filter (\<lambda>d. d \<noteq> []) (eventTexts es)"
proof (cases es)
  case Nil
  then show ?thesis by simp
next
  case (Cons e es')
  have "\<not> streamStarted gcs_init" by (simp add: gcs_init_def)
  from eventLoop_first_out[OF this, of lib model n e es'] Cons
  show ?thesis by simp
qed

lemma generateContentStream_textDeltas:
  "textDeltas (fst (generateContentStream lib model n es)) = filter (\<lambda>d. d \<noteq> []) (eventTexts es)"
  using eventLoop_textDeltas[of lib model n es]
  by (auto simp: generateContentStream_def Let_def split: prod.splits sum.splits)

text \<open>
  What \<open>streamApiReal\<close> yields as content: for each request that it sends, in order, the
  non-empty content payloads of the reply, every run of equal consecutive payloads reduced
  to its first. A reply that breaks off contributes what came before the break.
\<close>

lemma streamApiReal_texts:
  "eventTexts (fst (streamApiReal env build ms n isRetry rc)) =
     concat (map (\<lambda>i. remdups_adj (filter (\<lambda>d. d \<noteq> [])
                          (contentPayloads (concat (reads (s_upstream env i))))))
               [n..<n + sends (fst (snd (streamApiReal env build ms n isRetry rc)))])"
proof (induction env build ms n isRetry rc rule: streamApiReal.induct)
  case (1 env build messages n isRetry retryCount)
  let ?T = "\<lambda>i. remdups_adj (filter (\<lambda>d. d \<noteq> [])
                   (contentPayloads (concat (reads (s_upstream env i)))))"
  let ?ys = "yield_reads None (reads (s_upstream env n))"
  have ys: "eventTexts ?ys = ?T n"
    by (simp add: yield_reads_texts dropRepeats_None)
  have retry: "eventTexts (ys0 @ zs) = concat (map ?T [n..<n + sends (Send n # x # acts)])"
    if "eventTexts ys0 = ?T n"
      and "eventTexts zs = concat (map ?T [Suc n..<Suc n + sends acts])"
      and "sends (x # acts) = sends acts"
    for ys0 zs x acts
  proof -
    have "[n..<n + sends (Send n # x # acts)] = n # [Suc n..<Suc n + sends acts]"
      using that(3) by (simp add: upt_conv_Cons)
    then show ?thesis using that(1,2) by simp
  qed
  obtain built ms1 where b: "build messages = (built, ms1)" by (cases "build messages")
  show ?case
  proof (cases built)
    case (Inl msg)
    then show ?thesis using b by (subst (1 2) streamApiReal.simps) (simp add: Let_def)
  next
    case (Inr rd)
    show ?thesis
    proof (cases "failure (s_upstream env n)")
      case None
      then show ?thesis using b Inr ys
        by (subst (1 2) streamApiReal.simps) (simp add: Let_def)
    next
      case (Some e)
      show ?thesis
      proof (cases "response_status e = Some 403 \<and> \<not> isRetry")
        case True
        show ?thesis
        proof (cases "s_refresh env (Suc n)")
          case None
          obtain zs acts r where rec:
            "streamApiReal env build ms1 (Suc n) True retryCount = (zs, acts, r)"
            by (cases "streamApiReal env build ms1 (Suc n) True retryCount") auto
          have step: "streamApiReal env build messages n isRetry retryCount
              = (?ys @ zs, Send n # ForceRefresh # acts, r)"
            using b Inr Some True None rec by (subst streamApiReal.simps) (simp add: Let_def)
          from "1.IH"(1)[OF refl refl b[symmetric] Inr refl Some True None] rec
          have ih: "eventTexts zs = concat (map ?T [Suc n..<Suc n + sends acts])" by simp
          show ?thesis unfolding step fst_conv snd_conv by (rule retry[OF ys ih]) simp
        next
          case (Some msg)
          then show ?thesis using b Inr \<open>failure (s_upstream env n) = Some e\<close> True ys
            by (subst (1 2) streamApiReal.simps) (simp add: Let_def)
        qed
      next
        case F: False
        show ?thesis
        proof (cases "response_status e = Some 429
                        \<and> retryCount < orDefault (REQUEST_MAX_RETRIES env) 3")
          case True
          obtain zs acts r where rec:
            "streamApiReal env build ms1 (Suc n) isRetry (Suc retryCount) = (zs, acts, r)"
            by (cases "streamApiReal env build ms1 (Suc n) isRetry (Suc retryCount)") auto
          have step: "streamApiReal env build messages n isRetry retryCount
              = (?ys @ zs,
                 Send n # Sleep (orDefault (REQUEST_BASE_DELAY env) 1000 * 2 ^ retryCount) # acts,
                 r)"
            using b Inr Some F True rec by (subst streamApiReal.simps) (simp add: Let_def)
          from "1.IH"(2)[OF refl refl b[symmetric] Inr refl Some F True] rec
          have ih: "eventTexts zs = concat (map ?T [Suc n..<Suc n + sends acts])" by simp
          show ?thesis unfolding step fst_conv snd_conv by (rule retry[OF ys ih]) simp
        next
          case False
          then show ?thesis using b Inr Some F ys
            by (subst (1 2) streamApiReal.simps) (auto simp: Let_def)
        qed
      qed
    qed
  qed
qed

lemma generateContentStreamOf_textDeltas:
  "textDeltas (fst (generateContentStreamOf lib model n r)) =
     filter (\<lambda>d. d \<noteq> []) (eventTexts (fst r))"
  by (cases r; cases "fst (snd (snd r))")
     (auto simp: generateContentStreamOf_def generateContentStream_textDeltas eventLoop_textDeltas)

lemma filter_nonempty_concat_remdups:
  "filter (\<lambda>d. d \<noteq> []) (concat (map (\<lambda>i. remdups_adj (filter (\<lambda>d. d \<noteq> []) (f i))) is))
     = concat (map (\<lambda>i. remdups_adj (filter (\<lambda>d. d \<noteq> []) (f i))) is)"
proof -
  have "\<forall>d \<in> set (concat (map (\<lambda>i. remdups_adj (filter (\<lambda>d. d \<noteq> []) (f i))) is)). d \<noteq> []"
    by auto
  then show ?thesis by (simp only: filter_id_conv)
qed

text \<open>What the two write loops add to the texts of the response.\<close>

lemma beginStream_claude [simp]:
  "claudeTextDeltas (writes (res (beginStream (claudeWarning env) st)))
     = claudeTextDeltas (writes (res st))"
  by (auto simp: beginStream_def claudeWarning_def claudeTextDeltas_def claudeTextOf_def
      split: option.splits)

lemma writeClaudeChunks_texts:
  "claudeTextDeltas (writes (res (writeClaudeChunks env cs st)))
     = claudeTextDeltas (writes (res st)) @ textDeltas cs"
proof (induction cs arbitrary: st)
  case Nil
  then show ?case by simp
next
  case (Cons c cs)
  have "claudeTextDeltas (writes (res (writeOut [ClaudeEvent c]
            (beginStream (claudeWarning env) st))))
      = claudeTextDeltas (writes (res st)) @ textDeltas [c]"
    using beginStream_claude[of env st]
    by (cases c) (simp_all add: writeOut_def claudeTextDeltas_def claudeTextOf_def)
  moreover have "textDeltas (c # cs) = textDeltas [c] @ textDeltas cs"
    using textDeltas_simps(2)[of "[c]" cs] by simp
  ultimately show ?case using Cons.IH by simp
qed

lemma convert_contents:
  "filter (\<lambda>d. d \<noteq> [])
     (openaiContents (map OpenAIChunk (convertClaudeStreamChunkToOpenAIChunks clock c model oid created)))
   = filter (\<lambda>d. d \<noteq> []) (textDeltas [c])"
  by (cases c)
     (simp_all add: convertClaudeStreamChunkToOpenAIChunks_def Let_def openaiContents_def
        openaiContentOf_def buildOpenAIStreamChunk_def)

lemma beginStream_openai:
  "filter (\<lambda>d. d \<noteq> []) (openaiContents (writes (res (beginStream (openaiWarning env model oid created) st))))
     = filter (\<lambda>d. d \<noteq> []) (openaiContents (writes (res st)))
       @ (if streamWritten st \<or> warningText env = [] then [] else [warningText env])"
  by (simp add: beginStream_def openaiWarning_def openaiContents_def openaiContentOf_def
      buildOpenAIStreamChunk_def)

lemma beginStream_written [simp]: "streamWritten (beginStream w st)"
  by (simp add: beginStream_def)

lemma writeOut_fields [simp]:
  "streamWritten (writeOut ws st) = streamWritten st"
  "writes (res (writeOut ws st)) = writes (res st) @ ws"
  by (simp_all add: writeOut_def)

lemma openaiContents_append [simp]:
  "openaiContents (xs @ ys) = openaiContents xs @ openaiContents ys"
  by (simp add: openaiContents_def)

lemma writeOpenAIChunks_texts:
  "filter (\<lambda>d. d \<noteq> [])
     (openaiContents (writes (res (writeOpenAIChunks env model created k j oid cs st))))
   = filter (\<lambda>d. d \<noteq> []) (openaiContents (writes (res st)))
     @ (if streamWritten st \<or> cs = [] \<or> warningText env = [] then [] else [warningText env])
     @ filter (\<lambda>d. d \<noteq> []) (textDeltas cs)"
proof (induction cs arbitrary: st j oid)
  case Nil
  then show ?case by simp
next
  case (Cons c cs)
  define oid1 where "oid1 = (case c of MessageStart mid m n \<Rightarrow> if mid \<noteq> [] then mid else oid
                                 | _ \<Rightarrow> oid)"
  define st1 where "st1 = writeOut (map OpenAIChunk
        (convertClaudeStreamChunkToOpenAIChunks (convertClock env k j) c model oid1 created))
        (beginStream (openaiWarning env model oid created) st)"
  have w: "writeOpenAIChunks env model created k j oid (c # cs) st
             = writeOpenAIChunks env model created k (Suc j) oid1 cs st1"
    by (simp add: oid1_def st1_def Let_def)
  have s1: "streamWritten st1" by (simp add: st1_def)
  have c1: "filter (\<lambda>d. d \<noteq> []) (openaiContents (writes (res st1)))
      = filter (\<lambda>d. d \<noteq> []) (openaiContents (writes (res st)))
        @ (if streamWritten st \<or> warningText env = [] then [] else [warningText env])
        @ filter (\<lambda>d. d \<noteq> []) (textDeltas [c])"
    using beginStream_openai[of env model oid created st]
      convert_contents[of "convertClock env k j" c model oid1 created]
    by (simp add: st1_def)
  have t: "textDeltas (c # cs) = textDeltas [c] @ textDeltas cs"
    using textDeltas_simps(2)[of "[c]" cs] by simp
  show ?case
    unfolding w using Cons.IH[where st=st1 and j="Suc j" and oid=oid1] s1 c1 t by simp
qed




text \<open>
  The amended C3 speaks of the events that the frame parser returns. The parser itself
  loses a frame that is split between two reads when the first read also held a complete
  frame: \<open>remaining\<close> is cut at the start of the incomplete frame inside the loop and cut
  again by \<open>searchStart\<close> after the loop.
\<close>

lemma split_frame_after_whole_frame_lost:
  "parseReads testLib [] wholeFrames = [[PContent ''Hello ''], [PContent ''world'']]"
  "concat splitFrames = concat wholeFrames"
  "parseReads testLib [] splitFrames = [[PContent ''Hello ''], []]"
  by code_simp+

text \<open>
  C2 holds for every stream with at least one event (the lemma below) and fails for the
  stream without events: \<open>message_start\<close> and the start of block 0 are yielded inside the
  loop, at the first event, so without events the chunks begin with the stop of a block
  that never started.
\<close>

theorem C2_empty_stream_lacks_message_start:
  "generateContentStream lib model n [] =
     ([ContentBlockStop 0, MessageDelta ''end_turn'' (countTokens lib []), MessageStop], None)"
  by (simp add: generateContentStream_def gcs_init_def closeOpenCall_def parseBracketToolCalls_def
      allToolChunks_def stopReason_def outputTokens_def)

lemma generateContentStream_shape:
  assumes "es \<noteq> []" and "snd (generateContentStream lib model n es) = None"
  shows "\<exists>ds tcs k. fst (generateContentStream lib model n es) =
           [MessageStart (uuidv4 lib MessageId) model n, ContentBlockStartText 0]
           @ map (ContentBlockDeltaText 0) ds @ [ContentBlockStop 0]
           @ allToolChunks lib tcs
           @ [MessageDelta (if tcs \<noteq> [] then ''tool_use'' else ''end_turn'') k, MessageStop]"
proof -
  obtain e es' where es: "es = e # es'" using assms(1) by (cases es) auto
  have ns: "\<not> streamStarted gcs_init" by (simp add: gcs_init_def)
  obtain st out where l: "eventLoop lib model n es gcs_init = (st, out)"
    by (cases "eventLoop lib model n es gcs_init")
  have out: "out = [MessageStart (uuidv4 lib MessageId) model n, ContentBlockStartText 0]
     @ map (ContentBlockDeltaText 0) (filter (\<lambda>d. d \<noteq> []) (eventTexts es))"
    using eventLoop_first_out[OF ns, of lib model n e es'] l es by simp
  show ?thesis
    using assms(2) l out
    by (auto simp: generateContentStream_def Let_def stopReason_def split: sum.splits)
qed

text \<open>The unary path deduplicates: no key occurs twice, and no key is lost.\<close>

lemma dedupLoop_keys:
  "distinct (map dedupKey (dedupLoop seen tcs))
   \<and> set (map dedupKey (dedupLoop seen tcs)) = set (map dedupKey tcs) - seen"
  by (induction seen tcs rule: dedupLoop.induct) auto

lemma processToolCalls_distinct:
  "distinct (map dedupKey (processToolCalls lib parsed raw))"
  by (simp add: processToolCalls_def deduplicateToolCalls_def dedupLoop_keys)

lemma bt_positions: "callPositions bracketText = [0]" by code_simp
lemma bt_bracket: "findMatchingBracket bracketText 0 = Some 37" by code_simp
lemma bt_sub: "substring bracketText 0 (Suc 37) = bracketText" by code_simp
lemma bt_args: "indexOf (toLowerCase bracketText) ''with args:'' 0 = Some 15" by code_simp
lemma bt_last: "lastIndexOfChar bracketText (CHR '']'') = Some 37" by code_simp
lemma bt_cand: "trim (substring bracketText (15 + length ''with args:'') 37) = argsJson" by code_simp
lemma bt_trim: "trim ''search'' = ''search''" by code_simp
lemma bt_ne: "bracketText \<noteq> []" "argsJson \<noteq> []" by code_simp+

lemma parseBracket_bt:
  assumes "matchCalledName lib bracketText = Some ''search''"
    and "repairJson lib argsJson = argsJson"
    and "JSON_parse lib argsJson = Some (JObj [(''q'', JStr ''foo'')])"
    and "JSON_stringify lib (JObj [(''q'', JStr ''foo'')]) = argsJson"
  shows "parseBracketToolCalls lib bracketText =
     Some [\<lparr> fc_id = ''call_'' @ take 8 (filter (\<lambda>c. c \<noteq> CHR ''-'') (uuidv4 lib (BracketCall 0))),
             fc_name = ''search'', fc_arguments = argsJson \<rparr>]"
proof -
  have "parseSingleToolCall lib 0 bracketText =
     Some \<lparr> fc_id = ''call_'' @ take 8 (filter (\<lambda>c. c \<noteq> CHR ''-'') (uuidv4 lib (BracketCall 0))),
             fc_name = ''search'', fc_arguments = argsJson \<rparr>"
    using assms bt_args bt_last bt_cand bt_trim
    by (simp add: parseSingleToolCall_def Let_def)
  then show ?thesis
    using bt_positions bt_bracket bt_sub bt_ne
    by (simp add: parseBracketToolCalls_def List.map_filter_def)
qed

text \<open>
  C7 holds on the unary path (\<open>processToolCalls_distinct\<close>) and fails on the streaming
  path: \<open>generateContentStream\<close> appends the bracketed calls to the calls of the stream
  and never calls \<open>deduplicateToolCalls\<close>. For the stream \<open>dupEvents\<close>, whose tool call is
  also written in brackets in its text, two tool-use blocks with the same name and the
  same arguments are yielded.
\<close>

theorem C7_stream_tool_use_not_deduplicated:
  assumes "matchCalledName lib bracketText = Some ''search''"
    and "repairJson lib argsJson = argsJson"
    and "JSON_parse lib argsJson = Some (JObj [(''q'', JStr ''foo'')])"
    and "JSON_stringify lib (JObj [(''q'', JStr ''foo'')]) = argsJson"
  shows "toolUseBlocks (fst (generateContentStream lib model n dupEvents))
           = [(''search'', argsJson), (''search'', argsJson)]"
proof -
  have loop: "eventLoop lib model n dupEvents gcs_init =
      (\<lparr> totalContent = bracketText,
         toolCalls = [\<lparr> toolUseId = ''t1'', tc_name = ''search'',
                        tc_input = Parsed (JObj [(''q'', JStr ''foo'')]) \<rparr>],
         currentToolCall = None, streamStarted = True \<rparr>,
       [MessageStart (uuidv4 lib MessageId) model n, ContentBlockStartText 0,
        ContentBlockDeltaText 0 bracketText])"
    using assms(3) bt_ne
    by (simp add: dupEvents_def gcs_init_def startChunks_def closeCall_def Let_def)
  show ?thesis
    using assms bt_ne
    by (simp add: generateContentStream_def loop closeOpenCall_def parseBracket_bt[OF assms]
        allToolChunks_def toolChunks_def partialJson_def Let_def)
qed

theorem C7_stream_tool_use_not_deduplicated_witness:
  "toolUseBlocks (fst (generateContentStream testLib ''claude-opus-4-5'' 7 dupEvents))
     = [(''search'', argsJson), (''search'', argsJson)]"
  by (rule C7_stream_tool_use_not_deduplicated)
     (simp_all add: testLib_def bracketText_def startsWith_def)

section \<open>Properties of the request translation\<close>

lemma alternates_iff: "alternates hs \<longleftrightarrow> distinct_adj (map isAssistantEntry hs)"
  by (induction hs rule: alternates.induct) auto

lemma isAssistantEntry_simps [simp]:
  "isAssistantEntry (AssistantResponseMessage a)" "\<not> isAssistantEntry (UserInputMessage u)"
  by (simp_all add: isAssistantEntry_def)

text \<open>After the merge no two adjacent messages have the same role, and no role is new.\<close>

lemma mergeMessages_inv:
  "distinct_adj (map role acc) \<Longrightarrow> distinct_adj (map role (mergeMessages acc ms))"
proof (induction acc ms rule: mergeMessages.induct)
  case (1 mergedMessages)
  then show ?case by simp
next
  case (2 mergedMessages currentMsg rest)
  show ?case
  proof (cases "mergedMessages = []")
    case True
    with 2 show ?thesis by simp
  next
    case False
    then obtain xs l where m: "mergedMessages = xs @ [l]" by (metis append_butlast_last_id)
    show ?thesis
    proof (cases "role currentMsg = role l")
      case True
      have "distinct_adj
              (map role (xs @ [l\<lparr>content := mergeContent (content l) (content currentMsg)\<rparr>]))"
        using "2.prems" m by simp
      with 2(2)[OF False refl] True m show ?thesis by simp
    next
      case F: False
      have "distinct_adj (map role (mergedMessages @ [currentMsg]))"
        using "2.prems" m F by (simp add: distinct_adj_append_iff)
      with 2(3)[OF False refl] F m show ?thesis by simp
    qed
  qed
qed

lemma mergeMessages_roles:
  "set (map role (mergeMessages acc ms)) \<subseteq> set (map role acc) \<union> set (map role ms)"
proof (induction acc ms rule: mergeMessages.induct)
  case (1 mergedMessages)
  then show ?case by simp
next
  case (2 mergedMessages currentMsg rest)
  show ?case
  proof (cases "mergedMessages = []")
    case True
    with 2 show ?thesis by auto
  next
    case False
    then obtain xs l where m: "mergedMessages = xs @ [l]" by (metis append_butlast_last_id)
    show ?thesis
    proof (cases "role currentMsg = role l")
      case True
      with 2(2)[OF False refl] True m show ?thesis by auto
    next
      case F: False
      with 2(3)[OF False refl] F m show ?thesis by auto
    qed
  qed
qed

lemma processMessages_ok:
  assumes "\<forall>m \<in> set messages. userOrAssistant m"
  shows "\<forall>m \<in> set (processMessages messages). userOrAssistant m"
    and "distinct_adj (map role (processMessages messages))"
proof -
  let ?p = "if isBraceStub (last messages) then butlast messages else messages"
  have "set ?p \<subseteq> set messages" by (auto dest: in_set_butlastD)
  then have r: "set (map role ?p) \<subseteq> {''user'', ''assistant''}"
    using assms by (auto simp: userOrAssistant_def)
  have "set (map role (processMessages messages)) \<subseteq> set (map role ?p)"
    using mergeMessages_roles[of "[]" ?p] by (simp add: processMessages_def)
  with r have rs: "set (map role (processMessages messages)) \<subseteq> {''user'', ''assistant''}"
    by blast
  show "\<forall>m \<in> set (processMessages messages). userOrAssistant m"
  proof
    fix m assume "m \<in> set (processMessages messages)"
    then have "role m \<in> set (map role (processMessages messages))" by simp
    with rs have "role m \<in> {''user'', ''assistant''}" by blast
    then show "userOrAssistant m" by (simp add: userOrAssistant_def)
  qed
  show "distinct_adj (map role (processMessages messages))"
    using mergeMessages_inv[of "[]" ?p] by (simp add: processMessages_def)
qed

text \<open>The kinds of the history entries follow the roles, when every role is one of the two.\<close>

lemma historyEntry_kinds:
  "\<forall>m \<in> set ms. userOrAssistant m \<Longrightarrow>
   map isAssistantEntry (List.map_filter (historyEntry mid) ms) = map isAssistantTurn ms"
  by (induction ms)
     (auto simp: List.map_filter_def historyEntry_def userOrAssistant_def isAssistantTurn_def)

lemma distinct_adj_isAssistantTurn:
  "\<forall>m \<in> set ms. userOrAssistant m \<Longrightarrow> distinct_adj (map role ms)
     \<Longrightarrow> distinct_adj (map isAssistantTurn ms)"
proof (induction ms rule: induct_list012)
  case 1
  then show ?case by simp
next
  case (2 x)
  then show ?case by simp
next
  case (3 x y zs)
  then show ?case by (auto simp: userOrAssistant_def isAssistantTurn_def)
qed

lemma final_kinds:
  assumes "distinct_adj F1" and "lastB \<Longrightarrow> F1 = [] \<or> \<not> last F1"
  shows "distinct_adj (if lastB then F1 @ [True]
                       else if F1 \<noteq> [] \<and> \<not> last F1 then F1 @ [True] else F1)
       \<and> ((if lastB then F1 @ [True]
            else if F1 \<noteq> [] \<and> \<not> last F1 then F1 @ [True] else F1) = []
          \<or> last (if lastB then F1 @ [True]
                   else if F1 \<noteq> [] \<and> \<not> last F1 then F1 @ [True] else F1))"
  using assms by (auto simp: distinct_adj_append_iff)

lemma butlast_kinds:
  assumes "distinct_adj (B :: bool list)" and "B \<noteq> []"
  shows "distinct_adj (butlast B)" and "last B \<Longrightarrow> butlast B = [] \<or> \<not> last (butlast B)"
proof -
  have B: "B = butlast B @ [last B]" using assms(2) by simp
  then have d: "distinct_adj (butlast B @ [last B])" using assms(1) by simp
  then show "distinct_adj (butlast B)" by (simp add: distinct_adj_append_iff)
  show "last B \<Longrightarrow> butlast B = [] \<or> \<not> last (butlast B)"
    using d by (auto simp: distinct_adj_append_iff)
qed

lemma sys_user_kinds:
  assumes "distinct_adj (False # bs)"
  shows "distinct_adj (False # butlast bs)"
    and "last (False # bs) \<Longrightarrow> \<not> last (False # butlast bs)"
proof -
  show "distinct_adj (False # butlast bs)"
  proof (cases "bs = []")
    case True then show ?thesis by simp
  next
    case False
    then have "False # butlast bs = butlast (False # bs)" by simp
    then show ?thesis using butlast_kinds(1)[OF assms] by simp
  qed
  show "last (False # bs) \<Longrightarrow> \<not> last (False # butlast bs)"
  proof (cases "bs = []")
    case True then show "last (False # bs) \<Longrightarrow> \<not> last (False # butlast bs)" by simp
  next
    case False
    then have e: "False # butlast bs = butlast (False # bs)" by simp
    assume "last (False # bs)"
    from butlast_kinds(2)[OF assms _ this] e show "\<not> last (False # butlast bs)" by auto
  qed
qed

lemma sys_assistant_kinds:
  assumes "distinct_adj (True # bs)"
  shows "distinct_adj (False # butlast (True # bs))"
    and "last (True # bs) \<Longrightarrow> \<not> last (False # butlast (True # bs))"
proof -
  have d: "distinct_adj (butlast (True # bs))" using butlast_kinds(1)[OF assms] by simp
  show "distinct_adj (False # butlast (True # bs))"
    using d by (cases bs) auto
  assume "last (True # bs)"
  from butlast_kinds(2)[OF assms _ this]
  show "\<not> last (False # butlast (True # bs))" by (cases "bs = []") auto
qed

lemma historyLoop_kinds:
  assumes ok: "\<forall>m \<in> set pm. userOrAssistant m" and pm: "pm = first # others"
  shows "map isAssistantEntry (historyLoop mid (systemHistory mid sp first) pm) =
     (if sp \<noteq> [] then (if \<not> isAssistantTurn first then False # butlast (tl (map isAssistantTurn pm))
                         else False # butlast (map isAssistantTurn pm))
      else butlast (map isAssistantTurn pm))"
proof -
  have okb: "\<forall>m \<in> set (butlast (drop k pm)). userOrAssistant m" for k
    using ok by (meson in_set_butlastD in_set_dropD)
  have mb: "map isAssistantTurn (butlast (drop k pm)) = butlast (drop k (map isAssistantTurn pm))" for k
    by (simp add: map_butlast drop_map)
  have fu: "role first = ''user'' \<longleftrightarrow> \<not> isAssistantTurn first"
    using ok pm by (auto simp: userOrAssistant_def isAssistantTurn_def)
  show ?thesis
    using historyEntry_kinds[OF okb] mb fu
    by (auto simp: historyLoop_def systemHistory_def drop_Suc)
qed

lemma closeHistory_kinds:
  "map isAssistantEntry (closeHistory h cur) =
     (if isAssistantTurn cur then map isAssistantEntry h @ [True]
      else if map isAssistantEntry h \<noteq> [] \<and> \<not> last (map isAssistantEntry h)
      then map isAssistantEntry h @ [True] else map isAssistantEntry h)"
  by (auto simp: closeHistory_def isAssistantTurn_def last_map)

text \<open>
  For a message list in the Anthropic shape the history alternates, and it is empty or
  ends with an assistant entry: the synthetic entry is there whenever it is needed.
\<close>

lemma history_alternates_user_assistant:
  assumes "\<forall>m \<in> set messages. userOrAssistant m"
  shows "alternates (historyOf (buildCodewhispererRequest lib svc messages model tools sys))
     \<and> (historyOf (buildCodewhispererRequest lib svc messages model tools sys) = []
        \<or> isAssistantEntry
             (last (historyOf (buildCodewhispererRequest lib svc messages model tools sys))))"
proof (cases "messages = [] \<or> processMessages messages = []")
  case True
  then show ?thesis
    by (auto simp: buildCodewhispererRequest_def historyOf_def Let_def)
next
  case False
  then obtain first others where pm: "processMessages messages = first # others"
    by (cases "processMessages messages") auto
  let ?pm = "processMessages messages"
  let ?B = "map isAssistantTurn ?pm"
  let ?mid = "codewhispererModel svc model"
  let ?h = "historyLoop ?mid (systemHistory ?mid (safeGetTextContent sys) first) ?pm"
  have H: "historyOf (buildCodewhispererRequest lib svc messages model tools sys)
             = closeHistory ?h (last ?pm)"
    using False pm by (simp add: buildCodewhispererRequest_def historyOf_def Let_def)
  have ok: "\<forall>m \<in> set ?pm. userOrAssistant m" and da: "distinct_adj (map role ?pm)"
    using processMessages_ok[OF assms] by auto
  have dB: "distinct_adj ?B" using distinct_adj_isAssistantTurn[OF ok da] .
  have Bc: "?B = isAssistantTurn first # map isAssistantTurn others" using pm by simp
  have lastB: "isAssistantTurn (last ?pm) = last ?B" using pm by (simp add: last_map)
  let ?F1 = "map isAssistantEntry ?h"
  have F1: "?F1 = (if safeGetTextContent sys \<noteq> []
                   then (if \<not> isAssistantTurn first then False # butlast (tl ?B)
                         else False # butlast ?B)
                   else butlast ?B)"
    using historyLoop_kinds[OF ok pm] by simp
  have p: "distinct_adj ?F1 \<and> (last ?B \<longrightarrow> ?F1 = [] \<or> \<not> last ?F1)"
  proof (cases "safeGetTextContent sys \<noteq> []")
    case sysT: True
    show ?thesis
    proof (cases "isAssistantTurn first")
      case True
      with dB Bc have d: "distinct_adj (True # map isAssistantTurn others)" by simp
      have "?F1 = False # butlast (True # map isAssistantTurn others)"
        using F1 sysT True Bc by simp
      moreover have "last ?B = last (True # map isAssistantTurn others)" using Bc True by simp
      ultimately show ?thesis using sys_assistant_kinds[OF d] by metis
    next
      case False
      with dB Bc have d: "distinct_adj (False # map isAssistantTurn others)" by simp
      have "?F1 = False # butlast (map isAssistantTurn others)" using F1 sysT False Bc by simp
      moreover have "last ?B = last (False # map isAssistantTurn others)" using Bc False by simp
      ultimately show ?thesis using sys_user_kinds[OF d] by metis
    qed
  next
    case False
    then have "?F1 = butlast ?B" using F1 by simp
    moreover have "?B \<noteq> []" using Bc by simp
    ultimately show ?thesis using butlast_kinds[OF dB] by metis
  qed
  have fk: "distinct_adj (map isAssistantEntry (closeHistory ?h (last ?pm)))
     \<and> (map isAssistantEntry (closeHistory ?h (last ?pm)) = []
        \<or> last (map isAssistantEntry (closeHistory ?h (last ?pm))))"
    using final_kinds[of ?F1 "last ?B"] p
    by (simp only: closeHistory_kinds lastB)
  show ?thesis
  proof (cases "closeHistory ?h (last ?pm) = []")
    case True
    then show ?thesis by (simp add: H)
  next
    case False
    then have "last (map isAssistantEntry (closeHistory ?h (last ?pm)))
                 = isAssistantEntry (last (closeHistory ?h (last ?pm)))"
      by (simp add: last_map)
    with fk False show ?thesis by (simp add: H alternates_iff)
  qed
qed

lemma history_alternates_example:
  "alternates (historyOf (buildCodewhispererRequest testLib defaultService plainConversation
      ''claude-opus-4-5'' [] (CString ''Be brief.'')))"
  using history_alternates_user_assistant [of plainConversation]
  by (simp add: plainConversation_def userOrAssistant_def)

text \<open>
  C6 holds for message lists in the Anthropic shape (the lemma above) and fails for the
  lists of the OpenAI endpoint, whose body reaches the translator as it is: a message of
  another role (\<open>tool\<close>, \<open>system\<close>) is not merged with its neighbours and is skipped by
  the history loop, so the assistant turns before and after a tool message become two
  consecutive assistant entries.
\<close>

theorem C6_tool_message_breaks_alternation:
  "map kindOf (historyOf (buildCodewhispererRequest lib svc toolConversation model tools CNull))
     = [''userInputMessage'', ''assistantResponseMessage'', ''assistantResponseMessage'']
   \<and> \<not> alternates
         (historyOf (buildCodewhispererRequest lib svc toolConversation model tools CNull))"
  by (simp add: buildCodewhispererRequest_def toolConversation_def processMessages_def
        isBraceStub_def historyLoop_def systemHistory_def closeHistory_def historyEntry_def
        List.map_filter_def historyOf_def kindOf_def isAssistantEntry_def Let_def)

section \<open>Properties of the calendar\<close>

text \<open>A year has 365 or 366 days, and the years begin one after the other.\<close>

lemma div_step:
  fixes a k :: int
  assumes k: "0 < k"
  shows "(a + 1) div k = a div k + (if (a + 1) mod k = 0 then 1 else 0)"
proof -
  have e1: "k * (a div k) + a mod k = a" by simp
  have b: "0 \<le> a mod k" "a mod k < k" using k by simp_all
  show ?thesis
  proof (cases "a mod k = k - 1")
    case True
    have "k * (a div k + 1) = k * (a div k) + k" by (simp add: algebra_simps)
    then have eq: "a + 1 = k * (a div k + 1) + 0" using e1 True by linarith
    have "(a + 1) div k = a div k + 1" using int_div_pos_eq[OF eq _ k] by simp
    moreover have "(a + 1) mod k = 0" using int_mod_pos_eq[OF eq _ k] by simp
    ultimately show ?thesis by simp
  next
    case False
    then have lt: "a mod k + 1 < k" using b by linarith
    have eq: "a + 1 = k * (a div k) + (a mod k + 1)" using e1 by linarith
    have nn: "0 \<le> a mod k + 1" using b by linarith
    have "(a + 1) div k = a div k" using int_div_pos_eq[OF eq nn lt] by simp
    moreover have "(a + 1) mod k = a mod k + 1" using int_mod_pos_eq[OF eq nn lt] by simp
    ultimately show ?thesis using b by simp
  qed
qed

lemma mod_chain:
  fixes y :: int
  shows "y mod 100 = 0 \<Longrightarrow> y mod 4 = 0" and "y mod 400 = 0 \<Longrightarrow> y mod 100 = 0"
proof -
  have "(4::int) dvd 100" "(100::int) dvd 400" by simp_all
  then show "y mod 100 = 0 \<Longrightarrow> y mod 4 = 0" and "y mod 400 = 0 \<Longrightarrow> y mod 100 = 0"
    by (metis dvd_trans mod_0_imp_dvd dvd_imp_mod_0)+
qed

lemma DayFromYear_Suc: "DayFromYear (y + 1) = DayFromYear y + DaysInYear y"
proof -
  define a4 where "a4 = (y - 1969) div 4"
  define a100 where "a100 = (y - 1901) div 100"
  define a400 where "a400 = (y - 1601) div 400"
  define b4 where "b4 = (y - 1968) div 4"
  define b100 where "b100 = (y - 1900) div 100"
  define b400 where "b400 = (y - 1600) div 400"
  have m4: "(y - 1968) mod 4 = y mod 4"
    by (simp add: mod_diff_right_eq [symmetric, of y 1968 4])
  have m100: "(y - 1900) mod 100 = y mod 100"
    by (simp add: mod_diff_right_eq [symmetric, of y 1900 100])
  have m400: "(y - 1600) mod 400 = y mod 400"
    by (simp add: mod_diff_right_eq [symmetric, of y 1600 400])
  have s4: "b4 = a4 + (if y mod 4 = 0 then 1 else 0)"
    using div_step[of 4 "y - 1969"] m4 by (simp add: a4_def b4_def)
  have s100: "b100 = a100 + (if y mod 100 = 0 then 1 else 0)"
    using div_step[of 100 "y - 1901"] m100 by (simp add: a100_def b100_def)
  have s400: "b400 = a400 + (if y mod 400 = 0 then 1 else 0)"
    using div_step[of 400 "y - 1601"] m400 by (simp add: a400_def b400_def)
  have e: "DayFromYear (y + 1) = 365 * (y - 1969) + b4 - b100 + b400"
    by (simp add: DayFromYear_def b4_def b100_def b400_def)
  have d: "DayFromYear y = 365 * (y - 1970) + a4 - a100 + a400"
    by (simp add: DayFromYear_def a4_def a100_def a400_def)
  consider "y mod 4 \<noteq> 0" | "y mod 4 = 0" "y mod 100 \<noteq> 0"
    | "y mod 100 = 0" "y mod 400 \<noteq> 0" | "y mod 400 = 0" by argo
  then show ?thesis
  proof cases
    case 1
    then have "y mod 100 \<noteq> 0 \<and> y mod 400 \<noteq> 0" using mod_chain[of y] by argo
    with 1 have "DaysInYear y = 365" "b4 = a4" "b100 = a100" "b400 = a400"
      using s4 s100 s400 by (simp_all add: DaysInYear_def)
    then show ?thesis using e d by (simp add: algebra_simps)
  next
    case 2
    then have "y mod 400 \<noteq> 0" using mod_chain[of y] by argo
    with 2 have "DaysInYear y = 366" "b4 = a4 + 1" "b100 = a100" "b400 = a400"
      using s4 s100 s400 by (simp_all add: DaysInYear_def)
    then show ?thesis using e d by (simp add: algebra_simps)
  next
    case 3
    then have "y mod 4 = 0" using mod_chain[of y] by argo
    with 3 have "DaysInYear y = 365" "b4 = a4 + 1" "b100 = a100 + 1" "b400 = a400"
      using s4 s100 s400 by (simp_all add: DaysInYear_def)
    then show ?thesis using e d by (simp add: algebra_simps)
  next
    case 4
    then have "y mod 100 = 0 \<and> y mod 4 = 0" using mod_chain[of y] by argo
    with 4 have "DaysInYear y = 366" "b4 = a4 + 1" "b100 = a100 + 1" "b400 = a400 + 1"
      using s4 s100 s400 by (simp_all add: DaysInYear_def)
    then show ?thesis using e d by (simp add: algebra_simps)
  qed
qed

lemma DaysInYear_bounds: "365 \<le> DaysInYear y" "DaysInYear y \<le> 366"
  by (simp_all add: DaysInYear_def)

lemma DayFromYear_less: "y < y' \<Longrightarrow> DayFromYear y < DayFromYear y'"
proof (induction y' rule: int_gr_induct)
  case base
  then show ?case using DayFromYear_Suc[of y] DaysInYear_bounds(1)[of y] by simp
next
  case (step i)
  then show ?case using DayFromYear_Suc[of i] DaysInYear_bounds(1)[of i] by simp
qed

lemma div_bounds:
  fixes x k :: int
  assumes "0 < k"
  shows "k * (x div k) \<le> x" and "x < k * (x div k) + k"
proof -
  have "k * (x div k) + x mod k = x" by simp
  moreover have "0 \<le> x mod k" "x mod k < k" using assms by simp_all
  ultimately show "k * (x div k) \<le> x" and "x < k * (x div k) + k" by linarith+
qed

lemma DayFromYear_estimate:
  "146097 * (y - 1970) - 800 \<le> 400 * DayFromYear y"
  "400 * DayFromYear y \<le> 146097 * (y - 1970) + 800"
proof -
  define a4 where "a4 = (y - 1969) div 4"
  define a100 where "a100 = (y - 1901) div 100"
  define a400 where "a400 = (y - 1601) div 400"
  have d: "DayFromYear y = 365 * (y - 1970) + a4 - a100 + a400"
    by (simp add: DayFromYear_def a4_def a100_def a400_def)
  have b: "4 * a4 \<le> y - 1969" "y - 1969 < 4 * a4 + 4"
    "100 * a100 \<le> y - 1901" "y - 1901 < 100 * a100 + 100"
    "400 * a400 \<le> y - 1601" "y - 1601 < 400 * a400 + 400"
    using div_bounds[of 4 "y - 1969"] div_bounds[of 100 "y - 1901"]
      div_bounds[of 400 "y - 1601"]
    by (simp_all add: a4_def a100_def a400_def)
  show "146097 * (y - 1970) - 800 \<le> 400 * DayFromYear y"
    "400 * DayFromYear y \<le> 146097 * (y - 1970) + 800"
    using b unfolding d by (simp_all add: algebra_simps)
qed

lemma YearFromDay_spec:
  "DayFromYear (YearFromDay d) \<le> d" "d < DayFromYear (YearFromDay d + 1)"
proof -
  define q where "q = (400 * d) div 146097"
  have qb: "146097 * q \<le> 400 * d" "400 * d < 146097 * q + 146097"
    using div_bounds[of 146097 "400 * d"] by (simp_all add: q_def)
  have lo: "DayFromYear (1970 + q - 1) \<le> d"
    using DayFromYear_estimate(2)[of "1970 + q - 1"] qb by (simp add: algebra_simps)
  have hi: "d < DayFromYear (1970 + q + 1 + 1)"
    using DayFromYear_estimate(1)[of "1970 + q + 1 + 1"] qb by (simp add: algebra_simps)
  have y: "YearFromDay d =
      (if DayFromYear (1970 + q + 1) \<le> d then 1970 + q + 1
       else if DayFromYear (1970 + q) \<le> d then 1970 + q else 1970 + q - 1)"
    by (simp add: YearFromDay_def Let_def q_def)
  have c: "1970 + q - 1 + 1 = 1970 + q" by simp
  show "DayFromYear (YearFromDay d) \<le> d"
    unfolding y using lo by (simp del: DayFromYear_def)
  show "d < DayFromYear (YearFromDay d + 1)"
    unfolding y using hi c by (auto simp del: DayFromYear_def)
qed

lemma YearFromDay_unique:
  assumes "DayFromYear y \<le> d" and "d < DayFromYear (y + 1)"
  shows "YearFromDay d = y"
proof (rule ccontr)
  assume n: "YearFromDay d \<noteq> y"
  then consider "YearFromDay d < y" | "y < YearFromDay d" by linarith
  then show False
  proof cases
    case 1
    then have "YearFromDay d + 1 \<le> y" by simp
    then have "DayFromYear (YearFromDay d + 1) \<le> DayFromYear y"
      using DayFromYear_less[of "YearFromDay d + 1" y] by (cases "YearFromDay d + 1 = y") auto
    then show False using YearFromDay_spec(2)[of d] assms(1) by linarith
  next
    case 2
    then have "y + 1 \<le> YearFromDay d" by simp
    then have "DayFromYear (y + 1) \<le> DayFromYear (YearFromDay d)"
      using DayFromYear_less[of "y + 1" "YearFromDay d"] by (cases "y + 1 = YearFromDay d") auto
    then show False using YearFromDay_spec(1)[of d] assms(2) by linarith
  qed
qed


lemma month_cases:
  fixes m :: int
  assumes "0 \<le> m" and "m \<le> 11"
  obtains "m = 0" | "m = 1" | "m = 2" | "m = 3" | "m = 4" | "m = 5" | "m = 6" | "m = 7"
    | "m = 8" | "m = 9" | "m = 10" | "m = 11"
proof -
  have "m = 0 \<or> m = 1 \<or> m = 2 \<or> m = 3 \<or> m = 4 \<or> m = 5 \<or> m = 6 \<or> m = 7
      \<or> m = 8 \<or> m = 9 \<or> m = 10 \<or> m = 11"
    using assms by arith
  then show thesis using that by argo
qed

lemma monthOfYearDay_bounds:
  assumes "0 \<le> d" and "d < 365 + leap"
  shows "0 \<le> monthOfYearDay leap d" and "monthOfYearDay leap d \<le> 11"
    and "monthStartDay leap (monthOfYearDay leap d) \<le> d"
    and "d < monthEndDay leap (monthOfYearDay leap d)"
  using assms by (auto simp: monthOfYearDay_def monthStartDay_def monthEndDay_def)

lemma monthOfYearDay_unique:
  assumes "0 \<le> m" and "m \<le> 11" and "leap = 0 \<or> leap = 1"
    and "monthStartDay leap m \<le> d" and "d < monthEndDay leap m"
  shows "monthOfYearDay leap d = m"
  using assms(1,2)
proof (cases m rule: month_cases)
qed (use assms(3-5) in \<open>auto simp: monthOfYearDay_def monthStartDay_def monthEndDay_def\<close>)

lemma monthStartDay_bounds:
  assumes "0 \<le> m" and "m \<le> 11" and "leap = 0 \<or> leap = 1"
  shows "0 \<le> monthStartDay leap m \<and> monthStartDay leap m < monthEndDay leap m
     \<and> monthEndDay leap m \<le> 365 + leap"
  using assms(1,2)
proof (cases m rule: month_cases)
qed (use assms(3) in \<open>auto simp: monthStartDay_def monthEndDay_def\<close>)

lemma Day_bounds: "Day t * msPerDay \<le> t" "t < (Day t + 1) * msPerDay"
  using div_bounds[of msPerDay t] by (simp_all add: Day_def msPerDay_def algebra_simps)

lemma Day_MakeDate [simp]: "Day (MakeDate d 0) = d"
  by (simp add: Day_def MakeDate_def msPerDay_def)

lemma Day_less: "t < MakeDate d 0 \<Longrightarrow> Day t < d"
  using Day_bounds(1)[of t] by (simp add: MakeDate_def msPerDay_def)

lemma Day_mono: "t \<le> t' \<Longrightarrow> Day t \<le> Day t'"
  by (simp add: Day_def msPerDay_def zdiv_mono1)

lemma year_of_day:
  assumes "DayFromYear y \<le> Day t" and "Day t < DayFromYear y + DaysInYear y"
  shows "YearFromTime t = y"
  using assms YearFromDay_unique[of y "Day t"] by (simp add: YearFromTime_def DayFromYear_Suc)

lemma leap_cases: "(if DaysInYear y = 366 then 1 else 0) = (0::int) \<or> (if DaysInYear y = 366 then 1 else 0) = (1::int)"
  by simp

lemma DaysInYear_leap: "DaysInYear y = 365 + (if DaysInYear y = 366 then 1 else 0)"
  by (simp add: DaysInYear_def)

lemma next_month_start:
  fixes t :: int
  defines "y \<equiv> YearFromTime t" and "m \<equiv> MonthFromTime t"
  defines "s \<equiv> MakeDate (MakeDay y (m + 1) 1) 0"
  shows "t < s"
    and "\<forall>u. t \<le> u \<and> u < s \<longrightarrow> YearFromTime u = y \<and> MonthFromTime u = m"
    and "YearFromTime s = (if m = 11 then y + 1 else y)"
    and "MonthFromTime s = (if m = 11 then 0 else m + 1)"
    and "DateFromTime s = 1"
    and "s mod msPerDay = 0"
proof -
  define leap :: int where "leap = (if DaysInYear y = 366 then 1 else 0)"
  define dw where "dw = Day t - DayFromYear y"
  have l01: "leap = 0 \<or> leap = 1" by (simp add: leap_def)
  have diy: "DaysInYear y = 365 + leap" unfolding leap_def by (rule DaysInYear_leap)
  have yb: "DayFromYear y \<le> Day t" "Day t < DayFromYear y + DaysInYear y"
    using YearFromDay_spec[of "Day t"] by (simp_all add: y_def YearFromTime_def DayFromYear_Suc)
  have dwb: "0 \<le> dw" "dw < 365 + leap" using yb diy by (simp_all add: dw_def)
  have il: "InLeapYear t = leap" by (simp add: InLeapYear_def leap_def y_def)
  have m: "m = monthOfYearDay leap dw"
    by (simp add: m_def MonthFromTime_def il DayWithinYear_def dw_def y_def)
  note mb = monthOfYearDay_bounds[OF dwb, folded m]
  note sb = monthStartDay_bounds[OF mb(1,2) l01]
  define sd where "sd = DayFromYear y + monthEndDay leap m"
  have md: "MakeDay y (m + 1) 1 = sd"
  proof (cases "m = 11")
    case True
    then show ?thesis
      by (simp add: MakeDay_def sd_def monthEndDay_def monthStartDay_def DayFromYear_Suc diy)
  next
    case False
    then have "(m + 1) div 12 = 0" "(m + 1) mod 12 = m + 1" using mb(1,2) by simp_all
    then show ?thesis using False
      by (simp add: MakeDay_def sd_def monthEndDay_def leap_def)
  qed
  have s: "s = MakeDate sd 0" by (simp add: s_def md)
  have ds: "Day s = sd" by (simp add: s)
  have lt: "Day t < sd" using mb(4) by (simp add: sd_def dw_def)
  show "t < s"
  proof -
    have "(Day t + 1) * msPerDay \<le> sd * msPerDay" using lt by (simp add: msPerDay_def)
    then show ?thesis using Day_bounds(2)[of t] by (simp add: s MakeDate_def)
  qed
  show "\<forall>u. t \<le> u \<and> u < s \<longrightarrow> YearFromTime u = y \<and> MonthFromTime u = m"
  proof (intro allI impI)
    fix u assume u: "t \<le> u \<and> u < s"
    have d1: "Day t \<le> Day u" using u Day_mono by blast
    have d2: "Day u < sd" using u Day_less[of u sd] by (simp add: s)
    have yu: "YearFromTime u = y"
      using year_of_day[of y u] d1 d2 yb(1) sb diy by (simp add: sd_def)
    have iu: "InLeapYear u = leap" by (simp add: InLeapYear_def yu leap_def)
    have "monthOfYearDay leap (Day u - DayFromYear y) = m"
      using monthOfYearDay_unique[OF mb(1,2) l01, of "Day u - DayFromYear y"] d1 d2 mb(3)
      by (simp add: sd_def dw_def)
    then have "MonthFromTime u = m" by (simp add: MonthFromTime_def iu DayWithinYear_def yu)
    with yu show "YearFromTime u = y \<and> MonthFromTime u = m" by simp
  qed
  show "YearFromTime s = (if m = 11 then y + 1 else y)"
    and "MonthFromTime s = (if m = 11 then 0 else m + 1)"
    and "DateFromTime s = 1"
  proof -
    have all: "YearFromTime s = (if m = 11 then y + 1 else y)
        \<and> MonthFromTime s = (if m = 11 then 0 else m + 1) \<and> DateFromTime s = 1"
    proof (cases "m = 11")
      case True
      then have sd1: "sd = DayFromYear (y + 1)"
        by (simp add: sd_def monthEndDay_def DayFromYear_Suc diy)
      have ys: "YearFromTime s = y + 1"
        using year_of_day[of "y + 1" s] DaysInYear_bounds(1)[of "y + 1"] by (simp add: ds sd1)
      have dws: "DayWithinYear s = 0" by (simp add: DayWithinYear_def ys ds sd1)
      have "MonthFromTime s = 0" by (simp add: MonthFromTime_def dws monthOfYearDay_def)
      then show ?thesis using True ys dws
        by (simp add: DateFromTime_def monthStartDay_def)
    next
      case False
      then have m10: "m + 1 \<le> 11" "0 \<le> m + 1" using mb(1,2) by simp_all
      have sd1: "sd = DayFromYear y + monthStartDay leap (m + 1)"
        using False by (simp add: sd_def monthEndDay_def)
      note sb1 = monthStartDay_bounds[OF m10(2,1) l01]
      have ys: "YearFromTime s = y"
        using year_of_day[of y s] sb1 diy by (simp add: ds sd1)
      have ils: "InLeapYear s = leap" by (simp add: InLeapYear_def ys leap_def)
      have dws: "DayWithinYear s = monthStartDay leap (m + 1)"
        by (simp add: DayWithinYear_def ys ds sd1)
      have "monthOfYearDay leap (monthStartDay leap (m + 1)) = m + 1"
        using monthOfYearDay_unique[OF m10(2,1) l01, of "monthStartDay leap (m + 1)"] sb1 by simp
      then have ms: "MonthFromTime s = m + 1" by (simp add: MonthFromTime_def ils dws)
      show ?thesis using False ys ms by (simp add: DateFromTime_def ils dws)
    qed
    then show "YearFromTime s = (if m = 11 then y + 1 else y)"
      and "MonthFromTime s = (if m = 11 then 0 else m + 1)"
      and "DateFromTime s = 1" by blast+
  qed
  show "s mod msPerDay = 0" by (simp add: s MakeDate_def)
qed

text \<open>
  \<open>getNextMonthStartMs\<close> gives the first millisecond of the next calendar month in local
  time. Let \<open>t\<close> be the local time of \<open>now\<close>, in a year other than 0 to 99 (which the
  constructor of \<open>Date\<close> reads as 1900 to 1999). The result is the UTC time of the local
  time \<open>s\<close>, and \<open>s\<close> is midnight of day 1 of the month that follows the month of \<open>t\<close>; it
  comes after \<open>t\<close>, and every local time from \<open>t\<close> up to \<open>s\<close> lies in the month of \<open>t\<close>.
\<close>

lemma getNextMonthStartMs_first_ms_of_next_month:
  fixes z :: zone and now :: int
  defines "t \<equiv> LocalTime z now"
  defines "s \<equiv> MakeDate (MakeDay (YearFromTime t) (MonthFromTime t + 1) 1) 0"
  assumes "YearFromTime t < 0 \<or> 99 < YearFromTime t"
  shows "getNextMonthStartMs z now = UTC z s"
    and "t < s"
    and "\<forall>u. t \<le> u \<and> u < s
           \<longrightarrow> YearFromTime u = YearFromTime t \<and> MonthFromTime u = MonthFromTime t"
    and "YearFromTime s = (if MonthFromTime t = 11 then YearFromTime t + 1 else YearFromTime t)"
    and "MonthFromTime s = (if MonthFromTime t = 11 then 0 else MonthFromTime t + 1)"
    and "DateFromTime s = 1"
    and "s mod msPerDay = 0"
proof -
  show "getNextMonthStartMs z now = UTC z s"
    using assms(3)
    by (auto simp: getNextMonthStartMs_def dateAtMidnight_def getFullYear_def getMonth_def
          Let_def s_def t_def)
  show "t < s"
    and "\<forall>u. t \<le> u \<and> u < s
           \<longrightarrow> YearFromTime u = YearFromTime t \<and> MonthFromTime u = MonthFromTime t"
    and "YearFromTime s = (if MonthFromTime t = 11 then YearFromTime t + 1 else YearFromTime t)"
    and "MonthFromTime s = (if MonthFromTime t = 11 then 0 else MonthFromTime t + 1)"
    and "DateFromTime s = 1"
    and "s mod msPerDay = 0"
    unfolding s_def by (rule next_month_start)+
qed

text \<open>
  Where the two offsets of the zone agree on the result, the local time of the result is
  that midnight.
\<close>

lemma getNextMonthStartMs_local_time:
  assumes "YearFromTime (LocalTime z now) < 0 \<or> 99 < YearFromTime (LocalTime z now)"
    and "offsetAtUTC z (getNextMonthStartMs z now)
           = offsetAtLocal z (MakeDate (MakeDay (YearFromTime (LocalTime z now))
                                          (MonthFromTime (LocalTime z now) + 1) 1) 0)"
  shows "LocalTime z (getNextMonthStartMs z now)
           = MakeDate (MakeDay (YearFromTime (LocalTime z now))
                         (MonthFromTime (LocalTime z now) + 1) 1) 0"
  using assms(2) getNextMonthStartMs_first_ms_of_next_month(1)[OF assms(1)]
  by (simp add: LocalTime_def UTC_def)

text \<open>
  After 2025-12-31 00:00:01 UTC the next month starts at 2026-01-01 00:00:00 UTC. In New
  York, after 2026-03-03 12:00 UTC, it starts at 2026-04-01 04:00 UTC, which is midnight
  there in daylight saving time; and after 2026-10-15 12:00 UTC at 2026-11-01 04:00 UTC.
\<close>

lemma getNextMonthStartMs_examples:
  "getNextMonthStartMs utcZone 1767139201000 = 1767225600000"
  "getNextMonthStartMs newYork2026 1772539200000 = 1775016000000"
  "getNextMonthStartMs newYork2026 1792065600000 = 1793505600000"
  by code_simp+

section \<open>Properties of the dispatcher\<close>

lemma closeIfStarted_props:
  "writes (res (closeIfStarted st)) = writes (res st)"
  "statusCode (res (closeIfStarted st)) = statusCode (res st)"
  "headersSent (res (closeIfStarted st)) = headersSent (res st)"
  "writableEnded (res (closeIfStarted st))"
  "attempted (closeIfStarted st) = attempted st"
  "disabledUntil (closeIfStarted st) = disabledUntil st"
  "eligible (closeIfStarted st) = eligible st"
  by (auto simp: closeIfStarted_def endResponse_def)

lemma closeIfStarted_more:
  "storeLog (closeIfStarted st) = storeLog st"
  by (auto simp: closeIfStarted_def endResponse_def)

lemma responseStarted_mark [simp]:
  "responseStarted (markQuotaExhausted env k st) = responseStarted st"
  "responseStarted (setCooldown env k st) = responseStarted st"
  "responseStarted (st\<lparr>lastErrorText := t\<rparr>) = responseStarted st"
  by (auto simp: responseStarted_def markQuotaExhausted_def setCooldown_def Let_def)

lemma res_mark [simp]:
  "res (markQuotaExhausted env k st) = res st"
  "res (setCooldown env k st) = res st"
  "attempted (markQuotaExhausted env k st) = attempted st"
  "attempted (setCooldown env k st) = attempted st"
  by (auto simp: markQuotaExhausted_def setCooldown_def Let_def)

lemma handleFailure_started:
  assumes "responseStarted st"
  shows "snd (handleFailure env k e st)"
    and "writes (res (fst (handleFailure env k e st))) = writes (res st)"
    and "statusCode (res (fst (handleFailure env k e st))) = statusCode (res st)"
    and "writableEnded (res (fst (handleFailure env k e st)))"
    and "attempted (fst (handleFailure env k e st)) = attempted st"
  using assms
  by (auto simp: handleFailure_def Let_def closeIfStarted_props split: option.splits)

lemma beginStream_fields [simp]:
  "eligible (beginStream w st) = eligible st"
  "chosen (beginStream w st) = chosen st"
  "disabledUntil (beginStream w st) = disabledUntil st"
  "attempted (beginStream w st) = attempted st"
  "storeLog (beginStream w st) = storeLog st"
  "lastErrorText (beginStream w st) = lastErrorText st"
  "rrIndex (beginStream w st) = rrIndex st"
  "bodyMessages (beginStream w st) = bodyMessages st"
  by (simp_all add: beginStream_def)

lemma writeOut_more [simp]:
  "eligible (writeOut w st) = eligible st"
  "chosen (writeOut w st) = chosen st"
  "disabledUntil (writeOut w st) = disabledUntil st"
  "attempted (writeOut w st) = attempted st"
  "storeLog (writeOut w st) = storeLog st"
  "lastErrorText (writeOut w st) = lastErrorText st"
  "rrIndex (writeOut w st) = rrIndex st"
  "bodyMessages (writeOut w st) = bodyMessages st"
  by (simp_all add: writeOut_def)

lemma writeClaudeChunks_fields [simp]:
  "eligible (writeClaudeChunks env cs st) = eligible st"
  "chosen (writeClaudeChunks env cs st) = chosen st"
  "disabledUntil (writeClaudeChunks env cs st) = disabledUntil st"
  "attempted (writeClaudeChunks env cs st) = attempted st"
  "storeLog (writeClaudeChunks env cs st) = storeLog st"
  "lastErrorText (writeClaudeChunks env cs st) = lastErrorText st"
  "rrIndex (writeClaudeChunks env cs st) = rrIndex st"
  "bodyMessages (writeClaudeChunks env cs st) = bodyMessages st"
  by (induction env cs st rule: writeClaudeChunks.induct) simp_all

lemma writeOpenAIChunks_fields [simp]:
  "eligible (writeOpenAIChunks env model created k j oid cs st) = eligible st"
  "chosen (writeOpenAIChunks env model created k j oid cs st) = chosen st"
  "disabledUntil (writeOpenAIChunks env model created k j oid cs st) = disabledUntil st"
  "attempted (writeOpenAIChunks env model created k j oid cs st) = attempted st"
  "storeLog (writeOpenAIChunks env model created k j oid cs st) = storeLog st"
  "lastErrorText (writeOpenAIChunks env model created k j oid cs st) = lastErrorText st"
  "rrIndex (writeOpenAIChunks env model created k j oid cs st) = rrIndex st"
  "bodyMessages (writeOpenAIChunks env model created k j oid cs st) = bodyMessages st"
  by (induction env model created k j oid cs st rule: writeOpenAIChunks.induct)
     (simp_all add: Let_def)

lemma writeChunks_fields [simp]:
  "eligible (writeChunks env body k cs st) = eligible st"
  "chosen (writeChunks env body k cs st) = chosen st"
  "disabledUntil (writeChunks env body k cs st) = disabledUntil st"
  "attempted (writeChunks env body k cs st) = attempted st"
  "storeLog (writeChunks env body k cs st) = storeLog st"
  "lastErrorText (writeChunks env body k cs st) = lastErrorText st"
  "rrIndex (writeChunks env body k cs st) = rrIndex st"
  "bodyMessages (writeChunks env body k cs st) = bodyMessages st"
  by (simp_all add: writeChunks_def)

text \<open>The response has started as soon as a chunk is written.\<close>

lemma writeChunks_started:
  "responseStarted (writeChunks env body k cs st) \<longleftrightarrow> cs \<noteq> [] \<or> responseStarted st"
proof -
  have b: "responseStarted (writeOut ws (beginStream w st))" for ws w st
    by (simp add: responseStarted_def)
  have c: "responseStarted st \<Longrightarrow> responseStarted (writeClaudeChunks env cs st)" for cs st
    by (induction cs arbitrary: st) (simp_all add: b)
  have o: "responseStarted st
      \<Longrightarrow> responseStarted (writeOpenAIChunks env model created k j oid cs st)"
    for model created j oid cs st
    by (induction cs arbitrary: st j oid) (simp_all add: b Let_def)
  show ?thesis
    by (cases cs) (auto simp: writeChunks_def Let_def b c o)
qed

lemma ensureFresh_id:
  "ensureFresh env k a = Inr (a1, ups) \<Longrightarrow> acc_id a1 = acc_id a \<and> status a1 = status a
      \<and> quotaExhaustedUntil a1 = quotaExhaustedUntil a"
  by (auto simp: ensureFresh_def Let_def split: if_splits sum.splits)

lemma tryAttempt_failed:
  assumes t: "tryAttempt env body k st = (st1, Some e)" and el: "eligible st \<noteq> []"
  shows "chosen st1 = chosenIndex st"
    and "chosen st1 < length (eligible st1)"
    and "length (eligible st1) = length (eligible st)"
    and "acc_id (eligible st1 ! chosen st1) = acc_id (chosenAccount st)"
    and "disabledUntil st1 = disabledUntil st"
    and "map status (eligible st1) = map status (eligible st)"
    and "attempted st1 = attempted st @ [acc_id (chosenAccount st)]"
proof -
  let ?i = "rrIndex st mod length (eligible st)"
  have il: "?i < length (eligible st)" using el by simp
  have all: "chosen st1 = chosenIndex st \<and> chosen st1 < length (eligible st1)
     \<and> length (eligible st1) = length (eligible st)
     \<and> acc_id (eligible st1 ! chosen st1) = acc_id (chosenAccount st)
     \<and> disabledUntil st1 = disabledUntil st
     \<and> map status (eligible st1) = map status (eligible st)
     \<and> attempted st1 = attempted st @ [acc_id (chosenAccount st)]"
  proof (cases "ensureFresh env k (eligible st ! ?i)")
    case (Inl e')
    with t il show ?thesis
      by (auto simp: tryAttempt_def Let_def chosenIndex_def chosenAccount_def)
  next
    case (Inr p)
    obtain a1 ups where p: "p = (a1, ups)" by (cases p)
    from ensureFresh_id[of env k "eligible st ! ?i" a1 ups] Inr p
    have id: "acc_id a1 = acc_id (eligible st ! ?i)" "status a1 = status (eligible st ! ?i)" by auto
    have ms: "map status ((eligible st)[?i := a1]) = map status (eligible st)"
      using id(2) il by (simp add: map_update list_update_same_conv)
    show ?thesis
      using t il Inr p id ms
      by (auto simp: tryAttempt_def Let_def chosenIndex_def chosenAccount_def
               split: if_splits prod.splits option.splits sum.splits)
  qed
  then show "chosen st1 = chosenIndex st"
    and "chosen st1 < length (eligible st1)"
    and "length (eligible st1) = length (eligible st)"
    and "acc_id (eligible st1 ! chosen st1) = acc_id (chosenAccount st)"
    and "disabledUntil st1 = disabledUntil st"
    and "map status (eligible st1) = map status (eligible st)"
    and "attempted st1 = attempted st @ [acc_id (chosenAccount st)]"
    by blast+
qed

lemma sendJson_fields [simp]:
  "statusCode (sendJson r c p) = Some c"
  "writes (sendJson r c p) = writes r @ [JsonBody p]"
  "headersSent (sendJson r c p)"
  "writableEnded (sendJson r c p)"
  by (simp_all add: sendJson_def)

text \<open>An empty array of messages is refused by the translator and stays empty.\<close>

lemma buildRequest_empty:
  "buildRequest env body a [] = (Inl ''No user messages found'', [])"
  by (simp add: buildRequest_def buildCodewhispererRequest_def messagesAfterBuild_def)

lemma unaryOutcome_empty:
  "unaryOutcome env body a [] = (Inl (JsError ''No user messages found'' None), [])"
  by (simp add: unaryOutcome_def buildRequest_empty callApi.simps)

lemma streamOutcome_empty:
  "streamOutcome env body a [] = (([], Some (JsError ''No user messages found'' None)), [])"
  by (simp add: streamOutcome_def buildRequest_empty streamApiReal.simps
      generateContentStreamOf_def Let_def)

text \<open>
  A streaming request whose upstream reply holds no event, through the whole handler: the
  three closing chunks are all that is written.
\<close>

lemma stream_without_events_through_handler:
  "writes (res (dispatch (poolEnv quotaUpstream quietStream) (helloBody True)
       [acctA, acctB] 0 Map.empty))
     = [ClaudeEvent (ContentBlockStop 0), ClaudeEvent (MessageDelta ''end_turn'' 0),
        ClaudeEvent MessageStop]"
  by code_simp

text \<open>
  The attempts share the array of messages, which each call of the translator rewrites:
  of the two stub turns that end this conversation the call for account \<open>a\<close> drops one and
  the call for account \<open>b\<close> the other.
\<close>

lemma attempts_share_rewritten_messages:
  "attempted (dispatch (poolEnv quotaUpstream quietStream) stubBody [acctA, acctB] 0 Map.empty)
     = [''a'', ''b'']"
  "map role (b_messages stubBody) = [''user'', ''assistant'', ''user'', ''assistant'', ''assistant'']"
  "map role (bodyMessages (fst (attempt (poolEnv quotaUpstream quietStream) stubBody 0
       (poolState stubBody))))
     = [''user'', ''assistant'', ''user'', ''assistant'']"
  "map role (bodyMessages (dispatch (poolEnv quotaUpstream quietStream) stubBody
       [acctA, acctB] 0 Map.empty))
     = [''user'', ''assistant'', ''user'']"
  by code_simp+

text \<open>
  C10, as it is stated, fails: the update is built with
  \<open>refreshed.refreshToken ?? creds.refreshToken\<close>, and \<open>??\<close> falls back on \<open>null\<close> and \<open>undefined\<close>
  only. When the refresher returns the empty string as refresh token, the empty string is
  stored, in the snapshot and in the update, and the account, which had a refresh token,
  has none afterwards: the handler takes accounts with an empty refresh token out of the
  pool.
\<close>

theorem C10_empty_refresh_token_stored:
  "hasRefreshToken acctStale
   \<and> ensureFresh (emptyTokenEnv quotaUpstream quietStream) 0 acctStale
       = Inr (acctStale\<lparr> creds := (creds acctStale)
                 \<lparr> accessToken := ''token-new'', refreshToken := Some [],
                   expiresAt := 1767142800500 \<rparr> \<rparr>,
              [UpdateAccountCredentials ''a''
                 \<lparr> cu_accessToken = ''token-new'', cu_refreshToken = Some [],
                   cu_expiresAt = 1767142800500 \<rparr>])
   \<and> \<not> hasRefreshToken (acctStale\<lparr> creds := (creds acctStale)
                 \<lparr> accessToken := ''token-new'', refreshToken := Some [],
                   expiresAt := 1767142800500 \<rparr> \<rparr>)"
  by code_simp

text \<open>
  C10, amended: after a successful refresh by the dispatcher the stored refresh token is
  the one that the refresher returned, or the previous one when it returned none; the
  snapshot and the update sent to the store hold the same. So an account that had a
  refresh token still has one, in both, unless the refresher returned the empty string.
\<close>

theorem C10_refresh_token_kept:
  assumes "accessToken (creds a) = []
       \<or> isTokenNearExpiry (timeCheck env k) (expiresAt (creds a)) (refreshBeforeExpiryMs env)"
    and "refreshAccountToken env a = Inr r" and "rr_accessToken r \<noteq> []"
  shows "\<exists>a' u. ensureFresh env k a = Inr (a', [UpdateAccountCredentials (acc_id a) u])
           \<and> refreshToken (creds a') = cu_refreshToken u
           \<and> cu_refreshToken u
                = (case rr_refreshToken r of None \<Rightarrow> refreshToken (creds a) | Some t \<Rightarrow> Some t)
           \<and> (hasRefreshToken a \<and> rr_refreshToken r \<noteq> Some []
                \<longrightarrow> hasRefreshToken a' \<and> nonEmpty (cu_refreshToken u))"
  using assms
  by (auto simp: ensureFresh_def Let_def hasRefreshToken_def nonEmpty_def split: option.splits)

theorem C10_refresh_token_kept_witness:
  "\<exists>a' u. ensureFresh (poolEnv quotaUpstream quietStream) 0 acctStale
             = Inr (a', [UpdateAccountCredentials ''a'' u])
     \<and> refreshToken (creds a') = Some ''refresh-a''
     \<and> cu_refreshToken u = Some ''refresh-a''
     \<and> hasRefreshToken a'"
proof -
  let ?E = "poolEnv quotaUpstream quietStream"
  let ?r = "\<lparr> rr_accessToken = ''token-new'', rr_refreshToken = None, rr_expiresIn = None \<rparr>"
  have need: "accessToken (creds acctStale) = []
       \<or> isTokenNearExpiry (timeCheck ?E 0) (expiresAt (creds acctStale)) (refreshBeforeExpiryMs ?E)"
    by code_simp
  have ok: "refreshAccountToken ?E acctStale = Inr ?r" by (simp add: poolEnv_def)
  have tok: "rr_accessToken ?r \<noteq> []" by simp
  have c: "acc_id acctStale = ''a''" "refreshToken (creds acctStale) = Some ''refresh-a''"
    "hasRefreshToken acctStale"
    by code_simp+
  from C10_refresh_token_kept[OF need ok tok] show ?thesis by (auto simp: c)
qed

text \<open>
  C5: when the \<open>try\<close> block of an attempt is left by an error after the response has
  started (a chunk was written, or the headers were sent), the loop returns: no other
  account is tried, nothing more is written, the status stays, and the response is ended.
\<close>

theorem C5_no_retry_after_stream_started:
  assumes "snd (tryAttempt env body k st) = Some e"
    and "responseStarted (fst (tryAttempt env body k st))"
  shows "snd (attemptLoop env body (Suc n) k st)
       \<and> attempted (fst (attemptLoop env body (Suc n) k st))
           = attempted (fst (tryAttempt env body k st))
       \<and> writes (res (fst (attemptLoop env body (Suc n) k st)))
           = writes (res (fst (tryAttempt env body k st)))
       \<and> statusCode (res (fst (attemptLoop env body (Suc n) k st)))
           = statusCode (res (fst (tryAttempt env body k st)))
       \<and> writableEnded (res (fst (attemptLoop env body (Suc n) k st)))"
proof -
  obtain st1 where t: "tryAttempt env body k st = (st1, Some e)"
    using assms(1) by (cases "tryAttempt env body k st") auto
  with assms(2) have s: "responseStarted st1" by simp
  obtain st2 r where h: "handleFailure env k e st1 = (st2, r)" by (cases "handleFailure env k e st1")
  from handleFailure_started[OF s, of env k e] h
  have "r" "writes (res st2) = writes (res st1)" "statusCode (res st2) = statusCode (res st1)"
    "writableEnded (res st2)" "attempted st2 = attempted st1" by simp_all
  then show ?thesis using t h by (simp add: attempt_def)
qed

theorem C5_no_retry_after_stream_started_witness:
  "snd (attemptLoop (poolEnv quotaUpstream (brokenStream (Some 500))) (helloBody True) (Suc 1) 0 (poolState (helloBody True)))
   \<and> attempted (fst (attemptLoop (poolEnv quotaUpstream (brokenStream (Some 500))) (helloBody True) (Suc 1) 0 (poolState (helloBody True)))) = [''a'']
   \<and> statusCode (res (fst (attemptLoop (poolEnv quotaUpstream (brokenStream (Some 500))) (helloBody True) (Suc 1) 0 (poolState (helloBody True))))) = Some 200
   \<and> writableEnded (res (fst (attemptLoop (poolEnv quotaUpstream (brokenStream (Some 500))) (helloBody True) (Suc 1) 0 (poolState (helloBody True)))))"
proof -
  let ?E = "poolEnv quotaUpstream (brokenStream (Some 500))"
  let ?B = "helloBody True"
  let ?S = "poolState (helloBody True)"
  have h1: "snd (tryAttempt ?E ?B 0 ?S) = Some (JsError ''socket hang up'' (Some 500))"
    by code_simp
  have h2: "responseStarted (fst (tryAttempt ?E ?B 0 ?S))" by code_simp
  have a: "attempted (fst (tryAttempt ?E ?B 0 ?S)) = [''a'']"
    "statusCode (res (fst (tryAttempt ?E ?B 0 ?S))) = Some 200" by code_simp+
  from C5_no_retry_after_stream_started[OF h1 h2, of 1] a show ?thesis by simp
qed

text \<open>
  C1, as the specification states it, fails for an attempt that fails after the stream
  has started: here the upstream breaks with a network error after the first content
  event, and the request is not answered 502; the response, begun with status 200, is
  ended.
\<close>

theorem C1_midstream_error_not_answered_502:
  "statusCode (res (dispatch (poolEnv quotaUpstream (brokenStream None)) (helloBody True)
       [acctA, acctB] 0 Map.empty)) = Some 200
   \<and> attempted (dispatch (poolEnv quotaUpstream (brokenStream None)) (helloBody True)
       [acctA, acctB] 0 Map.empty) = [''a'']
   \<and> lastErrorText (dispatch (poolEnv quotaUpstream (brokenStream None)) (helloBody True)
       [acctA, acctB] 0 Map.empty) = Some ''socket hang up''"
  by code_simp

text \<open>
  C1, amended: for every attempt that fails, an error without a status and a status 400
  set no cooldown and change no account; status 402 marks the chosen account
  \<open>quota_exhausted\<close> until \<open>getNextMonthStartMs()\<close>, the first millisecond of the next calendar
  month in the local time of the host (see \<open>getNextMonthStartMs_first_ms_of_next_month\<close>),
  in the cooldown map, in the snapshot and in the store; any other status sets the
  cooldown of the chosen account to now + \<open>cooldownMs\<close>. When the response has not started,
  the request is answered 502 for an error without a status and 400 for status 400, and
  the loop goes on to the next attempt for the other statuses, with the array of messages
  as the failed attempt left it; when the response has started, nothing more is written,
  the response is ended and the handler returns.
\<close>

theorem C1_disposition:
  assumes t: "tryAttempt env body k st = (st1, Some e)"
    and el: "eligible st \<noteq> []"
  shows "\<exists>st2.
      attempt env body k st
        = (st2, responseStarted st1 \<or> response_status e = None \<or> response_status e = Some 400)
    \<and> attemptLoop env body (Suc n) k st
        = (if responseStarted st1 \<or> response_status e = None \<or> response_status e = Some 400
           then (st2, True) else attemptLoop env body n (Suc k) st2)
    \<and> bodyMessages st2 = bodyMessages st1
    \<and> (if responseStarted st1
        then statusCode (res st2) = statusCode (res st1) \<and> writes (res st2) = writes (res st1)
             \<and> writableEnded (res st2)
        else (case response_status e of
                None \<Rightarrow> statusCode (res st2) = Some 502
                          \<and> writes (res st2) = writes (res st1) @ [JsonBody (errorText e)]
              | Some c \<Rightarrow>
                  if c = 400
                  then statusCode (res st2) = Some 400
                       \<and> writes (res st2) = writes (res st1) @ [JsonBody (errorText e)]
                  else res st2 = res st1))
    \<and> (case response_status e of
          None \<Rightarrow> disabledUntil st2 = disabledUntil st
                    \<and> map status (eligible st2) = map status (eligible st)
        | Some c \<Rightarrow>
            if c = 400
            then disabledUntil st2 = disabledUntil st
                 \<and> map status (eligible st2) = map status (eligible st)
            else if c = 402
            then status (eligible st2 ! chosenIndex st) = Some ''quota_exhausted''
                 \<and> quotaExhaustedUntil (eligible st2 ! chosenIndex st)
                      = Some (getNextMonthStartMs (d_zone env) (timeCatch env k))
                 \<and> disabledUntil st2 = (disabledUntil st)
                      (acc_id (chosenAccount st)
                         \<mapsto> getNextMonthStartMs (d_zone env) (timeCatch env k))
                 \<and> storeLog st2 = storeLog st1
                      @ (if has_updateAccountStatus env
                         then [UpdateAccountStatus (acc_id (chosenAccount st))
                                 \<lparr> su_status = ''quota_exhausted'',
                                   su_quotaExhaustedUntil =
                                     Some (getNextMonthStartMs (d_zone env) (timeCatch env k)),
                                   su_lastError = errorText e \<rparr>]
                         else [])
            else disabledUntil st2 = (disabledUntil st)
                      (acc_id (chosenAccount st) \<mapsto> timeCatch env k + cooldownMs env)
                 \<and> map status (eligible st2) = map status (eligible st))"
proof -
  note f = tryAttempt_failed[OF t el]
  let ?st = "st1\<lparr>lastErrorText := Some (errorText e)\<rparr>"
  have rs: "responseStarted ?st = responseStarted st1" by (simp add: responseStarted_def)
  have cm: "bodyMessages (closeIfStarted s) = bodyMessages s" for s
    by (simp add: closeIfStarted_def)
  show ?thesis
  proof (cases "response_status e")
    case None
    then show ?thesis
      using t f rs
      by (cases "responseStarted st1")
         (simp_all add: attempt_def handleFailure_def Let_def closeIfStarted_props cm)
  next
    case (Some c)
    consider "c = 400" | "c = 402" | "c \<noteq> 400" "c \<noteq> 402" by blast
    then show ?thesis
    proof cases
      case 1
      then show ?thesis
        using t f rs Some
        by (cases "responseStarted st1")
           (simp_all add: attempt_def handleFailure_def Let_def closeIfStarted_props cm)
    next
      case 2
      have m: "responseStarted (markQuotaExhausted env k ?st) = responseStarted st1"
        by (simp add: responseStarted_def markQuotaExhausted_def Let_def)
      show ?thesis
        using 2 t f rs m Some
        by (cases "responseStarted st1")
           (simp_all add: attempt_def handleFailure_def Let_def closeIfStarted_props
              closeIfStarted_more markQuotaExhausted_def cm)
    next
      case 3
      have m: "responseStarted (setCooldown env k ?st) = responseStarted st1"
        by (simp add: responseStarted_def setCooldown_def)
      show ?thesis
        using 3 t f rs m Some
        by (cases "responseStarted st1")
           (simp_all add: attempt_def handleFailure_def Let_def closeIfStarted_props
              closeIfStarted_more setCooldown_def cm)
    qed
  qed
qed

theorem C1_disposition_witness:
  "\<exists>st2. attempt (poolEnv quotaUpstream quietStream) (helloBody False) 0 (poolState (helloBody False))
            = (st2, False)
     \<and> status (eligible st2 ! 0) = Some ''quota_exhausted''
     \<and> quotaExhaustedUntil (eligible st2 ! 0) = Some 1767225600000
     \<and> disabledUntil st2 ''a'' = Some 1767225600000"
proof -
  let ?E = "poolEnv quotaUpstream quietStream"
  let ?B = "helloBody False"
  let ?S = "poolState (helloBody False)"
  let ?e = "JsError ''upstream error'' (Some 402)"
  have s: "snd (tryAttempt ?E ?B 0 ?S) = Some ?e" by code_simp
  have t: "tryAttempt ?E ?B 0 ?S = (fst (tryAttempt ?E ?B 0 ?S), Some ?e)"
    using s by (simp add: prod_eq_iff)
  have ns: "\<not> responseStarted (fst (tryAttempt ?E ?B 0 ?S))" by code_simp
  have el: "eligible ?S \<noteq> []" by code_simp
  have c: "chosenIndex ?S = 0" "acc_id (chosenAccount ?S) = ''a''"
    "getNextMonthStartMs (d_zone ?E) (timeCatch ?E 0) = 1767225600000" by code_simp+
  from C1_disposition[OF t el, of 1] show ?thesis
    by (auto simp: c ns)
qed

text \<open>
  C9, as the specification states it, fails: the translator throws a plain error for an
  empty message list, which carries no status, so the request is answered 502, not 400.
\<close>

theorem C9_empty_messages_answered_502:
  "statusCode (res (dispatch (poolEnv quotaUpstream quietStream) emptyBody
       [acctA, acctB] 0 Map.empty)) = Some 502"
  by code_simp

text \<open>
  C9, amended: for a request with an empty message list, when the token of the chosen
  account is fresh or its refresh succeeds, the request is answered 502, with the text of
  the translator's error, or with the text of the \<open>RangeError\<close> when the expiry of the
  account is not a time value (the configuration of the service is built before the
  translator runs); no other account is tried, the cooldown map is unchanged and so is
  the status of every account.
\<close>

theorem C9_empty_messages_not_penalized:
  assumes em: "bodyMessages st = []"
    and el: "eligible st \<noteq> []"
    and ns: "\<not> responseStarted st"
    and fr: "ensureFresh env k (chosenAccount st) = Inr (a1, ups)"
  shows "\<exists>st2. attemptLoop env body (Suc n) k st = (st2, True)
           \<and> statusCode (res st2) = Some 502
           \<and> writes (res st2) = writes (res st)
                @ [JsonBody (if isTimeValue (expiresAt (creds a1))
                             then ''No user messages found'' else ''Invalid time value'')]
           \<and> disabledUntil st2 = disabledUntil st
           \<and> map status (eligible st2) = map status (eligible st)
           \<and> attempted st2 = attempted st @ [acc_id (chosenAccount st)]"
proof -
  let ?m = "if isTimeValue (expiresAt (creds a1))
            then ''No user messages found'' else ''Invalid time value''"
  let ?e = "JsError ?m None"
  let ?i = "rrIndex st mod length (eligible st)"
  let ?st1 = "st\<lparr> rrIndex := (rrIndex st + 1) mod length (eligible st),
                    attempted := attempted st @ [acc_id (chosenAccount st)], chosen := ?i,
                    eligible := (eligible st)[?i := a1], storeLog := storeLog st @ ups \<rparr>"
  have t: "\<exists>st1. tryAttempt env body k st = (st1, Some ?e) \<and> res st1 = res st
      \<and> streamWritten st1 = streamWritten st"
    using fr em
    by (cases "b_stream body")
       (simp_all add: tryAttempt_def Let_def chosenAccount_def chosenIndex_def
          unaryOutcome_empty streamOutcome_empty writeChunks_def)
  then obtain st1 where t1: "tryAttempt env body k st = (st1, Some ?e)"
    and r1: "res st1 = res st" "streamWritten st1 = streamWritten st" by blast
  have ns2: "\<not> responseStarted (st1\<lparr>lastErrorText := Some (errorText ?e)\<rparr>)"
    using ns r1 by (simp add: responseStarted_def)
  have a: "attempt env body k st =
      (st1\<lparr>lastErrorText := Some (errorText ?e),
            res := sendJson (res st) 502 (errorText ?e)\<rparr>, True)"
    using ns2 r1 by (simp add: attempt_def t1 handleFailure_def Let_def)
  have et: "errorText ?e = ?m" by (simp add: errorText_def)
  show ?thesis
    using tryAttempt_failed(5,6,7)[OF t1 el]
    by (simp add: a et)
qed

theorem C9_empty_messages_not_penalized_witness:
  "\<exists>st2. attemptLoop (poolEnv quotaUpstream quietStream) emptyBody (Suc 1) 0 (poolState emptyBody)
            = (st2, True)
     \<and> statusCode (res st2) = Some 502
     \<and> writes (res st2) = [JsonBody ''No user messages found'']
     \<and> disabledUntil st2 ''a'' = None
     \<and> map status (eligible st2) = [Some ''active'', Some ''active'']
     \<and> attempted st2 = [''a'']"
proof -
  let ?E = "poolEnv quotaUpstream quietStream"
  let ?S = "poolState emptyBody"
  have em: "bodyMessages ?S = []" by code_simp
  have el: "eligible ?S \<noteq> []" by code_simp
  have ns: "\<not> responseStarted ?S" by code_simp
  have fr: "ensureFresh ?E 0 (chosenAccount ?S) = Inr (acctA, [])" by code_simp
  have c: "writes (res ?S) = []" "disabledUntil ?S ''a'' = None"
    "map status (eligible ?S) = [Some ''active'', Some ''active'']"
    "attempted ?S = []" "acc_id (chosenAccount ?S) = ''a''"
    "isTimeValue (expiresAt (creds acctA))" by code_simp+
  from C9_empty_messages_not_penalized[OF em el ns fr, where n=1 and body=emptyBody]
  show ?thesis
    by (auto simp: c)
qed

text \<open>
  The same request when the one account of the pool has an expiry that is not a time
  value: the answer is 502 with the text of the \<open>RangeError\<close>.
\<close>

lemma empty_messages_invalid_expiry:
  "statusCode (res (dispatch (poolEnv quotaUpstream quietStream) emptyBody
       [acctNoDate] 0 Map.empty)) = Some 502"
  "writes (res (dispatch (poolEnv quotaUpstream quietStream) emptyBody
       [acctNoDate] 0 Map.empty)) = [JsonBody ''Invalid time value'']"
  by code_simp+


end
